(* ===== verification/Float32.thy ===== *)
theory Float32
  imports Complex_Main
begin

text \<open>
  The IEEE-754 arithmetic that the C++ sources use: \<open>float\<close> is binary32, and \<open>double\<close>
  (binary64) appears where \<open>std::pow(float, int)\<close> promotes its argument.

  A value is a rational, an infinity or NaN.  An operation computes the exact rational result
  and rounds it once to the destination format, to nearest with ties to even, as the standard
  prescribes for the default rounding mode; a rounded magnitude of at least \<open>2 ^ emax\<close>
  overflows to an infinity.  Both zeros are one value here: no comparison of the sources tells
  them apart and no operation of the sources divides by a zero that could be negative.
  Everything computes, so the geometry of the quad tree can be evaluated on concrete maps.

  The lemmas the development rests on: rounding is monotone, odd and exact on representable
  numbers.  Nothing about the size of the rounding error is needed.
\<close>

section \<open>Integer logarithm and rounding to an integer\<close>

function nlog2 :: "int \<Rightarrow> int" where
  "nlog2 n = (if n < 2 then 0 else 1 + nlog2 (n div 2))"
  by pat_completeness auto
termination
  by (relation "measure nat") auto

declare nlog2.simps [simp del]

fun num_len :: "num \<Rightarrow> int" where
  "num_len num.One = 0"
| "num_len (num.Bit0 n) = 1 + num_len n"
| "num_len (num.Bit1 n) = 1 + num_len n"

lemma nlog2_num: "nlog2 (numeral n) = num_len n"
  by (induction n) (simp_all add: nlog2.simps [of "numeral _"] nlog2.simps [of 1])

lemma nlog2_code [code]: "nlog2 0 = 0" "nlog2 (Int.Pos n) = num_len n" "nlog2 (Int.Neg n) = 0"
  by (simp_all add: nlog2_num Int.Pos_def Int.Neg_def nlog2.simps [of 0] nlog2.simps [of "- numeral n"])

text \<open>Powers of two with an integer exponent, the weights of the bits of a value.\<close>

definition p2 :: "int \<Rightarrow> rat" where
  "p2 k = 2 powi k"

lemma p2_pos [simp]: "0 < p2 k"
  by (simp add: p2_def)

lemma p2_nonneg [simp]: "0 \<le> p2 k" and p2_neq_0 [simp]: "p2 k \<noteq> 0"
  using p2_pos [of k] by linarith+

lemma p2_less: "a < b \<Longrightarrow> p2 a < p2 b"
  unfolding p2_def by (rule power_int_strict_increasing) simp_all

lemma p2_le_iff [simp]: "p2 a \<le> p2 b \<longleftrightarrow> a \<le> b"
  using p2_less [of a b] p2_less [of b a] by (cases a b rule: linorder_cases) auto

lemma p2_less_iff [simp]: "p2 a < p2 b \<longleftrightarrow> a < b"
  using p2_le_iff [of b a] by linarith

lemma p2_add: "p2 (a + b) = p2 a * p2 b"
  by (simp add: p2_def power_int_add)

lemma p2_diff: "p2 (a - b) = p2 a / p2 b"
  by (simp add: p2_def power_int_diff)

lemma p2_Suc: "p2 (k + 1) = 2 * p2 k"
  by (simp add: p2_add) (simp add: p2_def)

lemma p2_of_nat: "p2 (int n) = of_int (2 ^ n)"
  by (simp add: p2_def)

lemma p2_nat: "0 \<le> k \<Longrightarrow> p2 k = of_int (2 ^ nat k)"
  using p2_of_nat [of "nat k"] by simp

text \<open>Evaluation squares instead of multiplying step by step.\<close>

function pow2 :: "int \<Rightarrow> int" where
  "pow2 k = (if k \<le> 0 then 1 else let h = pow2 (k div 2) in if k mod 2 = 0 then h * h else 2 * (h * h))"
  by pat_completeness auto
termination by (relation "measure nat") auto
declare pow2.simps [simp del]

lemma pow2_eq: "0 \<le> k \<Longrightarrow> pow2 k = 2 ^ nat k"
proof (induction k rule: pow2.induct)
  case (1 k)
  show ?case
  proof (cases "k \<le> 0")
    case True then show ?thesis using 1 by (simp add: pow2.simps)
  next
    case False
    then have IH: "pow2 (k div 2) = 2 ^ nat (k div 2)" using 1 by simp
    have "nat (2 * (k div 2) + k mod 2) = nat (k div 2) + nat (k div 2) + nat (k mod 2)" using False
      by (simp only: nat_add_distrib pos_imp_zdiv_nonneg_iff) (simp add: nat_add_distrib nat_mult_distrib)
    then have "nat k = nat (k div 2) + nat (k div 2) + nat (k mod 2)" by simp
    then have "(2::int) ^ nat k = 2 ^ nat (k div 2) * 2 ^ nat (k div 2) * 2 ^ nat (k mod 2)" by (simp only: power_add)
    then show ?thesis using False IH by (subst pow2.simps) (simp add: Let_def)
  qed
qed

lemma p2_code [code]: "p2 k = (if 0 \<le> k then of_int (pow2 k) else 1 / of_int (pow2 (- k)))"
proof (cases "0 \<le> k")
  case True
  then show ?thesis using pow2_eq [OF True] p2_nat [OF True] by (simp only: if_True)
next
  case False
  then have "p2 (- k) = of_int (pow2 (- k))" using pow2_eq [of "- k"] p2_nat [of "- k"] by simp
  moreover have "p2 k = p2 0 / p2 (- k)" using p2_diff [of 0 "- k"] by simp
  moreover have "p2 0 = 1" by (simp add: p2_def)
  ultimately show ?thesis using False by (simp only: if_False)
qed

lemma nlog2_nonneg: "0 \<le> nlog2 n"
  by (induction n rule: nlog2.induct) (simp add: nlog2.simps)

lemma p2_ge_of_int: "0 \<le> k \<Longrightarrow> of_int n < p2 k \<longleftrightarrow> n < 2 ^ nat k"
  by (simp only: p2_nat of_int_less_iff)

lemma p2_le_of_int: "0 \<le> k \<Longrightarrow> p2 k \<le> of_int n \<longleftrightarrow> 2 ^ nat k \<le> n"
  by (simp only: p2_nat of_int_le_iff)

text \<open>\<open>ilog2 x\<close> is the exponent of the leading bit of a positive rational.\<close>

definition ilog2 :: "rat \<Rightarrow> int" where
  "ilog2 x = (case quotient_of x of (a, b) \<Rightarrow>
     let k = nlog2 a - nlog2 b
     in if p2 k \<le> x then k else k - 1)"

lemma nlog2_p2: "0 < n \<Longrightarrow> p2 (nlog2 n) \<le> of_int n \<and> of_int n < p2 (nlog2 n + 1)"
proof (induction n rule: nlog2.induct)
  case (1 n)
  show ?case
  proof (cases "n < 2")
    case True
    with "1.prems" have "n = 1" by simp
    then show ?thesis by (simp add: nlog2.simps [of 1] p2_def)
  next
    case False
    then have n: "nlog2 n = nlog2 (n div 2) + 1" by (simp add: nlog2.simps [of n])
    have "2 ^ nat (nlog2 (n div 2)) \<le> n div 2" "n div 2 < 2 ^ nat (nlog2 (n div 2) + 1)"
      using "1.IH" False nlog2_nonneg [of "n div 2"] by (simp_all add: p2_ge_of_int p2_le_of_int)
    then have "2 ^ nat (nlog2 n) \<le> n" "n < 2 ^ nat (nlog2 n + 1)"
      using nlog2_nonneg [of "n div 2"] by (simp_all add: n nat_add_distrib)
    then show ?thesis using nlog2_nonneg [of n] by (simp add: p2_ge_of_int p2_le_of_int)
  qed
qed

lemma ilog2_bounds:
  assumes "0 < x"
  shows "p2 (ilog2 x) \<le> x \<and> x < p2 (ilog2 x + 1)"
proof -
  obtain a b where q: "quotient_of x = (a, b)" by fastforce
  let ?i = "nlog2 a" and ?j = "nlog2 b"
  have x: "x = of_int a / of_int b" and b: "0 < b"
    using quotient_of_div [OF q] quotient_of_denom_pos [OF q] by auto
  with assms have a: "0 < a" by (simp add: zero_less_divide_iff)
  have A: "p2 ?i \<le> of_int a" "of_int a < p2 (?i + 1)" and B: "p2 ?j \<le> of_int b" "of_int b < p2 (?j + 1)"
    using nlog2_p2 a b by blast+
  have up: "x < p2 (?i - ?j + 1)"
  proof -
    have "x \<le> of_int a / p2 ?j"
      unfolding x using a b B(1) by (intro divide_left_mono) auto
    also have "\<dots> < p2 (?i + 1) / p2 ?j" using A(2) by (simp add: divide_strict_right_mono)
    finally show ?thesis by (simp add: p2_diff [symmetric] algebra_simps)
  qed
  have lo: "p2 (?i - ?j - 1) \<le> x"
  proof -
    have "p2 ?i / p2 (?j + 1) \<le> p2 ?i / of_int b"
      using b B(2) by (intro divide_left_mono) auto
    also have "\<dots> \<le> x" unfolding x using A(1) b by (simp add: divide_right_mono)
    finally show ?thesis by (simp add: p2_diff [symmetric] algebra_simps)
  qed
  show ?thesis using up lo by (auto simp: ilog2_def q Let_def)
qed

lemma ilog2_mono: "0 < x \<Longrightarrow> x \<le> y \<Longrightarrow> ilog2 x \<le> ilog2 y"
proof -
  assume "0 < x" "x \<le> y"
  with ilog2_bounds [of x] ilog2_bounds [of y] have "p2 (ilog2 x) < p2 (ilog2 y + 1)" by linarith
  then show ?thesis by simp
qed

lemma ilog2_less: "0 < x \<Longrightarrow> x < p2 k \<Longrightarrow> ilog2 x < k"
proof -
  assume "0 < x" "x < p2 k"
  with ilog2_bounds [of x] have "p2 (ilog2 x) < p2 k" by linarith
  then show ?thesis by simp
qed

text \<open>\<open>rne\<close> rounds to the nearest integer, ties to the even one.\<close>

definition rne :: "rat \<Rightarrow> int" where
  "rne x = (let f = \<lfloor>x\<rfloor>; d = x - of_int f
     in if d < 1 / 2 then f else if 1 / 2 < d then f + 1 else if even f then f else f + 1)"

lemma rne_of_int [simp]: "rne (of_int n) = n"
  by (simp add: rne_def)

lemma rne_zero [simp]: "rne 0 = 0"
  using rne_of_int [of 0] by simp

lemma rne_floor: "\<lfloor>x\<rfloor> \<le> rne x \<and> rne x \<le> \<lfloor>x\<rfloor> + 1"
  by (simp add: rne_def Let_def)

lemma rne_mono: "x \<le> y \<Longrightarrow> rne x \<le> rne y"
proof (cases "\<lfloor>x\<rfloor> = \<lfloor>y\<rfloor>")
  case True
  moreover assume "x \<le> y"
  ultimately show ?thesis by (auto simp: rne_def Let_def)
next
  case False
  moreover assume "x \<le> y"
  ultimately have "\<lfloor>x\<rfloor> + 1 \<le> \<lfloor>y\<rfloor>" using floor_mono [of x y] by linarith
  then show ?thesis using rne_floor [of x] rne_floor [of y] by linarith
qed

lemma rne_minus: "rne (- x) = - rne x"
proof (cases "x = of_int \<lfloor>x\<rfloor>")
  case True
  then have "rne (- x) = - \<lfloor>x\<rfloor>" "rne x = \<lfloor>x\<rfloor>"
    by (metis of_int_minus rne_of_int) (metis True rne_of_int)
  then show ?thesis by simp
next
  case False
  then have "\<lfloor>- x\<rfloor> = - \<lfloor>x\<rfloor> - 1"
    by (intro floor_unique) (use of_int_floor_le [of x] floor_correct [of x] in \<open>auto simp: less_le\<close>)
  then show ?thesis by (simp add: rne_def Let_def)
qed

section \<open>Rounding to a format\<close>

text \<open>
  A format has \<open>fprec\<close> bits of precision, the exponent \<open>fmin\<close> of its smallest
  subnormal and the exponent \<open>fmax\<close> at which magnitudes overflow.
\<close>

record format =
  fprec :: nat
  fmin :: int
  fmax :: int

definition binary32 :: format where
  "binary32 = \<lparr>fprec = 24, fmin = -149, fmax = 128\<rparr>"

definition binary64 :: format where
  "binary64 = \<lparr>fprec = 53, fmin = -1074, fmax = 1024\<rparr>"

definition ulp_exp :: "format \<Rightarrow> rat \<Rightarrow> int" where
  "ulp_exp f x = max (fmin f) (ilog2 \<bar>x\<bar> - int (fprec f) + 1)"

definition rnd :: "format \<Rightarrow> rat \<Rightarrow> rat" where
  "rnd f x = (if x = 0 then 0
     else of_int (rne (x / p2 (ulp_exp f x))) * p2 (ulp_exp f x))"

text \<open>
  Evaluation works on numerator and denominator: a number that is already on the grid of its
  binade is returned as it is, any other is rounded with one integer division.
\<close>

definition ilog2_q :: "int \<Rightarrow> int \<Rightarrow> int" where
  "ilog2_q a b = (let k = nlog2 a - nlog2 b in
     if (if 0 \<le> k then pow2 k * b \<le> a else b \<le> a * pow2 (- k)) then k else k - 1)"

definition rne_q :: "int \<Rightarrow> int \<Rightarrow> int" where
  "rne_q n d = (let q = n div d; r = n mod d in
     if 2 * r < d then q else if d < 2 * r then q + 1 else if even q then q else q + 1)"

definition rnd_q :: "format \<Rightarrow> int \<Rightarrow> int \<Rightarrow> int \<times> int" where
  "rnd_q f a b = (if a = 0 then (0, 1)
     else let e = max (fmin f) (ilog2_q \<bar>a\<bar> b - int (fprec f) + 1) in
       if e < 0 then (let u = pow2 (- e); n = a * u in if n mod b = 0 then (a, b) else (rne_q n b, u))
       else (let u = pow2 e in (rne_q a (b * u) * u, 1)))"

lemma rat_le_of_int: "0 < b \<Longrightarrow> (of_int n \<le> (of_int a / of_int b :: rat)) \<longleftrightarrow> n * b \<le> a"
proof -
  assume "0 < b"
  then have "(of_int n \<le> (of_int a / of_int b :: rat)) \<longleftrightarrow> (of_int (n * b) :: rat) \<le> of_int a"
    by (simp add: pos_le_divide_eq)
  then show ?thesis by (simp only: of_int_le_iff)
qed

lemma ilog2_q:
  assumes q: "quotient_of x = (a, b)"
  shows "ilog2 x = ilog2_q a b"
proof -
  have b: "0 < b" "x = of_int a / of_int b" using q quotient_of_denom_pos quotient_of_div by blast+
  have "p2 k \<le> x \<longleftrightarrow> (if 0 \<le> k then pow2 k * b \<le> a else b \<le> a * pow2 (- k))" for k
  proof (cases "0 \<le> k")
    case True
    then show ?thesis using b rat_le_of_int [OF b(1), of "pow2 k" a] by (simp add: p2_code)
  next
    case False
    have "0 < pow2 (- k)" using False by (simp add: pow2_eq)
    then have "p2 k \<le> x \<longleftrightarrow> (1 :: rat) \<le> of_int (a * pow2 (- k)) / of_int b"
      using False b by (simp add: p2_code pos_divide_le_eq)
    also have "\<dots> \<longleftrightarrow> b \<le> a * pow2 (- k)" using rat_le_of_int [OF b(1), of 1 "a * pow2 (- k)"] by (simp only: of_int_1 mult_1)
    finally show ?thesis using False by simp
  qed
  then show ?thesis by (simp add: ilog2_def ilog2_q_def q Let_def)
qed

lemma rne_q:
  assumes "0 < d"
  shows "rne (of_int n / of_int d) = rne_q n d"
proof -
  have f: "\<lfloor>of_int n / of_int d :: rat\<rfloor> = n div d" by (rule floor_divide_of_int_eq)
  have "of_int n = (of_int d * of_int (n div d) + of_int (n mod d) :: rat)"
    by (simp only: mult_div_mod_eq flip: of_int_mult of_int_add)
  then have d: "of_int n / of_int d - of_int (n div d) = (of_int (n mod d) / of_int d :: rat)"
    using assms by (simp add: divide_simps)
  have "(of_int (n mod d) / of_int d < (1 / 2 :: rat)) \<longleftrightarrow> (of_int (2 * (n mod d)) :: rat) < of_int d"
    "((1 / 2 :: rat) < of_int (n mod d) / of_int d) \<longleftrightarrow> (of_int d :: rat) < of_int (2 * (n mod d))"
    using assms by (simp_all add: field_simps)
  then show ?thesis unfolding rne_def Let_def f d rne_q_def of_int_less_iff by (simp only:)
qed

text \<open>The unit in the last place is below one, or at least one.\<close>

lemma rnd_q_fraction:
  assumes b: "0 < b" "x = of_int a / of_int b" and "a \<noteq> 0" and e: "ulp_exp f x < 0"
  shows "rnd f x = of_int (rne_q (a * pow2 (- ulp_exp f x)) b) / of_int (pow2 (- ulp_exp f x)) \<and>
    (a * pow2 (- ulp_exp f x) mod b = 0 \<longrightarrow> rnd f x = x)"
proof -
  let ?u = "pow2 (- ulp_exp f x)"
  have u: "0 < ?u" "p2 (ulp_exp f x) = 1 / of_int ?u" using e by (simp_all add: pow2_eq p2_code)
  have "x / p2 (ulp_exp f x) = of_int (a * ?u) / of_int b" using b u by simp
  then have "rne (x / p2 (ulp_exp f x)) = rne_q (a * ?u) b" by (simp only: rne_q [OF b(1)])
  then have R: "rnd f x = of_int (rne_q (a * ?u) b) / of_int ?u" using assms u(2) by (simp add: rnd_def)
  have "rnd f x = x" if whole: "a * ?u mod b = 0"
  proof -
    obtain k where k: "a * ?u = b * k" using whole by (auto simp: mod_eq_0_iff_dvd)
    have "(of_int a / of_int b :: rat) = of_int k / of_int ?u"
      using b(1) u(1) arg_cong [OF k, of "of_int :: int \<Rightarrow> rat"] by (simp add: field_simps)
    moreover have "rne_q (a * ?u) b = k" using rne_q [OF b(1), of "b * k"] b(1) by (simp add: k)
    ultimately show ?thesis using R b(2) by simp
  qed
  then show ?thesis using R by blast
qed

lemma rnd_q_integer:
  assumes b: "0 < b" "x = of_int a / of_int b" and "a \<noteq> 0" and e: "\<not> ulp_exp f x < 0"
  shows "rnd f x = of_int (rne_q a (b * pow2 (ulp_exp f x))) * of_int (pow2 (ulp_exp f x))"
proof -
  let ?u = "pow2 (ulp_exp f x)"
  have u: "0 < ?u" "p2 (ulp_exp f x) = of_int ?u" using e by (simp_all add: pow2_eq p2_code)
  have "x / p2 (ulp_exp f x) = of_int a / of_int (b * ?u)" using b u by simp
  then have "rne (x / p2 (ulp_exp f x)) = rne_q a (b * ?u)" using b(1) u(1) by (simp only: rne_q mult_pos_pos)
  then show ?thesis using assms u(2) by (simp add: rnd_def)
qed

lemma rnd_q:
  assumes q: "quotient_of x = (a, b)" and r: "rnd_q f a b = (m, d)"
  shows "rnd f x = of_int m / of_int d"
proof -
  have b: "0 < b" "x = of_int a / of_int b" using q quotient_of_denom_pos quotient_of_div by blast+
  have "quotient_of \<bar>x\<bar> = (\<bar>a\<bar>, b)" using q by (simp add: rat_abs_code)
  then have e: "ulp_exp f x = max (fmin f) (ilog2_q \<bar>a\<bar> b - int (fprec f) + 1)"
    using ilog2_q by (simp add: ulp_exp_def)
  consider "a = 0" | "a \<noteq> 0" "ulp_exp f x < 0" | "a \<noteq> 0" "\<not> ulp_exp f x < 0" by blast
  then show ?thesis
  proof cases
    case 1
    then show ?thesis using b r by (auto simp: rnd_q_def rnd_def)
  next
    case 2
    then show ?thesis using rnd_q_fraction [OF b 2] r b(2)
      by (auto simp: rnd_q_def e [symmetric] Let_def split: if_splits)
  next
    case 3
    then show ?thesis using rnd_q_integer [OF b 3] r by (auto simp: rnd_q_def e [symmetric] Let_def)
  qed
qed

lemma rnd_zero [simp]: "rnd f 0 = 0"
  by (simp add: rnd_def)

lemma rnd_minus [simp]: "rnd f (- x) = - rnd f x"
  using rne_minus [of "x / p2 (ulp_exp f x)"] by (simp add: rnd_def ulp_exp_def)

lemma rnd_nonneg: "0 \<le> x \<Longrightarrow> 0 \<le> rnd f x"
  using rne_mono [of 0 "x / p2 (ulp_exp f x)"] by (simp add: rnd_def)

text \<open>A multiple of the unit of \<open>x\<close> above (below) \<open>x\<close> bounds its rounding.\<close>

lemma rnd_le_mult: "0 < x \<Longrightarrow> ulp_exp f x \<le> k \<Longrightarrow> x \<le> p2 k \<Longrightarrow> rnd f x \<le> p2 k"
proof -
  assume x: "0 < x" and k: "ulp_exp f x \<le> k" and le: "x \<le> p2 k"
  let ?e = "ulp_exp f x"
  have n: "p2 k = of_int (2 ^ nat (k - ?e)) * p2 ?e"
    using k p2_add [of "k - ?e" ?e] p2_nat [of "k - ?e"] by simp
  have "x / p2 ?e \<le> of_int (2 ^ nat (k - ?e))" using le n by (simp add: pos_divide_le_eq)
  then have "rne (x / p2 ?e) \<le> 2 ^ nat (k - ?e)" using rne_mono rne_of_int by metis
  then have "rat_of_int (rne (x / p2 ?e)) \<le> of_int (2 ^ nat (k - ?e))" by (simp only: of_int_le_iff)
  then show ?thesis using x n by (simp add: rnd_def mult_right_mono)
qed

lemma rnd_ge_mult: "0 < x \<Longrightarrow> ulp_exp f x \<le> k \<Longrightarrow> p2 k \<le> x \<Longrightarrow> p2 k \<le> rnd f x"
proof -
  assume x: "0 < x" and k: "ulp_exp f x \<le> k" and le: "p2 k \<le> x"
  let ?e = "ulp_exp f x"
  have n: "p2 k = of_int (2 ^ nat (k - ?e)) * p2 ?e"
    using k p2_add [of "k - ?e" ?e] p2_nat [of "k - ?e"] by simp
  have "of_int (2 ^ nat (k - ?e)) \<le> x / p2 ?e" using le n by (simp add: pos_le_divide_eq)
  then have "2 ^ nat (k - ?e) \<le> rne (x / p2 ?e)" using rne_mono rne_of_int by metis
  then have "rat_of_int (2 ^ nat (k - ?e)) \<le> of_int (rne (x / p2 ?e))" by (simp only: of_int_le_iff)
  then show ?thesis using x n by (simp add: rnd_def mult_right_mono)
qed

lemma rnd_mono_pos:
  assumes "0 < fprec f" "0 < x" "x \<le> y"
  shows "rnd f x \<le> rnd f y"
proof (cases "ulp_exp f x = ulp_exp f y")
  case True
  have "rne (x / p2 (ulp_exp f y)) \<le> rne (y / p2 (ulp_exp f y))"
    using assms by (intro rne_mono) (simp add: divide_right_mono)
  with True assms show ?thesis by (simp add: rnd_def mult_right_mono)
next
  case False
  let ?k = "ilog2 y"
  from False ilog2_mono [OF assms(2,3)] assms have e: "ulp_exp f y = ?k - int (fprec f) + 1" "ulp_exp f x < ulp_exp f y" "ilog2 x < ?k"
    by (auto simp: ulp_exp_def)
  have "x < p2 (ilog2 x + 1)" using ilog2_bounds assms(2) by blast
  also have "\<dots> \<le> p2 ?k" using e by simp
  finally have "rnd f x \<le> p2 ?k" using e assms by (intro rnd_le_mult) auto
  also have "\<dots> \<le> rnd f y" using e assms ilog2_bounds [of y] by (intro rnd_ge_mult) auto
  finally show ?thesis .
qed

lemma rnd_mono: "0 < fprec f \<Longrightarrow> x \<le> y \<Longrightarrow> rnd f x \<le> rnd f y"
proof -
  assume f: "0 < fprec f" and le: "x \<le> y"
  consider "0 < x" | "y < 0" | "x \<le> 0" "0 \<le> y" by linarith
  then show ?thesis
  proof cases
    case 1
    with f le show ?thesis by (simp add: rnd_mono_pos)
  next
    case 2
    with f le rnd_mono_pos [of f "- y" "- x"] show ?thesis by simp
  next
    case 3
    then show ?thesis using rnd_nonneg [of "- x" f] rnd_nonneg [of y f] by simp
  qed
qed

text \<open>A number with at most \<open>fprec\<close> significant bits on the grid of the format is unchanged.\<close>

definition representable :: "format \<Rightarrow> rat \<Rightarrow> bool" where
  "representable f x \<longleftrightarrow> (\<exists>m k. x = of_int m * p2 k \<and> \<bar>m\<bar> < 2 ^ fprec f \<and> fmin f \<le> k)"

lemma rnd_exact: "representable f x \<Longrightarrow> rnd f x = x"
proof -
  assume "representable f x"
  then obtain m k where x: "x = of_int m * p2 k" and m: "\<bar>m\<bar> < 2 ^ fprec f" and k: "fmin f \<le> k"
    by (auto simp: representable_def)
  show ?thesis
  proof (cases "m = 0")
    case False
    have "rat_of_int \<bar>m\<bar> < p2 (int (fprec f))" using m by (simp only: p2_of_nat of_int_less_iff)
    then have "\<bar>x\<bar> < p2 (int (fprec f) + k)" by (simp add: x p2_add abs_mult)
    then have "ilog2 \<bar>x\<bar> < int (fprec f) + k" using False by (intro ilog2_less) (simp_all add: x)
    then have e: "ulp_exp f x \<le> k" using k by (simp add: ulp_exp_def)
    then have "x / p2 (ulp_exp f x) = of_int (m * 2 ^ nat (k - ulp_exp f x))"
      using p2_nat [of "k - ulp_exp f x"] by (simp add: x p2_diff flip: times_divide_eq_right)
    then show ?thesis by (metis rne_of_int nonzero_divide_eq_eq p2_neq_0 rnd_def)
  qed (simp add: x)
qed

section \<open>Floating-point values and operations\<close>

datatype fp = Fin rat | PInf | NInf | NaN

definition fp_of :: "format \<Rightarrow> rat \<Rightarrow> fp" where
  "fp_of f x = (let y = rnd f x in
     if p2 (fmax f) \<le> y then PInf else if y \<le> - p2 (fmax f) then NInf else Fin y)"

lemma fp_of_code [code]:
  "fp_of f x = (case quotient_of x of (a, b) \<Rightarrow> case rnd_q f a b of (m, d) \<Rightarrow>
     if 64 \<le> fmax f \<and> \<bar>m\<bar> < 18446744073709551616 \<and> 0 < d then (if d = 1 then Fin (of_int m) else Fin (of_int m / of_int d))
     else let y = of_int m / of_int d; M = p2 (fmax f) in if M \<le> y then PInf else if y \<le> - M then NInf else Fin y)"
proof -
  obtain a b m d where q: "quotient_of x = (a, b)" and r: "rnd_q f a b = (m, d)" by fastforce
  have "\<bar>of_int m / of_int d\<bar> < p2 (fmax f)" if "64 \<le> fmax f" "\<bar>m\<bar> < 18446744073709551616" "0 < d"
  proof -
    have "\<bar>of_int m / of_int d :: rat\<bar> \<le> of_int \<bar>m\<bar>" using that(3) by (simp add: abs_divide divide_le_eq mult_le_cancel_left1)
    also have "\<dots> < 18446744073709551616" using that(2) by (simp flip: of_int_abs)
    also have "(18446744073709551616 :: rat) = p2 64" by (simp add: p2_def)
    also have "\<dots> \<le> p2 (fmax f)" using that by simp
    finally show ?thesis .
  qed
  then have "64 \<le> fmax f \<and> \<bar>m\<bar> < 18446744073709551616 \<and> 0 < d \<Longrightarrow>
      \<not> p2 (fmax f) \<le> of_int m / of_int d \<and> \<not> of_int m / of_int d \<le> - p2 (fmax f)"
    unfolding abs_less_iff by linarith
  then show ?thesis by (simp add: fp_of_def Let_def q r rnd_q [OF q r])
qed
fun fp_le :: "fp \<Rightarrow> fp \<Rightarrow> bool" where
  "fp_le NaN _ = False"
| "fp_le _ NaN = False"
| "fp_le NInf _ = True"
| "fp_le _ PInf = True"
| "fp_le (Fin x) (Fin y) = (x \<le> y)"
| "fp_le _ _ = False"

fun fp_lt :: "fp \<Rightarrow> fp \<Rightarrow> bool" where
  "fp_lt NaN _ = False"
| "fp_lt _ NaN = False"
| "fp_lt NInf b = (b \<noteq> NInf)"
| "fp_lt PInf _ = False"
| "fp_lt (Fin x) NInf = False"
| "fp_lt (Fin x) PInf = True"
| "fp_lt (Fin x) (Fin y) = (x < y)"

fun fp_neg :: "fp \<Rightarrow> fp" where
  "fp_neg (Fin x) = Fin (- x)"
| "fp_neg PInf = NInf"
| "fp_neg NInf = PInf"
| "fp_neg NaN = NaN"

fun fp_add :: "format \<Rightarrow> fp \<Rightarrow> fp \<Rightarrow> fp" where
  "fp_add f (Fin x) (Fin y) = fp_of f (x + y)"
| "fp_add f (Fin x) b = b"
| "fp_add f PInf b = (if b = NInf \<or> b = NaN then NaN else PInf)"
| "fp_add f NInf b = (if b = PInf \<or> b = NaN then NaN else NInf)"
| "fp_add f NaN b = NaN"

definition fp_sub :: "format \<Rightarrow> fp \<Rightarrow> fp \<Rightarrow> fp" where
  "fp_sub f a b = fp_add f a (fp_neg b)"

definition fp_inf :: "bool \<Rightarrow> fp" where
  "fp_inf pos = (if pos then PInf else NInf)"

fun fp_mul :: "format \<Rightarrow> fp \<Rightarrow> fp \<Rightarrow> fp" where
  "fp_mul f (Fin x) (Fin y) = fp_of f (x * y)"
| "fp_mul f NaN _ = NaN"
| "fp_mul f _ NaN = NaN"
| "fp_mul f (Fin x) b = (if x = 0 then NaN else fp_inf ((0 < x) = (b = PInf)))"
| "fp_mul f a (Fin y) = (if y = 0 then NaN else fp_inf ((0 < y) = (a = PInf)))"
| "fp_mul f a b = fp_inf (a = b)"

text \<open>Division: the sources divide by a length that was just compared with \<open>0.0f\<close>.\<close>

fun fp_div :: "format \<Rightarrow> fp \<Rightarrow> fp \<Rightarrow> fp" where
  "fp_div f (Fin x) (Fin y) = (if y = 0 then (if x = 0 then NaN else fp_inf (0 < x)) else fp_of f (x / y))"
| "fp_div f NaN _ = NaN"
| "fp_div f _ NaN = NaN"
| "fp_div f (Fin x) b = Fin 0"
| "fp_div f a (Fin y) = fp_inf ((0 \<le> y) = (a = PInf))"
| "fp_div f a b = NaN"

text \<open>Integer square root, by two bits of the argument per step.\<close>

function isqrt :: "int \<Rightarrow> int" where
  "isqrt n = (if n \<le> 0 then 0
     else let r = 2 * isqrt (n div 4) in if (r + 1) * (r + 1) \<le> n then r + 1 else r)"
  by pat_completeness auto
termination
  by (relation "measure nat") auto

declare isqrt.simps [simp del]

lemma isqrt_bounds: "0 \<le> n \<Longrightarrow> 0 \<le> isqrt n \<and> isqrt n * isqrt n \<le> n \<and> n < (isqrt n + 1) * (isqrt n + 1)"
proof (induction n rule: isqrt.induct)
  case (1 n)
  show ?case
  proof (cases "n \<le> 0")
    case False
    let ?s = "isqrt (n div 4)"
    have IH: "0 \<le> ?s" "?s * ?s \<le> n div 4" "n div 4 < (?s + 1) * (?s + 1)" using "1.IH" False by auto
    then have lo: "(2 * ?s) * (2 * ?s) \<le> n" by (simp add: algebra_simps)
    have "n div 4 + 1 \<le> (?s + 1) * (?s + 1)" using IH(3) by linarith
    then have "n < 4 * ((?s + 1) * (?s + 1))" by linarith
    then have hi: "n < (2 + 2 * ?s) * (2 + 2 * ?s)" by (simp add: algebra_simps)
    from False IH(1) lo hi show ?thesis by (simp add: isqrt.simps [of n] Let_def)
  qed (use "1.prems" in \<open>simp add: isqrt.simps\<close>)
qed

text \<open>
  Correctly rounded square root of a positive rational: the exponent of the result's unit is
  known from \<open>ilog2\<close>, and the candidate is compared with the halfway point by squares.
\<close>

definition sqrt_rnd :: "format \<Rightarrow> rat \<Rightarrow> rat" where
  "sqrt_rnd f x = (let e = max (fmin f) (ilog2 x div 2 - int (fprec f) + 1);
     m2 = x / p2 (2 * e); s = isqrt \<lfloor>m2\<rfloor>; h = (of_int s + 1 / 2) * (of_int s + 1 / 2);
     r = (if m2 < h then s else if h < m2 then s + 1 else if even s then s else s + 1)
     in of_int r * p2 e)"

fun fp_sqrt :: "format \<Rightarrow> fp \<Rightarrow> fp" where
  "fp_sqrt f (Fin x) = (if x < 0 then NaN else if x = 0 then Fin 0 else Fin (sqrt_rnd f x))"
| "fp_sqrt f PInf = PInf"
| "fp_sqrt f _ = NaN"

text \<open>Conversion between formats, \<open>std::min\<close>, \<open>std::max\<close>.\<close>

fun fp_conv :: "format \<Rightarrow> fp \<Rightarrow> fp" where
  "fp_conv f (Fin x) = fp_of f x"
| "fp_conv f a = a"

definition std_min :: "fp \<Rightarrow> fp \<Rightarrow> fp" where
  "std_min a b = (if fp_lt b a then b else a)"

definition std_max :: "fp \<Rightarrow> fp \<Rightarrow> fp" where
  "std_max a b = (if fp_lt a b then b else a)"

fun is_fin :: "fp \<Rightarrow> bool" where
  "is_fin (Fin _) = True"
| "is_fin _ = False"

fun fp_abs :: "fp \<Rightarrow> fp" where
  "fp_abs (Fin x) = Fin \<bar>x\<bar>"
| "fp_abs NInf = PInf"
| "fp_abs a = a"

subsection \<open>Order and monotonicity\<close>

lemma fp_le_trans: "fp_le a b \<Longrightarrow> fp_le b c \<Longrightarrow> fp_le a c"
  by (cases a; cases b; cases c) auto

lemma fp_not_le_lt: "a \<noteq> NaN \<Longrightarrow> b \<noteq> NaN \<Longrightarrow> \<not> fp_le a b \<longleftrightarrow> fp_lt b a"
  by (cases a; cases b) auto

lemma fp_le_PInf [simp]: "fp_le a PInf \<longleftrightarrow> a \<noteq> NaN" and fp_NInf_le [simp]: "fp_le NInf a \<longleftrightarrow> a \<noteq> NaN"
  by (cases a; simp)+

lemma not_fp_lt_PInf [simp]: "\<not> fp_lt PInf a"
  by (cases a) auto

lemma is_fin_iff: "is_fin a \<longleftrightarrow> (\<exists>x. a = Fin x)"
  by (cases a) auto

lemma fp_of_not_NaN [simp]: "fp_of f x \<noteq> NaN" "NaN \<noteq> fp_of f x"
  by (simp_all add: fp_of_def Let_def)

lemma fp_of_mono: "0 < fprec f \<Longrightarrow> x \<le> y \<Longrightarrow> fp_le (fp_of f x) (fp_of f y)"
  using rnd_mono [of f x y] p2_pos [of "fmax f"] by (auto simp: fp_of_def Let_def)

lemma fp_abs_fp_of: "fp_abs (fp_of f x) = fp_of f \<bar>x\<bar>"
  using rnd_nonneg [of x f] rnd_nonneg [of "- x" f] p2_pos [of "fmax f"]
  by (cases "0 \<le> x") (auto simp: fp_of_def Let_def)

lemma fp_of_nonneg: "0 \<le> x \<Longrightarrow> fp_le (Fin 0) (fp_of f x)"
  using rnd_nonneg [of x f] p2_pos [of "fmax f"] by (auto simp: fp_of_def Let_def)

lemma fp_of_exact: "representable f x \<Longrightarrow> \<bar>x\<bar> < p2 (fmax f) \<Longrightarrow> fp_of f x = Fin x"
  by (auto simp: fp_of_def rnd_exact)

lemma fp_sq_mono:
  "0 < fprec f \<Longrightarrow> fp_le (fp_abs a) (fp_abs b) \<Longrightarrow> fp_le (fp_mul f a a) (fp_mul f b b)"
proof (cases a; cases b)
  fix x y
  assume *: "0 < fprec f" "fp_le (fp_abs a) (fp_abs b)" "a = Fin x" "b = Fin y"
  then have "\<bar>x\<bar> * \<bar>x\<bar> \<le> \<bar>y\<bar> * \<bar>y\<bar>" by (intro mult_mono) auto
  with * show ?thesis by (auto intro: fp_of_mono)
qed (auto simp: fp_inf_def)

lemma fp_sq_nonneg: "a \<noteq> NaN \<Longrightarrow> fp_le (Fin 0) (fp_mul f a a)"
  by (cases a) (auto simp: fp_inf_def intro: fp_of_nonneg)

lemma fp_add_mono_nonneg:
  assumes "0 < fprec f" "fp_le a a'" "fp_le b b'" "fp_le (Fin 0) a" "fp_le (Fin 0) b"
  shows "fp_le (fp_add f a b) (fp_add f a' b')"
  using assms by (cases a; cases a'; cases b; cases b')
    (auto intro: fp_of_mono simp: add_mono)

lemma fp_conv_mono: "0 < fprec f \<Longrightarrow> fp_le a b \<Longrightarrow> fp_le (fp_conv f a) (fp_conv f b)"
  by (cases a; cases b) (auto intro: fp_of_mono)

lemma fp_sub_Fin [simp]: "fp_sub f (Fin x) (Fin y) = fp_of f (x - y)"
  by (simp add: fp_sub_def)

lemma fprec_formats [simp]: "0 < fprec binary32" "0 < fprec binary64"
  by (simp_all add: binary32_def binary64_def)

end
