(* ===== verification/Prelude.thy ===== *)
theory Prelude
  imports Float32 "HOL-Library.Word" "HOL-Library.AList" "HOL-Library.Multiset"
begin

text \<open>
  What every component shares: the machine types of the sources, the model of
  \<open>std::unordered_map\<close> with its interface as a locale, the clock, and the generic lemmas
  on lists and folds.
\<close>

unbundle bit_operations_syntax

named_theorems handler_defs \<open>the definitions a handler of the game manager unfolds to\<close>

section \<open>Machine types and the clock\<close>

type_synonym uint8 = "8 word"
type_synonym uint32 = "32 word"
type_synonym uint64 = "64 word"
type_synonym int64 = "64 word" \<comment> \<open>read with \<open>sint\<close>\<close>
type_synonym byte = "8 word"

text \<open>A \<open>steady_clock\<close> time point counts nanoseconds; \<open>duration_cast\<close> truncates towards zero.\<close>

type_synonym time_point = int

definition duration_cast :: "int \<Rightarrow> int \<Rightarrow> int" where
  "duration_cast unit d = (if 0 \<le> d then d div unit else - ((- d) div unit))"

definition ns_per_ms :: int where "ns_per_ms = 1000000"
definition ns_per_us :: int where "ns_per_us = 1000"
definition ns_per_min :: int where "ns_per_min = 60000000000"

lemma le_int_div_iff: "0 < u \<Longrightarrow> n \<le> d div u \<longleftrightarrow> n * u \<le> d" for n d u :: int
proof
  assume u: "0 < u" and "n \<le> d div u"
  then have "n * u \<le> d div u * u" by (intro mult_right_mono) simp_all
  also have "\<dots> = d - d mod u" by (simp add: minus_mod_eq_div_mult)
  also have "\<dots> \<le> d" using u by simp
  finally show "n * u \<le> d" .
next
  assume u: "0 < u" and "n * u \<le> d"
  then have "n * u div u \<le> d div u" by (intro zdiv_mono1)
  moreover have "n * u div u = n" using u by simp
  ultimately show "n \<le> d div u" by (simp only:)
qed

lemma duration_cast_ge: "0 < u \<Longrightarrow> 0 < n \<Longrightarrow> n \<le> duration_cast u d \<longleftrightarrow> n * u \<le> d"
proof -
  assume u: "0 < u" and n: "0 < n"
  show ?thesis
  proof (cases "0 \<le> d")
    case True
    with u show ?thesis by (simp add: duration_cast_def le_int_div_iff)
  next
    case False
    with u have "0 \<le> (- d) div u" by (simp add: pos_imp_zdiv_nonneg_iff)
    moreover have "0 < n * u" using u n by simp
    ultimately show ?thesis using False n by (simp add: duration_cast_def)
  qed
qed

section \<open>Unordered maps\<close>

text \<open>
  A \<open>std::unordered_map\<close> is an association list without duplicate keys; the list is the
  iteration order of the range-\<open>for\<close> loops.  The standard leaves that order open, so no
  property of the development depends on it: properties speak about lookups, sets and
  multisets.
\<close>

type_synonym ('k, 'v) umap = "('k \<times> 'v) list"

definition um_find :: "('k, 'v) umap \<Rightarrow> 'k \<Rightarrow> 'v option" where
  "um_find m k = map_of m k"

definition um_set :: "('k, 'v) umap \<Rightarrow> 'k \<Rightarrow> 'v \<Rightarrow> ('k, 'v) umap" where
  "um_set m k v = AList.update k v m"

definition um_erase :: "('k, 'v) umap \<Rightarrow> 'k \<Rightarrow> ('k, 'v) umap" where
  "um_erase m k = AList.delete k m"

text \<open>\<open>emplace\<close> leaves an existing entry alone.\<close>

definition um_emplace :: "('k, 'v) umap \<Rightarrow> 'k \<Rightarrow> 'v \<Rightarrow> ('k, 'v) umap" where
  "um_emplace m k v = (if um_find m k = None then um_set m k v else m)"

text \<open>\<open>operator[]\<close> on a missing key inserts the default value.\<close>

definition um_index :: "'v \<Rightarrow> ('k, 'v) umap \<Rightarrow> 'k \<Rightarrow> ('k, 'v) umap \<times> 'v" where
  "um_index d m k = (case um_find m k of Some v \<Rightarrow> (m, v) | None \<Rightarrow> (um_set m k d, d))"

definition um_ok :: "('k, 'v) umap \<Rightarrow> bool" where
  "um_ok m \<longleftrightarrow> distinct (map fst m)"

text \<open>The interface its clients rely on.\<close>

locale unordered_map =
  fixes find :: "'m \<Rightarrow> 'k \<Rightarrow> 'v option"
    and insert :: "'m \<Rightarrow> 'k \<Rightarrow> 'v \<Rightarrow> 'm"
    and erase :: "'m \<Rightarrow> 'k \<Rightarrow> 'm"
    and entries :: "'m \<Rightarrow> ('k \<times> 'v) list"
    and ok :: "'m \<Rightarrow> bool"
  assumes find_insert: "find (insert m k v) k' = (if k' = k then Some v else find m k')"
    and find_erase: "find (erase m k) k' = (if k' = k then None else find m k')"
    and ok_insert: "ok m \<Longrightarrow> ok (insert m k v)"
    and ok_erase: "ok m \<Longrightarrow> ok (erase m k)"
    and ok_entries: "ok m \<Longrightarrow> distinct (map fst (entries m))"
    and find_entries: "find m k = map_of (entries m) k"
begin

lemma in_entries_iff: "ok m \<Longrightarrow> (k, v) \<in> set (entries m) \<longleftrightarrow> find m k = Some v"
  by (simp add: find_entries ok_entries)

lemma size_eq_card: "ok m \<Longrightarrow> length (entries m) = card {k. find m k \<noteq> None}"
proof -
  assume "ok m"
  then have "length (entries m) = card (fst ` set (entries m))"
    using distinct_card [of "map fst (entries m)"] ok_entries by simp
  also have "fst ` set (entries m) = {k. find m k \<noteq> None}"
    by (simp add: find_entries dom_map_of_conv_image_fst [symmetric] dom_def)
  finally show ?thesis .
qed

lemma finite_keys: "finite {k. find m k \<noteq> None}"
  using finite_dom_map_of [of "entries m"] by (simp add: find_entries dom_def)

lemma size_insert:
  assumes "ok m"
  shows "length (entries (insert m k v)) = length (entries m) + (if find m k = None then 1 else 0)"
proof -
  have "{j. find (insert m k v) j \<noteq> None} = Set.insert k {j. find m j \<noteq> None}"
    by (auto simp: find_insert)
  then show ?thesis using assms finite_keys [of m]
    by (simp add: size_eq_card ok_insert card_insert_if)
qed

lemma size_erase:
  assumes "ok m"
  shows "length (entries (erase m k)) = length (entries m) - (if find m k = None then 0 else 1)"
proof -
  have "{j. find (erase m k) j \<noteq> None} = {j. find m j \<noteq> None} - {k}"
    by (auto simp: find_erase)
  then show ?thesis using assms finite_keys [of m]
    by (simp add: size_eq_card ok_erase card_Diff_singleton_if)
qed

end

interpretation um: unordered_map um_find um_set um_erase "\<lambda>m. m" um_ok
  by unfold_locales
    (auto simp: um_find_def um_set_def um_erase_def um_ok_def update_conv' delete_conv' distinct_update distinct_delete)

lemmas um_simps [simp] = um.find_insert um.find_erase um.ok_insert um.ok_erase

lemma um_find_Nil [simp]: "um_find [] k = None" and um_ok_Nil [simp]: "um_ok []"
  by (simp_all add: um_find_def um_ok_def)

lemma um_index_known [simp]: "um_find m k = Some v \<Longrightarrow> um_index d m k = (m, v)"
  by (simp add: um_index_def)

section \<open>Lists and folds\<close>

lemma fold_keeps: "(\<And>x s. x \<in> set xs \<Longrightarrow> P s \<Longrightarrow> P (f x s)) \<Longrightarrow> P s \<Longrightarrow> P (fold f xs s)"
  by (induction xs arbitrary: s) auto

lemma mset_remove1_member: "x \<in> set xs \<Longrightarrow> mset (remove1 x xs) + {#x#} = mset xs"
  by simp

end
