(* ===== verification/GameCommands.thy ===== *)
theory GameCommands
  imports Prelude
begin

text \<open>
  \<open>src/Game/GameCommand.h\<close>: the vector type of the simulation, the WASD input flags and
  the commands that the network side hands to the game loop.  All coordinates are binary32.
\<close>

section \<open>Vectors\<close>

abbreviation f32_add :: "fp \<Rightarrow> fp \<Rightarrow> fp" where "f32_add \<equiv> fp_add binary32"
abbreviation f32_sub :: "fp \<Rightarrow> fp \<Rightarrow> fp" where "f32_sub \<equiv> fp_sub binary32"
abbreviation f32_mul :: "fp \<Rightarrow> fp \<Rightarrow> fp" where "f32_mul \<equiv> fp_mul binary32"
abbreviation f32_div :: "fp \<Rightarrow> fp \<Rightarrow> fp" where "f32_div \<equiv> fp_div binary32"
abbreviation f32_sqrt :: "fp \<Rightarrow> fp" where "f32_sqrt \<equiv> fp_sqrt binary32"

record Vec3 =
  vx :: fp
  vy :: fp
  vz :: fp

definition vec3 :: "fp \<Rightarrow> fp \<Rightarrow> fp \<Rightarrow> Vec3" where
  "vec3 a b c = \<lparr>vx = a, vy = b, vz = c\<rparr>"

definition vec3_zero :: Vec3 where
  "vec3_zero = vec3 (Fin 0) (Fin 0) (Fin 0)"

definition From2D :: "fp \<Rightarrow> fp \<Rightarrow> Vec3" where
  "From2D a b = vec3 a b (Fin 0)"

definition Is2D :: "Vec3 \<Rightarrow> bool" where
  "Is2D v \<longleftrightarrow> vz v = Fin 0"

definition vec3_add :: "Vec3 \<Rightarrow> Vec3 \<Rightarrow> Vec3" where
  "vec3_add v w = vec3 (f32_add (vx v) (vx w)) (f32_add (vy v) (vy w)) (f32_add (vz v) (vz w))"

definition vec3_sub :: "Vec3 \<Rightarrow> Vec3 \<Rightarrow> Vec3" where
  "vec3_sub v w = vec3 (f32_sub (vx v) (vx w)) (f32_sub (vy v) (vy w)) (f32_sub (vz v) (vz w))"

definition vec3_scale :: "Vec3 \<Rightarrow> fp \<Rightarrow> Vec3" where
  "vec3_scale v s = vec3 (f32_mul (vx v) s) (f32_mul (vy v) s) (f32_mul (vz v) s)"

definition Length :: "Vec3 \<Rightarrow> fp" where
  "Length v = f32_sqrt (f32_add (f32_add (f32_mul (vx v) (vx v)) (f32_mul (vy v) (vy v))) (f32_mul (vz v) (vz v)))"

definition Normalized :: "Vec3 \<Rightarrow> Vec3" where
  "Normalized v = (let len = Length v in
     if fp_lt (Fin 0) len then vec3 (f32_div (vx v) len) (f32_div (vy v) len) (f32_div (vz v) len)
     else vec3_zero)"

section \<open>Input flags\<close>

definition flag_W :: uint8 where "flag_W = 1"
definition flag_S :: uint8 where "flag_S = 2"
definition flag_A :: uint8 where "flag_A = 4"
definition flag_D :: uint8 where "flag_D = 8"
definition flag_Shift :: uint8 where "flag_Shift = 16"
definition flag_Space :: uint8 where "flag_Space = 32"

text \<open>The free function of the header, which normalises the direction at run time.\<close>

definition InputFlagsToDirection :: "uint8 \<Rightarrow> Vec3" where
  "InputFlagsToDirection inputFlags = (
     let w = (inputFlags AND flag_W \<noteq> 0);
         s = (inputFlags AND flag_S \<noteq> 0);
         a = (inputFlags AND flag_A \<noteq> 0);
         d = (inputFlags AND flag_D \<noteq> 0);
         dy = (if w \<and> \<not> s then f32_add (Fin 0) (Fin 1)
               else if s \<and> \<not> w then f32_sub (Fin 0) (Fin 1) else Fin 0);
         dx = (if a \<and> \<not> d then f32_sub (Fin 0) (Fin 1)
               else if d \<and> \<not> a then f32_add (Fin 0) (Fin 1) else Fin 0)
     in Normalized (vec3 dx dy (Fin 0)))"

definition IsMoving :: "uint8 \<Rightarrow> bool" where
  "IsMoving inputFlags \<longleftrightarrow> inputFlags AND (flag_W OR flag_S OR flag_A OR flag_D) \<noteq> 0"

definition GetCurrentTimestamp :: "time_point \<Rightarrow> uint64" where
  "GetCurrentTimestamp now = word_of_int (duration_cast ns_per_ms now)"

section \<open>Commands\<close>

record PlayerInputCommandData =
  pi_playerId :: uint64
  pi_tickNumber :: uint64
  pi_clientTime :: uint64
  pi_inputFlags :: uint8
  pi_mousePosition :: Vec3
  pi_sequenceNumber :: uint32
  pi_sessionId :: int64

record EnterZoneCommandData =
  ez_playerId :: uint64
  ez_zoneId :: int
  ez_sessionId :: int64

record PlayerSpawnCommandData =
  ps_playerId :: uint64
  ps_playerName :: string
  ps_spawnPosition :: Vec3
  ps_hp :: int
  ps_maxHp :: int
  ps_mp :: int
  ps_maxMp :: int

record PlayerDisconnectCommandData =
  pd_playerId :: uint64

datatype GameCommandPayload =
    PlayerInputPayload PlayerInputCommandData
  | EnterZonePayload EnterZoneCommandData
  | PlayerSpawnPayload PlayerSpawnCommandData
  | PlayerDisconnectPayload PlayerDisconnectCommandData

record GameCommand =
  commandId :: int64
  payload :: GameCommandPayload
  senderSessionId :: int64
  timestamp :: uint64

text \<open>The in-class initialisers, and the value of \<open>GameCommand{}\<close>.\<close>

definition default_PlayerInput :: PlayerInputCommandData where
  "default_PlayerInput = \<lparr>pi_playerId = 0, pi_tickNumber = 0, pi_clientTime = 0, pi_inputFlags = 0,
     pi_mousePosition = vec3_zero, pi_sequenceNumber = 0, pi_sessionId = 0\<rparr>"

definition default_GameCommand :: GameCommand where
  "default_GameCommand = \<lparr>commandId = 0, payload = PlayerInputPayload default_PlayerInput,
     senderSessionId = 0, timestamp = 0\<rparr>"

section \<open>Lemmas\<close>

lemma vec3_sel [simp]: "vx (vec3 a b c) = a" "vy (vec3 a b c) = b" "vz (vec3 a b c) = c"
  by (simp_all add: vec3_def)

text \<open>Only the low four bits of the flags reach the direction.\<close>

lemma and_flag_mask: "f AND m = f AND 15 AND m" if "m = 1 \<or> m = 2 \<or> m = 4 \<or> m = 8" for f m :: uint8
  using that by (auto simp: and.assoc)

lemma low_nibble_cases: "(f :: uint8) AND 15 \<in> {0, 1, 2, 3, 4, 5, 6, 7, 8, 9, 10, 11, 12, 13, 14, 15}"
proof -
  have "f AND 15 \<le> 15" by (rule word_and_le1)
  then have "unat (f AND 15) \<le> 15" by (simp add: word_le_nat_alt)
  then have "unat (f AND 15) \<in> {0..15}" by simp
  then have "(f AND 15) \<in> of_nat ` {0..15}" by (intro image_eqI [where x = "unat (f AND 15)"]) simp_all
  then show ?thesis by (simp add: atLeastAtMostSuc_conv atLeast0AtMost atMost_Suc numeral_eq_Suc) blast
qed

end
