(* ===== verification/Quad_Tree.thy ===== *)
theory Quad_Tree
  imports GameCommands
begin

text \<open>
  \<open>src/Game/Spatial/QuadTree.h\<close> and \<open>QuadTree.cpp\<close>: the spatial index behind the area of
  interest.  The four child pointers of a node are all null or all set, so a node is a leaf or
  an inner node with four children; \<open>m_playerPositions\<close> is threaded through the insertion
  because \<open>m_playerPositions[pid]\<close> may add a default entry.

  Shown here: insertion and removal keep the index consistent with the position map as long as
  the quadrants of every node cover it (\<open>covers\<close>), which holds for the configured maps;
  a query returns exactly the players within the radius, as the source's own float formula
  decides it, so pruning by \<open>Intersects\<close> never loses a player to rounding.
\<close>

section \<open>Bounds\<close>

record Bounds =
  b_x :: fp
  b_y :: fp
  b_width :: fp
  b_height :: fp

definition mk_Bounds :: "fp \<Rightarrow> fp \<Rightarrow> fp \<Rightarrow> fp \<Rightarrow> Bounds" where
  "mk_Bounds x y width height = \<lparr>b_x = x, b_y = y, b_width = width, b_height = height\<rparr>"

definition Contains :: "Bounds \<Rightarrow> Vec3 \<Rightarrow> bool" where
  "Contains b point \<longleftrightarrow>
     fp_le (b_x b) (vx point) \<and> fp_lt (vx point) (f32_add (b_x b) (b_width b)) \<and>
     fp_le (b_y b) (vy point) \<and> fp_lt (vy point) (f32_add (b_y b) (b_height b))"

text \<open>
  \<open>float d = std::pow(a, 2) + std::pow(b, 2)\<close>: both squares and the sum are doubles, the
  result is converted to \<open>float\<close>.
\<close>

definition distanceSquared :: "fp \<Rightarrow> fp \<Rightarrow> fp" where
  "distanceSquared a b = fp_conv binary32 (fp_add binary64 (fp_mul binary64 a a) (fp_mul binary64 b b))"

definition Intersects :: "Bounds \<Rightarrow> Vec3 \<Rightarrow> fp \<Rightarrow> bool" where
  "Intersects b center radius = (
     let closestX = std_max (b_x b) (std_min (vx center) (f32_add (b_x b) (b_width b)));
         closestY = std_max (b_y b) (std_min (vy center) (f32_add (b_y b) (b_height b)))
     in fp_le (distanceSquared (f32_sub (vx center) closestX) (f32_sub (vy center) closestY))
          (f32_mul radius radius))"

section \<open>Nodes\<close>

datatype Node =
    Leaf (bounds: Bounds) (playerIds: "uint64 list")
  | Inner (bounds: Bounds) (playerIds: "uint64 list") (nw: Node) (ne: Node) (sw: Node) (se: Node)

definition MAX_PLAYERS_PER_NODE :: nat where "MAX_PLAYERS_PER_NODE = 4"
definition MAX_DEPTH :: nat where "MAX_DEPTH = 6"

definition CreateNode :: "Bounds \<Rightarrow> Node" where
  "CreateNode b = Leaf b []"

definition halfWidth :: "Bounds \<Rightarrow> fp" where
  "halfWidth b = f32_mul (b_width b) (Fin (1 / 2))"

definition halfHeight :: "Bounds \<Rightarrow> fp" where
  "halfHeight b = f32_mul (b_height b) (Fin (1 / 2))"

definition nw_bounds :: "Bounds \<Rightarrow> Bounds" where
  "nw_bounds b = mk_Bounds (b_x b) (b_y b) (halfWidth b) (halfHeight b)"

definition ne_bounds :: "Bounds \<Rightarrow> Bounds" where
  "ne_bounds b = mk_Bounds (f32_add (b_x b) (halfWidth b)) (b_y b) (halfWidth b) (halfHeight b)"

definition sw_bounds :: "Bounds \<Rightarrow> Bounds" where
  "sw_bounds b = mk_Bounds (b_x b) (f32_add (b_y b) (halfHeight b)) (halfWidth b) (halfHeight b)"

definition se_bounds :: "Bounds \<Rightarrow> Bounds" where
  "se_bounds b = mk_Bounds (f32_add (b_x b) (halfWidth b)) (f32_add (b_y b) (halfHeight b))
     (halfWidth b) (halfHeight b)"

text \<open>\<open>SubdivideNode\<close> gives a leaf four empty children; its ids stay until they are cleared.\<close>

definition SubdivideNode :: "Node \<Rightarrow> Node" where
  "SubdivideNode n = (let b = bounds n in
     Inner b (playerIds n) (CreateNode (nw_bounds b)) (CreateNode (ne_bounds b))
       (CreateNode (sw_bounds b)) (CreateNode (se_bounds b)))"

type_synonym positions = "(uint64, Vec3) umap"

text \<open>The four-way dispatch that both branches of \<open>InsertIntoNode\<close> share.\<close>

definition insert_child ::
  "(positions \<Rightarrow> Node \<Rightarrow> uint64 \<Rightarrow> Vec3 \<Rightarrow> positions \<times> Node) \<Rightarrow> uint64 \<Rightarrow> Vec3 \<Rightarrow>
   positions \<Rightarrow> Node \<Rightarrow> Node \<Rightarrow> Node \<Rightarrow> Node \<Rightarrow> positions \<times> Node \<times> Node \<times> Node \<times> Node" where
  "insert_child ins pid pos P a b c d =
     (if Contains (bounds a) pos then (case ins P a pid pos of (P', a') \<Rightarrow> (P', a', b, c, d))
      else if Contains (bounds b) pos then (case ins P b pid pos of (P', b') \<Rightarrow> (P', a, b', c, d))
      else if Contains (bounds c) pos then (case ins P c pid pos of (P', c') \<Rightarrow> (P', a, b, c', d))
      else if Contains (bounds d) pos then (case ins P d pid pos of (P', d') \<Rightarrow> (P', a, b, c, d'))
      else (P, a, b, c, d))"

lemma insert_child_cong [fundef_cong]:
  assumes "pid = pid'" "pos = pos'" "P = P'" "a = a'" "b = b'" "c = c'" "d = d'"
    and "\<And>n. n \<in> {a', b', c', d'} \<Longrightarrow> f P' n pid' pos' = g P' n pid' pos'"
  shows "insert_child f pid pos P a b c d = insert_child g pid' pos' P' a' b' c' d'"
  using assms by (simp add: insert_child_def)

function InsertIntoNode :: "positions \<Rightarrow> Node \<Rightarrow> uint64 \<Rightarrow> Vec3 \<Rightarrow> nat \<Rightarrow> positions \<times> Node" where
  "InsertIntoNode P (Leaf b ids) playerId position depth = (
     let ids' = ids @ [playerId] in
     if MAX_PLAYERS_PER_NODE < length ids' \<and> depth < MAX_DEPTH then
       (let node = SubdivideNode (Leaf b ids') in
        case fold (\<lambda>pid (P, a, b, c, d).
            case (if pid = playerId then (P, position) else um_index vec3_zero P pid) of (P, playerPos) \<Rightarrow>
            insert_child (\<lambda>P n i p. InsertIntoNode P n i p (depth + 1)) pid playerPos P a b c d)
          ids' (P, nw node, ne node, sw node, se node)
        of (P, a, b, c, d) \<Rightarrow> (P, Inner (bounds node) [] a b c d))
     else (P, Leaf b ids'))"
| "InsertIntoNode P (Inner bs ids a b c d) playerId position depth = (
     case insert_child (\<lambda>P n i p. InsertIntoNode P n i p (depth + 1)) playerId position P a b c d
     of (P, a, b, c, d) \<Rightarrow> (P, Inner bs ids a b c d))"
  by pat_completeness auto
termination
  by (relation "measures [\<lambda>(P, n, i, p, d). MAX_DEPTH - d, \<lambda>(P, n, i, p, d). size n]") auto

declare InsertIntoNode.simps [simp del]

text \<open>\<open>std::find\<close> and \<open>erase\<close> remove the first occurrence; \<open>||\<close> stops at the first success.\<close>

fun RemoveFromNode :: "Node \<Rightarrow> uint64 \<Rightarrow> Vec3 \<Rightarrow> bool \<times> Node" where
  "RemoveFromNode (Leaf b ids) playerId position =
     (if \<not> Contains b position then (False, Leaf b ids)
      else if playerId \<in> set ids then (True, Leaf b (remove1 playerId ids))
      else (False, Leaf b ids))"
| "RemoveFromNode (Inner bs ids a b c d) playerId position =
     (if \<not> Contains bs position then (False, Inner bs ids a b c d)
      else case RemoveFromNode a playerId position of (ra, a') \<Rightarrow>
        if ra then (True, Inner bs ids a' b c d)
        else case RemoveFromNode b playerId position of (rb, b') \<Rightarrow>
          if rb then (True, Inner bs ids a' b' c d)
          else case RemoveFromNode c playerId position of (rc, c') \<Rightarrow>
            if rc then (True, Inner bs ids a' b' c' d)
            else case RemoveFromNode d playerId position of (rd, d') \<Rightarrow>
              (rd, Inner bs ids a' b' c' d'))"

definition in_radius :: "Vec3 \<Rightarrow> fp \<Rightarrow> Vec3 \<Rightarrow> bool" where
  "in_radius center radius playerPos \<longleftrightarrow>
     fp_le (distanceSquared (f32_sub (vx playerPos) (vx center)) (f32_sub (vy playerPos) (vy center)))
       (f32_mul radius radius)"

fun QueryNode :: "positions \<Rightarrow> Node \<Rightarrow> Vec3 \<Rightarrow> fp \<Rightarrow> uint64 list \<Rightarrow> uint64 list" where
  "QueryNode P (Leaf b ids) center radius result =
     (if \<not> Intersects b center radius then result
      else fold (\<lambda>playerId result.
          case um_find P playerId of None \<Rightarrow> result
          | Some playerPos \<Rightarrow> if in_radius center radius playerPos then result @ [playerId] else result)
        ids result)"
| "QueryNode P (Inner bs ids a b c d) center radius result =
     (if \<not> Intersects bs center radius then result
      else QueryNode P d center radius (QueryNode P c center radius
        (QueryNode P b center radius (QueryNode P a center radius result))))"

fun CountNodes :: "Node \<Rightarrow> nat" where
  "CountNodes (Leaf b ids) = 1"
| "CountNodes (Inner bs ids a b c d) = 1 + CountNodes a + CountNodes b + CountNodes c + CountNodes d"

fun CountPlayers :: "Node \<Rightarrow> nat" where
  "CountPlayers (Leaf b ids) = length ids"
| "CountPlayers (Inner bs ids a b c d) =
     length ids + CountPlayers a + CountPlayers b + CountPlayers c + CountPlayers d"

section \<open>The tree\<close>

record QuadTree =
  m_root :: Node
  m_playerPositions :: positions

text \<open>The constructor throws \<open>std::invalid_argument\<close> (\<open>None\<close>) unless both extents are positive.\<close>

definition mk_QuadTree :: "fp \<Rightarrow> fp \<Rightarrow> fp \<Rightarrow> fp \<Rightarrow> QuadTree option" where
  "mk_QuadTree x y width height =
     (if fp_le width (Fin 0) \<or> fp_le height (Fin 0) then None
      else Some \<lparr>m_root = CreateNode (mk_Bounds x y width height), m_playerPositions = []\<rparr>)"

definition QT_Insert :: "QuadTree \<Rightarrow> uint64 \<Rightarrow> Vec3 \<Rightarrow> QuadTree" where
  "QT_Insert t playerId position =
     (case InsertIntoNode (um_set (m_playerPositions t) playerId position) (m_root t) playerId position 0
      of (P, n) \<Rightarrow> \<lparr>m_root = n, m_playerPositions = P\<rparr>)"

definition QT_Remove :: "QuadTree \<Rightarrow> uint64 \<Rightarrow> QuadTree" where
  "QT_Remove t playerId =
     (case um_find (m_playerPositions t) playerId of
        None \<Rightarrow> t
      | Some position \<Rightarrow> \<lparr>m_root = snd (RemoveFromNode (m_root t) playerId position),
          m_playerPositions = um_erase (m_playerPositions t) playerId\<rparr>)"

definition QT_Update :: "QuadTree \<Rightarrow> uint64 \<Rightarrow> Vec3 \<Rightarrow> QuadTree" where
  "QT_Update t playerId newPosition = QT_Insert (QT_Remove t playerId) playerId newPosition"

definition QT_Query :: "QuadTree \<Rightarrow> Vec3 \<Rightarrow> fp \<Rightarrow> uint64 list" where
  "QT_Query t center radius = QueryNode (m_playerPositions t) (m_root t) center radius []"

definition GetTotalNodes :: "QuadTree \<Rightarrow> nat" where
  "GetTotalNodes t = CountNodes (m_root t)"

definition GetTotalPlayers :: "QuadTree \<Rightarrow> nat" where
  "GetTotalPlayers t = length (m_playerPositions t)"

definition QT_Clear :: "QuadTree \<Rightarrow> QuadTree" where
  "QT_Clear t = \<lparr>m_root = Leaf (bounds (m_root t)) [], m_playerPositions = []\<rparr>"

section \<open>Pruning is sound in binary32\<close>

lemma Contains_fin:
  assumes "Contains b p"
  obtains x px y py where "b_x b = Fin x" "vx p = Fin px" "x \<le> px" "b_y b = Fin y" "vy p = Fin py" "y \<le> py"
    "fp_lt (Fin px) (f32_add (b_x b) (b_width b))" "fp_lt (Fin py) (f32_add (b_y b) (b_height b))"
  using assms unfolding Contains_def
  by (cases "b_x b"; cases "vx p"; cases "b_y b"; cases "vy p") (auto split: if_splits)

text \<open>The clamped coordinate is at least as close to the centre as any contained coordinate.\<close>

lemma closest_coordinate:
  assumes "x \<le> px" "fp_lt (Fin px) e"
  shows "\<exists>q. std_max (Fin x) (std_min (Fin c) e) = Fin q \<and> \<bar>c - q\<bar> \<le> \<bar>px - c\<bar>"
  using assms by (cases e) (auto simp: std_max_def std_min_def)

lemma f32_sub_abs_mono:
  "\<bar>c - q\<bar> \<le> \<bar>p - c\<bar> \<Longrightarrow> fp_le (fp_abs (f32_sub (Fin c) (Fin q))) (fp_abs (f32_sub (Fin p) (Fin c)))"
  by (simp add: fp_abs_fp_of fp_of_mono)

lemma fp_abs_le_not_NaN: "fp_le (fp_abs a) (fp_abs b) \<Longrightarrow> a \<noteq> NaN \<and> b \<noteq> NaN"
  by (cases a; cases b) auto

lemma distanceSquared_mono:
  assumes "fp_le (fp_abs a) (fp_abs a')" "fp_le (fp_abs b) (fp_abs b')"
  shows "fp_le (distanceSquared a b) (distanceSquared a' b')"
  unfolding distanceSquared_def using assms
  by (intro fp_conv_mono fp_add_mono_nonneg fp_sq_mono fp_sq_nonneg) (auto dest: fp_abs_le_not_NaN)

lemma Intersects_if_in_radius:
  assumes "Contains b p" "is_fin (vx c)" "is_fin (vy c)" "in_radius c r p"
  shows "Intersects b c r"
proof -
  obtain cx cy where c: "vx c = Fin cx" "vy c = Fin cy" using assms(2,3) by (auto simp: is_fin_iff)
  obtain x px y py where b: "b_x b = Fin x" "vx p = Fin px" "x \<le> px" "b_y b = Fin y" "vy p = Fin py" "y \<le> py"
    "fp_lt (Fin px) (f32_add (b_x b) (b_width b))" "fp_lt (Fin py) (f32_add (b_y b) (b_height b))"
    using Contains_fin [OF assms(1)] by blast
  obtain qx where qx: "std_max (Fin x) (std_min (Fin cx) (f32_add (b_x b) (b_width b))) = Fin qx"
    and dx: "\<bar>cx - qx\<bar> \<le> \<bar>px - cx\<bar>" using closest_coordinate [OF b(3,7)] by blast
  obtain qy where qy: "std_max (Fin y) (std_min (Fin cy) (f32_add (b_y b) (b_height b))) = Fin qy"
    and dy: "\<bar>cy - qy\<bar> \<le> \<bar>py - cy\<bar>" using closest_coordinate [OF b(6,8)] by blast
  have "fp_le (distanceSquared (f32_sub (Fin cx) (Fin qx)) (f32_sub (Fin cy) (Fin qy)))
      (distanceSquared (f32_sub (Fin px) (Fin cx)) (f32_sub (Fin py) (Fin cy)))"
    using dx dy by (intro distanceSquared_mono f32_sub_abs_mono)
  then show ?thesis using assms(4) qx qy unfolding Intersects_def in_radius_def Let_def c b(1,2,4,5)
    by (metis b(1,4) fp_le_trans)
qed

section \<open>The tree invariant\<close>

fun ids_of :: "Node \<Rightarrow> uint64 list" where
  "ids_of (Leaf b ids) = ids"
| "ids_of (Inner bs ids a b c d) = ids @ ids_of a @ ids_of b @ ids_of c @ ids_of d"

definition located :: "positions \<Rightarrow> Bounds \<Rightarrow> uint64 \<Rightarrow> bool" where
  "located P b i \<longleftrightarrow> (\<exists>p. um_find P i = Some p \<and> Contains b p)"

text \<open>
  Every stored id has a position inside the bounds of every node on its path, inner nodes hold
  no ids themselves and have the four quadrants as children, leaves above the depth limit hold
  at most \<open>MAX_PLAYERS_PER_NODE\<close> ids, and no node lies below the depth limit.
\<close>

fun node_ok :: "positions \<Rightarrow> nat \<Rightarrow> Node \<Rightarrow> bool" where
  "node_ok P depth (Leaf b ids) \<longleftrightarrow>
     depth \<le> MAX_DEPTH \<and> list_all (located P b) ids \<and>
     (depth < MAX_DEPTH \<longrightarrow> length ids \<le> MAX_PLAYERS_PER_NODE)"
| "node_ok P depth (Inner bs ids a b c d) \<longleftrightarrow>
     depth < MAX_DEPTH \<and> ids = [] \<and>
     list_all (located P bs) (ids_of a @ ids_of b @ ids_of c @ ids_of d) \<and>
     bounds a = nw_bounds bs \<and> bounds b = ne_bounds bs \<and> bounds c = sw_bounds bs \<and> bounds d = se_bounds bs \<and>
     node_ok P (depth + 1) a \<and> node_ok P (depth + 1) b \<and> node_ok P (depth + 1) c \<and> node_ok P (depth + 1) d"

lemma node_ok_located: "node_ok P d n \<Longrightarrow> list_all (located P (bounds n)) (ids_of n)"
  by (cases n) auto

text \<open>The quadrants of \<open>b\<close>, down \<open>k\<close> levels, leave no point of their parent out.\<close>

definition quadrants_cover :: "Bounds \<Rightarrow> bool" where
  "quadrants_cover b \<longleftrightarrow> (\<forall>p. Contains b p \<longrightarrow> Contains (nw_bounds b) p \<or> Contains (ne_bounds b) p \<or>
     Contains (sw_bounds b) p \<or> Contains (se_bounds b) p)"

fun covers :: "nat \<Rightarrow> Bounds \<Rightarrow> bool" where
  "covers 0 b \<longleftrightarrow> True"
| "covers (Suc k) b \<longleftrightarrow> quadrants_cover b \<and> covers k (nw_bounds b) \<and> covers k (ne_bounds b) \<and>
     covers k (sw_bounds b) \<and> covers k (se_bounds b)"

definition matches :: "positions \<Rightarrow> Vec3 \<Rightarrow> fp \<Rightarrow> uint64 \<Rightarrow> bool" where
  "matches P c r i \<longleftrightarrow> (case um_find P i of None \<Rightarrow> False | Some p \<Rightarrow> in_radius c r p)"

subsection \<open>Queries\<close>

lemma fold_query_filter:
  "fold (\<lambda>i res. case um_find P i of None \<Rightarrow> res
      | Some p \<Rightarrow> if in_radius c r p then res @ [i] else res) ids result
   = result @ filter (matches P c r) ids"
  by (induction ids arbitrary: result) (auto simp: matches_def split: option.splits)

lemma pruned_no_match:
  assumes "list_all (located P b) ids" "is_fin (vx c)" "is_fin (vy c)" "\<not> Intersects b c r"
  shows "filter (matches P c r) ids = []"
  using assms Intersects_if_in_radius [OF _ assms(2,3)]
  by (fastforce simp: filter_empty_conv list_all_iff located_def matches_def)

lemma QueryNode_filter:
  assumes "is_fin (vx c)" "is_fin (vy c)"
  shows "node_ok P d n \<Longrightarrow> QueryNode P n c r result = result @ filter (matches P c r) (ids_of n)"
proof (induction n arbitrary: d result)
  case (Leaf b ids)
  then show ?case using pruned_no_match [of P b ids c r] assms by (simp add: fold_query_filter)
next
  case (Inner bs ids a1 a2 a3 a4)
  then show ?case
    using pruned_no_match [of P bs "ids_of (Inner bs ids a1 a2 a3 a4)" c r] assms by auto
qed

subsection \<open>Insertion\<close>

text \<open>What an insertion into a node of the given depth has to achieve.\<close>

definition inserted :: "positions \<Rightarrow> nat \<Rightarrow> Node \<Rightarrow> uint64 \<Rightarrow> positions \<times> Node \<Rightarrow> bool" where
  "inserted P depth n i r \<longleftrightarrow> fst r = P \<and> node_ok P depth (snd r) \<and> bounds (snd r) = bounds n \<and>
     mset (ids_of (snd r)) = add_mset i (mset (ids_of n))"

definition quads_ok :: "positions \<Rightarrow> nat \<Rightarrow> Bounds \<Rightarrow> Node \<times> Node \<times> Node \<times> Node \<Rightarrow> bool" where
  "quads_ok P depth bs q \<longleftrightarrow> (case q of (a, b, c, d) \<Rightarrow>
     bounds a = nw_bounds bs \<and> bounds b = ne_bounds bs \<and> bounds c = sw_bounds bs \<and> bounds d = se_bounds bs \<and>
     node_ok P depth a \<and> node_ok P depth b \<and> node_ok P depth c \<and> node_ok P depth d)"

definition quads_ids :: "Node \<times> Node \<times> Node \<times> Node \<Rightarrow> uint64 multiset" where
  "quads_ids q = (case q of (a, b, c, d) \<Rightarrow> mset (ids_of a) + mset (ids_of b) + mset (ids_of c) + mset (ids_of d))"

definition quadrants :: "Bounds \<Rightarrow> Bounds set" where
  "quadrants bs = {nw_bounds bs, ne_bounds bs, sw_bounds bs, se_bounds bs}"

text \<open>The dispatch inserts into one quadrant, provided the recursive call is right on each.\<close>

lemma insertedE:
  assumes "inserted P depth n i r"
  obtains n' where "r = (P, n')" "node_ok P depth n'" "bounds n' = bounds n"
    "mset (ids_of n') = add_mset i (mset (ids_of n))"
  using assms by (cases r) (auto simp: inserted_def)

lemma insert_child_quads:
  assumes cover: "quadrants_cover bs" "Contains bs pos" and q: "quads_ok P depth bs (a, b, c, d)"
    and ins: "\<And>n. node_ok P depth n \<Longrightarrow> bounds n \<in> quadrants bs \<Longrightarrow> Contains (bounds n) pos \<Longrightarrow>
      inserted P depth n i (ins P n i pos)"
  shows "\<exists>q. insert_child ins i pos P a b c d = (P, q) \<and> quads_ok P depth bs q \<and>
    quads_ids q = add_mset i (quads_ids (a, b, c, d))"
proof -
  have bs: "bounds a = nw_bounds bs" "bounds b = ne_bounds bs" "bounds c = sw_bounds bs" "bounds d = se_bounds bs"
    and ok: "node_ok P depth a" "node_ok P depth b" "node_ok P depth c" "node_ok P depth d"
    using q by (simp_all add: quads_ok_def)
  consider (A) "Contains (bounds a) pos" | (B) "\<not> Contains (bounds a) pos" "Contains (bounds b) pos"
    | (C) "\<not> Contains (bounds a) pos" "\<not> Contains (bounds b) pos" "Contains (bounds c) pos"
    | (D) "\<not> Contains (bounds a) pos" "\<not> Contains (bounds b) pos" "\<not> Contains (bounds c) pos" "Contains (bounds d) pos"
    using cover by (auto simp: bs quadrants_cover_def)
  then show ?thesis
  proof cases
    case A
    then show ?thesis using ins [OF ok(1)]
      by (auto elim!: insertedE simp: insert_child_def quads_ok_def quads_ids_def quadrants_def bs ok)
  next
    case B
    then show ?thesis using ins [OF ok(2)]
      by (auto elim!: insertedE simp: insert_child_def quads_ok_def quads_ids_def quadrants_def bs ok)
  next
    case C
    then show ?thesis using ins [OF ok(3)]
      by (auto elim!: insertedE simp: insert_child_def quads_ok_def quads_ids_def quadrants_def bs ok)
  next
    case D
    then show ?thesis using ins [OF ok(4)]
      by (auto elim!: insertedE simp: insert_child_def quads_ok_def quads_ids_def quadrants_def bs ok)
  qed
qed

lemma reinsert_all_quads:
  assumes cover: "quadrants_cover bs" and j: "um_find P j = Some pj"
    and ins: "\<And>n i p. node_ok P depth n \<Longrightarrow> bounds n \<in> quadrants bs \<Longrightarrow> Contains (bounds n) p \<Longrightarrow>
      um_find P i = Some p \<Longrightarrow> inserted P depth n i (ins P n i p)"
  shows "list_all (located P bs) ids \<Longrightarrow> quads_ok P depth bs q \<Longrightarrow>
    \<exists>q'. fold (\<lambda>i (P, a, b, c, d). case (if i = j then (P, pj) else um_index vec3_zero P i) of
        (P, p) \<Rightarrow> insert_child ins i p P a b c d) ids (P, q) = (P, q') \<and>
      quads_ok P depth bs q' \<and> quads_ids q' = mset ids + quads_ids q"
proof (induction ids arbitrary: q)
  case (Cons i ids)
  obtain a b c d where q: "q = (a, b, c, d)" by (cases q) auto
  obtain p where p: "um_find P i = Some p" "Contains bs p" using Cons.prems(1) by (auto simp: located_def)
  have step: "(if i = j then (P, pj) else um_index vec3_zero P i) = (P, p)" using p(1) j by auto
  have "\<exists>q1. insert_child ins i p P a b c d = (P, q1) \<and> quads_ok P depth bs q1 \<and>
      quads_ids q1 = add_mset i (quads_ids (a, b, c, d))"
    using cover p Cons.prems(2) q by (intro insert_child_quads ins) auto
  then obtain q1 where q1: "insert_child ins i p P a b c d = (P, q1)" "quads_ok P depth bs q1"
    "quads_ids q1 = add_mset i (quads_ids q)" using q by blast
  obtain q2 where "fold (\<lambda>i (P, a, b, c, d). case (if i = j then (P, pj) else um_index vec3_zero P i) of
        (P, p) \<Rightarrow> insert_child ins i p P a b c d) ids (P, q1) = (P, q2)"
      "quads_ok P depth bs q2" "quads_ids q2 = mset ids + quads_ids q1"
    using Cons.IH [OF _ q1(2)] Cons.prems(1) by auto
  then show ?case using q1 by (simp only: fold_simps q split_conv step) simp
qed auto

text \<open>An inner node over four good quadrants is good if every id of theirs is located in it.\<close>

lemma node_ok_Inner:
  assumes "depth < MAX_DEPTH" "quads_ok P (depth + 1) bs (a, b, c, d)"
    and "quads_ids (a, b, c, d) = mset ids" "list_all (located P bs) ids"
  shows "node_ok P depth (Inner bs [] a b c d)"
proof -
  have "mset (ids_of a @ ids_of b @ ids_of c @ ids_of d) = mset ids"
    using assms(3) by (simp add: quads_ids_def ac_simps)
  then have "set (ids_of a @ ids_of b @ ids_of c @ ids_of d) = set ids" by (rule mset_eq_setD)
  then have "list_all (located P bs) (ids_of a @ ids_of b @ ids_of c @ ids_of d)"
    using assms(4) by (simp only: list_all_iff)
  then show ?thesis using assms(1,2) by (simp add: quads_ok_def)
qed

definition children_insert :: "positions \<Rightarrow> nat \<Rightarrow> Bounds \<Rightarrow> bool" where
  "children_insert P depth bs \<longleftrightarrow> (\<forall>m j p. node_ok P depth m \<longrightarrow> bounds m \<in> quadrants bs \<longrightarrow> Contains (bounds m) p \<longrightarrow>
     um_find P j = Some p \<longrightarrow> inserted P depth m j (InsertIntoNode P m j p depth))"

lemma InsertIntoNode_Inner:
  assumes n: "n = Inner bs ids a b c d" "node_ok P depth n" "Contains bs pos" "um_find P i = Some pos"
    and lt: "depth < MAX_DEPTH" "quadrants_cover bs" and ins: "children_insert P (depth + 1) bs"
  shows "inserted P depth n i (InsertIntoNode P n i pos depth)"
proof -
  let ?ins = "\<lambda>P n i p. InsertIntoNode P n i p (depth + 1)"
  have q: "quads_ok P (depth + 1) bs (a, b, c, d)" and ids: "ids = []" using n(1,2) by (auto simp: quads_ok_def)
  have "\<exists>q'. insert_child ?ins i pos P a b c d = (P, q') \<and> quads_ok P (depth + 1) bs q' \<and>
      quads_ids q' = add_mset i (quads_ids (a, b, c, d))"
    using lt(2) n(3,4) q ins by (intro insert_child_quads) (auto simp: children_insert_def)
  then obtain a1 b1 c1 d1 where q': "insert_child ?ins i pos P a b c d = (P, a1, b1, c1, d1)"
    "quads_ok P (depth + 1) bs (a1, b1, c1, d1)" "quads_ids (a1, b1, c1, d1) = add_mset i (quads_ids (a, b, c, d))"
    by auto
  then have m: "quads_ids (a1, b1, c1, d1) = mset (ids_of n @ [i])" using n(1) ids by (simp add: quads_ids_def ac_simps)
  have "list_all (located P bs) (ids_of n @ [i])"
    using node_ok_located [OF n(2)] n by (auto simp: located_def)
  then have "node_ok P depth (Inner bs [] a1 b1 c1 d1)" using node_ok_Inner [OF lt(1) q'(2) m] by simp
  with m q'(1) ids show ?thesis by (simp add: n(1) InsertIntoNode.simps inserted_def quads_ids_def ac_simps)
qed

lemma InsertIntoNode_Leaf:
  assumes n: "node_ok P depth (Leaf b ids)" "Contains b pos" "um_find P i = Some pos"
    and lt: "depth < MAX_DEPTH" "quadrants_cover b" and ins: "children_insert P (depth + 1) b"
  shows "inserted P depth (Leaf b ids) i (InsertIntoNode P (Leaf b ids) i pos depth)"
proof (cases "MAX_PLAYERS_PER_NODE < length (ids @ [i])")
  case False
  with n lt show ?thesis by (auto simp: InsertIntoNode.simps inserted_def located_def)
next
  case True
  let ?ins = "\<lambda>P n i p. InsertIntoNode P n i p (depth + 1)"
  let ?q = "(CreateNode (nw_bounds b), CreateNode (ne_bounds b), CreateNode (sw_bounds b), CreateNode (se_bounds b))"
  let ?all = "\<lambda>q. fold (\<lambda>pid (P, a, b, c, d). case (if pid = i then (P, pos) else um_index vec3_zero P pid)
      of (P, p) \<Rightarrow> insert_child ?ins pid p P a b c d) (ids @ [i]) (P, q)"
  have q: "quads_ok P (depth + 1) b ?q" "quads_ids ?q = {#}"
    using lt by (auto simp: quads_ok_def CreateNode_def quads_ids_def)
  have locs: "list_all (located P b) (ids @ [i])" using n by (auto simp: located_def)
  then have "\<exists>q'. ?all ?q = (P, q') \<and> quads_ok P (depth + 1) b q' \<and> quads_ids q' = mset (ids @ [i]) + quads_ids ?q"
    using lt(2) n(3) q(1) ins by (intro reinsert_all_quads) (auto simp: children_insert_def)
  then obtain a1 b1 c1 d1 where q': "?all ?q = (P, a1, b1, c1, d1)"
    "quads_ok P (depth + 1) b (a1, b1, c1, d1)" "quads_ids (a1, b1, c1, d1) = mset (ids @ [i])"
    using q(2) by auto
  have "node_ok P depth (Inner b [] a1 b1 c1 d1)" using node_ok_Inner [OF lt(1) q'(2,3) locs] by simp
  with q' True lt show ?thesis
    by (simp del: fold_append add: InsertIntoNode.simps SubdivideNode_def Let_def inserted_def quads_ids_def ac_simps)
qed

lemma InsertIntoNode_ok:
  assumes "node_ok P depth n" "covers (MAX_DEPTH - depth) (bounds n)" "Contains (bounds n) pos"
    and "um_find P i = Some pos"
  shows "inserted P depth n i (InsertIntoNode P n i pos depth)"
  using assms
proof (induction "MAX_DEPTH - depth" arbitrary: depth n i pos)
  case 0
  then show ?case
    by (cases n) (auto simp: InsertIntoNode.simps inserted_def located_def)
next
  case (Suc k)
  have lt: "depth < MAX_DEPTH" and k: "k = MAX_DEPTH - (depth + 1)" using Suc.hyps(2) by auto
  have "covers (Suc k) (bounds n)" using Suc.prems(2) Suc.hyps(2) by simp
  then have cov: "quadrants_cover (bounds n)" and sub: "b \<in> quadrants (bounds n) \<Longrightarrow> covers k b" for b
    by (auto simp: quadrants_def)
  have ins: "children_insert P (depth + 1) (bounds n)"
    unfolding children_insert_def using Suc.hyps(1) [OF k] sub k by simp
  show ?case
    by (cases n) (use InsertIntoNode_Inner InsertIntoNode_Leaf Suc.prems(1,3,4) lt cov ins in auto)
qed

subsection \<open>Removal\<close>

definition removed :: "positions \<Rightarrow> nat \<Rightarrow> Node \<Rightarrow> uint64 \<Rightarrow> bool \<times> Node \<Rightarrow> bool" where
  "removed P depth n i r \<longleftrightarrow> fst r = (i \<in> set (ids_of n)) \<and> node_ok P depth (snd r) \<and>
     bounds (snd r) = bounds n \<and>
     (if i \<in> set (ids_of n) then mset (ids_of n) = add_mset i (mset (ids_of (snd r))) else snd r = n)"

lemma list_all_mset_subset: "list_all Q xs \<Longrightarrow> mset ys \<subseteq># mset xs \<Longrightarrow> list_all Q ys"
  using set_mset_mono [of "mset ys" "mset xs"] by (auto simp: list_all_iff)

lemma located_Contains: "located P b i \<Longrightarrow> um_find P i = Some p \<Longrightarrow> Contains b p"
  by (auto simp: located_def)

lemma RemoveFromNode_ok:
  assumes "um_find P i = Some pos"
  shows "node_ok P depth n \<Longrightarrow> removed P depth n i (RemoveFromNode n i pos)"
proof (induction n arbitrary: depth)
  case (Leaf b ids)
  have "i \<in> set ids \<Longrightarrow> Contains b pos" using Leaf assms located_Contains by (auto simp: list_all_iff)
  moreover have "list_all (located P b) (remove1 i ids)"
    using Leaf by (auto simp: list_all_iff dest: notin_set_remove1)
  ultimately show ?case using Leaf by (auto simp: removed_def length_remove1)
next
  case (Inner bs ids a b c d)
  let ?all = "ids_of a @ ids_of b @ ids_of c @ ids_of d"
  have ids: "ids = []" and locs: "list_all (located P bs) ?all"
    and ok: "node_ok P (depth + 1) a" "node_ok P (depth + 1) b" "node_ok P (depth + 1) c" "node_ok P (depth + 1) d"
    using Inner.prems by auto
  have inb: "i \<in> set ?all \<Longrightarrow> Contains bs pos"
    using locs assms located_Contains by (metis list_all_iff)
  have rest: "list_all (located P bs) xs" if "mset ?all = add_mset i (mset xs)" for xs
    using locs that by (intro list_all_mset_subset [of _ ?all xs]) simp_all
  note IH = Inner.IH(1) [OF ok(1)] Inner.IH(2) [OF ok(2)] Inner.IH(3) [OF ok(3)] Inner.IH(4) [OF ok(4)]
  obtain ra a' rb b' rc c' rd d' where r: "RemoveFromNode a i pos = (ra, a')" "RemoveFromNode b i pos = (rb, b')"
    "RemoveFromNode c i pos = (rc, c')" "RemoveFromNode d i pos = (rd, d')"
    by (metis prod.exhaust)
  show ?case
  proof (cases "Contains bs pos")
    case False
    then have "i \<notin> set ?all" using inb by blast
    then show ?thesis using Inner.prems ids False by (simp add: removed_def)
  next
    case True
    consider "i \<in> set (ids_of a)" | "i \<notin> set (ids_of a)" "i \<in> set (ids_of b)"
      | "i \<notin> set (ids_of a)" "i \<notin> set (ids_of b)" "i \<in> set (ids_of c)"
      | "i \<notin> set (ids_of a)" "i \<notin> set (ids_of b)" "i \<notin> set (ids_of c)" by blast
    then show ?thesis
      using True Inner.prems IH ids rest [of "ids_of a' @ ids_of b @ ids_of c @ ids_of d"] rest [of "ids_of a @ ids_of b' @ ids_of c @ ids_of d"]
        rest [of "ids_of a @ ids_of b @ ids_of c' @ ids_of d"] rest [of "ids_of a @ ids_of b @ ids_of c @ ids_of d'"]
      by cases (auto simp: removed_def r)
  qed
qed

lemma node_ok_frame:
  "(\<And>j. j \<in> set (ids_of n) \<Longrightarrow> um_find P' j = um_find P j) \<Longrightarrow> node_ok P depth n \<Longrightarrow> node_ok P' depth n"
  by (induction n arbitrary: depth) (auto simp: list_all_iff located_def)

section \<open>The index as a map from ids to positions\<close>

definition qt_ok :: "QuadTree \<Rightarrow> bool" where
  "qt_ok t \<longleftrightarrow> um_ok (m_playerPositions t) \<and> node_ok (m_playerPositions t) 0 (m_root t) \<and>
     distinct (ids_of (m_root t)) \<and>
     set (ids_of (m_root t)) = {i. um_find (m_playerPositions t) i \<noteq> None} \<and>
     covers MAX_DEPTH (bounds (m_root t))"

lemma distinct_if_mset: "mset xs = mset ys \<Longrightarrow> distinct ys \<Longrightarrow> distinct xs"
  by (metis mset_eq_imp_distinct_iff)

lemma QT_Insert_ok:
  assumes "qt_ok t" "um_find (m_playerPositions t) i = None" "Contains (bounds (m_root t)) p"
  shows "qt_ok (QT_Insert t i p)" "m_playerPositions (QT_Insert t i p) = um_set (m_playerPositions t) i p"
    "bounds (m_root (QT_Insert t i p)) = bounds (m_root t)"
proof -
  let ?P = "um_set (m_playerPositions t) i p"
  have fresh: "i \<notin> set (ids_of (m_root t))" using assms(1,2) by (auto simp: qt_ok_def)
  have "node_ok ?P 0 (m_root t)"
    by (rule node_ok_frame [of _ _ "m_playerPositions t"]) (use assms(1) fresh in \<open>auto simp: qt_ok_def\<close>)
  then have "inserted ?P 0 (m_root t) i (InsertIntoNode ?P (m_root t) i p 0)"
    using assms by (intro InsertIntoNode_ok) (auto simp: qt_ok_def)
  then obtain n where n: "InsertIntoNode ?P (m_root t) i p 0 = (?P, n)" "node_ok ?P 0 n"
    "bounds n = bounds (m_root t)" "mset (ids_of n) = mset (i # ids_of (m_root t))"
    by (auto elim: insertedE)
  have "distinct (ids_of n)" "set (ids_of n) = insert i (set (ids_of (m_root t)))"
    using distinct_if_mset [OF n(4)] mset_eq_setD [OF n(4)] fresh assms(1) by (auto simp: qt_ok_def)
  then show "qt_ok (QT_Insert t i p)" "m_playerPositions (QT_Insert t i p) = ?P"
    "bounds (m_root (QT_Insert t i p)) = bounds (m_root t)"
    using n assms(1) by (auto simp: QT_Insert_def qt_ok_def)
qed

lemma QT_Remove_ok:
  assumes "qt_ok t"
  shows "qt_ok (QT_Remove t i)" "m_playerPositions (QT_Remove t i) = um_erase (m_playerPositions t) i
      \<or> m_playerPositions (QT_Remove t i) = m_playerPositions t \<and> um_find (m_playerPositions t) i = None"
    "bounds (m_root (QT_Remove t i)) = bounds (m_root t)"
proof -
  let ?P = "m_playerPositions t"
  have "qt_ok (QT_Remove t i) \<and> (m_playerPositions (QT_Remove t i) = um_erase ?P i
      \<or> m_playerPositions (QT_Remove t i) = ?P \<and> um_find ?P i = None) \<and> bounds (m_root (QT_Remove t i)) = bounds (m_root t)"
  proof (cases "um_find ?P i")
    case None
    then show ?thesis using assms by (simp add: QT_Remove_def)
  next
    case (Some p)
    obtain r n where r: "RemoveFromNode (m_root t) i p = (r, n)" by fastforce
    have mem: "i \<in> set (ids_of (m_root t))" using Some assms by (auto simp: qt_ok_def)
    then have n: "node_ok ?P 0 n" "bounds n = bounds (m_root t)" "mset (ids_of n) = mset (remove1 i (ids_of (m_root t)))"
      using RemoveFromNode_ok [OF Some, of 0 "m_root t"] assms r by (auto simp: qt_ok_def removed_def)
    then have d: "distinct (ids_of n)" "set (ids_of n) = set (ids_of (m_root t)) - {i}"
      using distinct_if_mset [OF n(3)] mset_eq_setD [OF n(3)] assms by (auto simp: qt_ok_def)
    have "node_ok (um_erase ?P i) 0 n"
      by (rule node_ok_frame [of _ _ ?P]) (use n d in auto)
    with n d assms Some show ?thesis by (auto simp: QT_Remove_def qt_ok_def r)
  qed
  then show "qt_ok (QT_Remove t i)" "m_playerPositions (QT_Remove t i) = um_erase ?P i
      \<or> m_playerPositions (QT_Remove t i) = ?P \<and> um_find ?P i = None"
    "bounds (m_root (QT_Remove t i)) = bounds (m_root t)" by auto
qed

lemma QT_Query_ok:
  assumes "qt_ok t" "is_fin (vx c)" "is_fin (vy c)"
  shows "distinct (QT_Query t c r)"
    and "i \<in> set (QT_Query t c r) \<longleftrightarrow> (\<exists>p. um_find (m_playerPositions t) i = Some p \<and> in_radius c r p)"
proof -
  have q: "QT_Query t c r = filter (matches (m_playerPositions t) c r) (ids_of (m_root t))"
    using QueryNode_filter [OF assms(2,3), of "m_playerPositions t" 0] assms(1) by (simp add: QT_Query_def qt_ok_def)
  show "distinct (QT_Query t c r)"
    "i \<in> set (QT_Query t c r) \<longleftrightarrow> (\<exists>p. um_find (m_playerPositions t) i = Some p \<and> in_radius c r p)"
    using assms(1) by (auto simp: q qt_ok_def matches_def split: option.splits)
qed

text \<open>
  The contract the game manager relies on.  \<open>posn\<close> is the abstract index: which position an id
  has; \<open>valid\<close> the positions the index accepts; \<open>near\<close> the query's own distance test.
\<close>

locale spatial_index =
  fixes ok :: "'t \<Rightarrow> bool"
    and posn :: "'t \<Rightarrow> 'k \<Rightarrow> 'p option"
    and valid :: "'t \<Rightarrow> 'p \<Rightarrow> bool"
    and add :: "'t \<Rightarrow> 'k \<Rightarrow> 'p \<Rightarrow> 't"
    and del :: "'t \<Rightarrow> 'k \<Rightarrow> 't"
    and move :: "'t \<Rightarrow> 'k \<Rightarrow> 'p \<Rightarrow> 't"
  assumes add: "ok t \<Longrightarrow> posn t k = None \<Longrightarrow> valid t p \<Longrightarrow> ok (add t k p) \<and> posn (add t k p) = (posn t)(k \<mapsto> p)"
    and del: "ok t \<Longrightarrow> ok (del t k) \<and> posn (del t k) = (posn t)(k := None)"
    and move_def: "move t k p = add (del t k) k p"
    and valid_add: "ok t \<Longrightarrow> posn t k = None \<Longrightarrow> valid t p \<Longrightarrow> valid (add t k p) = valid t"
    and valid_del: "ok t \<Longrightarrow> valid (del t k) = valid t"
begin

lemma move: "ok t \<Longrightarrow> valid t p \<Longrightarrow>
  ok (move t k p) \<and> posn (move t k p) = (posn t)(k \<mapsto> p) \<and> valid (move t k p) = valid t"
  using del [of t k] add [of "del t k" k p] valid_del [of t k] valid_add [of "del t k" k p]
  by (simp add: move_def)

text \<open>Moving a list of entries, later entries winning: the loop of a world update.\<close>

lemma move_all:
  "ok t \<Longrightarrow> \<forall>(k, p) \<in> set kps. valid t p \<Longrightarrow>
   ok (fold (\<lambda>(k, p) t. move t k p) kps t) \<and>
   posn (fold (\<lambda>(k, p) t. move t k p) kps t) = posn t ++ map_of (rev kps) \<and>
   valid (fold (\<lambda>(k, p) t. move t k p) kps t) = valid t"
proof (induction kps arbitrary: t)
  case (Cons kp kps)
  obtain k p where kp: "kp = (k, p)" by fastforce
  have *: "ok (move t k p)" "posn (move t k p) = (posn t)(k \<mapsto> p)" "valid (move t k p) = valid t"
    using move [of t p k] Cons.prems by (auto simp: kp)
  have "posn t ++ map_of (rev ((k, p) # kps)) = posn (move t k p) ++ map_of (rev kps)"
    by (simp add: *(2) map_add_def fun_eq_iff split: option.split)
  moreover have "\<forall>(j, q) \<in> set kps. valid (move t k p) q" using Cons.prems(2) *(3) by (auto simp: kp)
  ultimately show ?case using Cons.IH [OF *(1)] * Cons.prems(2) by (simp only: kp fold_simps split_conv)
qed simp

end

definition qt_at :: "QuadTree \<Rightarrow> uint64 \<Rightarrow> Vec3 option" where
  "qt_at t = um_find (m_playerPositions t)"

definition qt_valid :: "QuadTree \<Rightarrow> Vec3 \<Rightarrow> bool" where
  "qt_valid t = Contains (bounds (m_root t))"

interpretation qt: spatial_index qt_ok qt_at qt_valid QT_Insert QT_Remove QT_Update
proof unfold_locales
  fix t k p
  assume "qt_ok t" "qt_at t k = None" "qt_valid t p"
  then show "qt_ok (QT_Insert t k p) \<and> qt_at (QT_Insert t k p) = (qt_at t)(k \<mapsto> p)"
    "qt_valid (QT_Insert t k p) = qt_valid t"
    using QT_Insert_ok [of t k p] by (auto simp: qt_at_def qt_valid_def fun_eq_iff)
next
  fix t k
  assume "qt_ok t"
  then show "qt_ok (QT_Remove t k) \<and> qt_at (QT_Remove t k) = (qt_at t)(k := None)"
    "qt_valid (QT_Remove t k) = qt_valid t"
    using QT_Remove_ok [of t k] by (auto simp: qt_at_def qt_valid_def fun_eq_iff)
qed (simp add: QT_Update_def)

section \<open>Maps whose quadrants are exact\<close>

text \<open>
  Bounds on a binary grid: all four numbers are multiples of \<open>p2 e\<close>, the extents are
  divisible \<open>k\<close> times, and the far edge has at most 24 significant bits.  Halving and adding
  are then exact, so no level leaves a gap between quadrants.
\<close>

definition on_grid :: "int \<Rightarrow> nat \<Rightarrow> Bounds \<Rightarrow> bool" where
  "on_grid e k b \<longleftrightarrow> (\<exists>i j m n. 0 \<le> i \<and> 0 \<le> j \<and> 0 \<le> m \<and> 0 \<le> n \<and>
     i + m * 2 ^ k < 2 ^ 24 \<and> j + n * 2 ^ k < 2 ^ 24 \<and>
     b = mk_Bounds (Fin (of_int i * p2 e)) (Fin (of_int j * p2 e))
       (Fin (of_int (m * 2 ^ k) * p2 e)) (Fin (of_int (n * 2 ^ k) * p2 e)))"

lemma f32_grid_exact:
  assumes "\<bar>m\<bar> < 2 ^ 24" "-149 \<le> e" "e \<le> 104"
  shows "fp_of binary32 (of_int m * p2 e) = Fin (of_int m * p2 e)"
proof (rule fp_of_exact)
  show "representable binary32 (of_int m * p2 e)"
    using assms by (auto simp: representable_def binary32_def)
  have "of_int \<bar>m\<bar> < p2 24" using assms(1) by (subst p2_ge_of_int) simp_all
  then have "of_int \<bar>m\<bar> * p2 e < p2 24 * p2 e" by (simp add: mult_strict_right_mono)
  also have "\<dots> \<le> p2 128" using assms(3) by (simp flip: p2_add)
  finally show "\<bar>of_int m * p2 e\<bar> < p2 (fmax binary32)" by (simp add: abs_mult binary32_def)
qed

lemma f32_grid_add:
  "0 \<le> i \<Longrightarrow> 0 \<le> j \<Longrightarrow> i + j < 2 ^ 24 \<Longrightarrow> -149 \<le> e \<Longrightarrow> e \<le> 104 \<Longrightarrow>
   f32_add (Fin (of_int i * p2 e)) (Fin (of_int j * p2 e)) = Fin (of_int (i + j) * p2 e)"
  using f32_grid_exact [of "i + j" e] by (simp add: algebra_simps)

lemma f32_grid_half:
  "0 \<le> m \<Longrightarrow> 2 * m < 2 ^ 24 \<Longrightarrow> -149 \<le> e \<Longrightarrow> e \<le> 104 \<Longrightarrow>
   f32_mul (Fin (of_int (2 * m) * p2 e)) (Fin (1 / 2)) = Fin (of_int m * p2 e)"
  using f32_grid_exact [of m e] by simp

lemma fp_interval_split:
  "fp_le (Fin x) v \<Longrightarrow> fp_lt v (Fin z) \<Longrightarrow> fp_lt v (Fin y) \<or> fp_le (Fin y) v"
  by (cases v) auto

text \<open>If the halves add up exactly, the four quadrants tile the node.\<close>

lemma quadrants_cover_exact:
  assumes "f32_add (b_x b) (halfWidth b) = Fin x" "f32_add (b_y b) (halfHeight b) = Fin y"
    and "f32_add (Fin x) (halfWidth b) = Fin x'" "f32_add (b_x b) (b_width b) = Fin x'"
    and "f32_add (Fin y) (halfHeight b) = Fin y'" "f32_add (b_y b) (b_height b) = Fin y'"
  shows "quadrants_cover b"
  unfolding quadrants_cover_def
proof (intro allI impI)
  fix p
  assume p: "Contains b p"
  obtain x0 y0 where o: "b_x b = Fin x0" "b_y b = Fin y0" using p by (rule Contains_fin)
  have "fp_le (Fin x0) (vx p) \<and> fp_lt (vx p) (Fin x) \<or> fp_le (Fin x) (vx p) \<and> fp_lt (vx p) (Fin x')"
    "fp_le (Fin y0) (vy p) \<and> fp_lt (vy p) (Fin y) \<or> fp_le (Fin y) (vy p) \<and> fp_lt (vy p) (Fin y')"
    using p assms(4,6) o fp_interval_split [of x0 "vx p" x' x] fp_interval_split [of y0 "vy p" y' y]
    by (auto simp: Contains_def)
  then show "Contains (nw_bounds b) p \<or> Contains (ne_bounds b) p \<or> Contains (sw_bounds b) p \<or> Contains (se_bounds b) p"
    using assms o
    by (auto simp: Contains_def nw_bounds_def ne_bounds_def sw_bounds_def se_bounds_def mk_Bounds_def)
qed

lemma covers_grid:
  assumes "-149 \<le> e" "e \<le> 104"
  shows "on_grid e k b \<Longrightarrow> covers k b"
proof (induction k arbitrary: b)
  case (Suc k)
  then obtain i j m n where nn: "0 \<le> i" "0 \<le> j" "0 \<le> m" "0 \<le> n"
    and lim: "i + 2 * (m * 2 ^ k) < 2 ^ 24" "j + 2 * (n * 2 ^ k) < 2 ^ 24"
    and b: "b = mk_Bounds (Fin (of_int i * p2 e)) (Fin (of_int j * p2 e))
       (Fin (of_int (2 * (m * 2 ^ k)) * p2 e)) (Fin (of_int (2 * (n * 2 ^ k)) * p2 e))"
    by (auto simp: on_grid_def ac_simps)
  let ?w = "m * 2 ^ k" and ?h = "n * 2 ^ k"
  have pos: "0 \<le> ?w" "0 \<le> ?h" using nn by auto
  have half: "halfWidth b = Fin (of_int ?w * p2 e)" "halfHeight b = Fin (of_int ?h * p2 e)"
    using f32_grid_half [of ?w e] f32_grid_half [of ?h e] pos lim nn assms
    by (simp_all add: halfWidth_def halfHeight_def b mk_Bounds_def)
  have sel: "b_x b = Fin (of_int i * p2 e)" "b_y b = Fin (of_int j * p2 e)"
    "b_width b = Fin (of_int (2 * ?w) * p2 e)" "b_height b = Fin (of_int (2 * ?h) * p2 e)"
    by (simp_all add: b mk_Bounds_def)
  have nw: "0 \<le> i + ?w" and nh: "0 \<le> j + ?h" and ww: "0 \<le> 2 * ?w" and hh: "0 \<le> 2 * ?h"
    using nn pos by auto
  have lt: "i + ?w < 2 ^ 24" "j + ?h < 2 ^ 24" "i + ?w + ?w < 2 ^ 24" "j + ?h + ?h < 2 ^ 24"
    and eq: "i + 2 * ?w = i + ?w + ?w" "j + 2 * ?h = j + ?h + ?h"
    using pos lim by linarith+
  note add = f32_grid_add [OF nn(1) pos(1) lt(1) assms] f32_grid_add [OF nn(2) pos(2) lt(2) assms]
    f32_grid_add [OF nw pos(1) lt(3) assms] f32_grid_add [OF nh pos(2) lt(4) assms]
    f32_grid_add [OF nn(1) ww lim(1) assms, unfolded eq] f32_grid_add [OF nn(2) hh lim(2) assms, unfolded eq]
  have "quadrants_cover b"
    by (rule quadrants_cover_exact; (simp only: sel half add)?) (rule add)+
  moreover have "on_grid e k (nw_bounds b)" "on_grid e k (ne_bounds b)" "on_grid e k (sw_bounds b)" "on_grid e k (se_bounds b)"
    unfolding on_grid_def nw_bounds_def ne_bounds_def sw_bounds_def se_bounds_def sel half add
    using nn nw nh lt by (blast intro: order_le_less_trans)+
  ultimately show ?case using Suc.IH by simp
qed simp

section \<open>Histories\<close>

text \<open>
  A history is a sequence of calls; its abstract meaning is a map from ids to positions.  An
  admissible history inserts only ids that are not stored and only positions of the map.
\<close>

datatype qt_op = OpInsert uint64 Vec3 | OpRemove uint64 | OpUpdate uint64 Vec3 | OpClear

fun run_op :: "qt_op \<Rightarrow> QuadTree \<Rightarrow> QuadTree" where
  "run_op (OpInsert i p) t = QT_Insert t i p"
| "run_op (OpRemove i) t = QT_Remove t i"
| "run_op (OpUpdate i p) t = QT_Update t i p"
| "run_op OpClear t = QT_Clear t"

fun spec_op :: "qt_op \<Rightarrow> (uint64 \<Rightarrow> Vec3 option) \<Rightarrow> uint64 \<Rightarrow> Vec3 option" where
  "spec_op (OpInsert i p) m = m(i := Some p)"
| "spec_op (OpRemove i) m = m(i := None)"
| "spec_op (OpUpdate i p) m = m(i := Some p)"
| "spec_op OpClear m = (\<lambda>_. None)"

fun op_ok :: "Bounds \<Rightarrow> (uint64 \<Rightarrow> Vec3 option) \<Rightarrow> qt_op \<Rightarrow> bool" where
  "op_ok b m (OpInsert i p) \<longleftrightarrow> m i = None \<and> Contains b p"
| "op_ok b m (OpUpdate i p) \<longleftrightarrow> Contains b p"
| "op_ok b m _ \<longleftrightarrow> True"

fun admissible :: "Bounds \<Rightarrow> (uint64 \<Rightarrow> Vec3 option) \<Rightarrow> qt_op list \<Rightarrow> bool" where
  "admissible b m [] \<longleftrightarrow> True"
| "admissible b m (a # as) \<longleftrightarrow> op_ok b m a \<and> admissible b (spec_op a m) as"

lemma QT_Clear_ok: "qt_ok t \<Longrightarrow> qt_ok (QT_Clear t) \<and> qt_at (QT_Clear t) = (\<lambda>_. None) \<and> qt_valid (QT_Clear t) = qt_valid t"
  by (auto simp: QT_Clear_def qt_ok_def qt_at_def qt_valid_def)

lemma run_op_refines:
  assumes "qt_ok t" "op_ok (bounds (m_root t)) (qt_at t) a"
  shows "qt_ok (run_op a t) \<and> qt_at (run_op a t) = spec_op a (qt_at t) \<and> qt_valid (run_op a t) = qt_valid t"
  using assms qt.add [of t] qt.valid_add [of t] qt.del [of t] qt.valid_del [of t] qt.move [of t] QT_Clear_ok [of t]
  by (cases a) (auto simp: qt_valid_def)

lemma op_ok_valid: "op_ok (bounds (m_root t)) m a \<longleftrightarrow> (case a of OpInsert i p \<Rightarrow> m i = None \<and> qt_valid t p
    | OpUpdate i p \<Rightarrow> qt_valid t p | _ \<Rightarrow> True)"
  by (cases a) (simp_all add: qt_valid_def)

lemma admissible_valid: "qt_valid t' = qt_valid t \<Longrightarrow>
    admissible (bounds (m_root t')) m as = admissible (bounds (m_root t)) m as"
  by (induction as arbitrary: m) (simp_all add: op_ok_valid split: qt_op.split)

lemma history_refines:
  "qt_ok t \<Longrightarrow> admissible (bounds (m_root t)) (qt_at t) as \<Longrightarrow>
   qt_ok (fold run_op as t) \<and> qt_at (fold run_op as t) = fold spec_op as (qt_at t)"
proof (induction as arbitrary: t)
  case (Cons a as)
  have "qt_ok (run_op a t)" "qt_at (run_op a t) = spec_op a (qt_at t)" "qt_valid (run_op a t) = qt_valid t"
    using run_op_refines [of t a] Cons.prems by simp_all
  moreover from this have "admissible (bounds (m_root (run_op a t))) (qt_at (run_op a t)) as"
    using Cons.prems(2) admissible_valid [of "run_op a t" t] by simp
  ultimately show ?case using Cons.IH [of "run_op a t"] by simp
qed simp

lemma mk_QuadTree_ok:
  assumes "-149 \<le> e" "e \<le> 104" "on_grid e MAX_DEPTH (mk_Bounds x y w h)" "mk_QuadTree x y w h = Some t"
  shows "qt_ok t" "qt_at t = (\<lambda>_. None)" "bounds (m_root t) = mk_Bounds x y w h"
  using assms covers_grid [of e MAX_DEPTH "mk_Bounds x y w h"]
  by (auto simp: mk_QuadTree_def CreateNode_def qt_ok_def qt_at_def MAX_DEPTH_def split: if_splits)

text \<open>The map of the shipped configuration: 200 by 200, a multiple of \<open>2 ^ 6 / 8\<close>.\<close>

lemma grid_200: "on_grid (-3) MAX_DEPTH (mk_Bounds (Fin 0) (Fin 0) (Fin 200) (Fin 200))"
proof -
  have p: "p2 (-3) = 1 / 8" by (simp add: p2_def)
  show ?thesis unfolding on_grid_def MAX_DEPTH_def p
    by (rule exI [where x = 0], rule exI [where x = 0], rule exI [where x = 25], rule exI [where x = 25]) simp
qed

section \<open>Size\<close>

fun node_budget :: "nat \<Rightarrow> nat" where
  "node_budget 0 = 1"
| "node_budget (Suc k) = 1 + 4 * node_budget k"

lemma CountNodes_budget: "node_ok P d n \<Longrightarrow> CountNodes n \<le> node_budget (MAX_DEPTH - d)"
proof (induction n arbitrary: d)
  case (Leaf b ids)
  then show ?case by (cases "MAX_DEPTH - d") simp_all
next
  case (Inner bs ids a1 a2 a3 a4)
  then obtain k where k: "MAX_DEPTH - d = Suc k" "MAX_DEPTH - (d + 1) = k"
    by (cases "MAX_DEPTH - d") auto
  have "CountNodes a1 \<le> node_budget k" "CountNodes a2 \<le> node_budget k" "CountNodes a3 \<le> node_budget k"
    "CountNodes a4 \<le> node_budget k"
    using Inner.IH [of "d + 1"] Inner.prems k(2) by auto
  then show ?case by (simp add: k(1))
qed

lemma CountPlayers_ids: "CountPlayers n = length (ids_of n)"
  by (induction n) simp_all

definition qt200 :: QuadTree where
  "qt200 = \<lparr>m_root = CreateNode (mk_Bounds (Fin 0) (Fin 0) (Fin 200) (Fin 200)), m_playerPositions = []\<rparr>"

lemma mk_qt200: "mk_QuadTree (Fin 0) (Fin 0) (Fin 200) (Fin 200) = Some qt200"
  by (simp add: mk_QuadTree_def qt200_def)

lemma qt200_empty: "qt_ok qt200" "qt_at qt200 = (\<lambda>_. None)" "qt_valid qt200 = Contains (mk_Bounds (Fin 0) (Fin 0) (Fin 200) (Fin 200))"
  using mk_QuadTree_ok [OF _ _ grid_200 mk_qt200] by (simp_all add: qt_valid_def)

end
