(* ===== verification/Spatial_Properties.thy ===== *)
theory Spatial_Properties
  imports Quad_Tree
begin

text \<open>
  The correctness of the spatial index: exact queries, refinement of a map, whole histories of
  calls, size bounds, and the two ways in which a caller can leave the contract (a map whose
  quadrants are not exact in binary32, and \<open>Insert\<close> of an id that is already stored).

  The concrete trees of the witnesses: the 200 by 200 map with players 1 and 2 at (10, 10) and
  (100, 100); and a 200.1 by 200 map, whose width is not a multiple of a large power of two in
  binary32.
\<close>

definition ops200 :: "qt_op list" where
  "ops200 = [OpInsert 1 (From2D (Fin 10) (Fin 10)), OpUpdate 2 (From2D (Fin 50) (Fin 50)),
     OpUpdate 2 (From2D (Fin 100) (Fin 100)), OpInsert 3 (From2D (Fin 11) (Fin 10)), OpRemove 3]"

definition qt200_1 :: QuadTree where
  "qt200_1 = \<lparr>m_root = CreateNode (mk_Bounds (Fin 0) (Fin 0) (Fin (6556877 / 32768)) (Fin 200)), m_playerPositions = []\<rparr>"

definition gap_position :: Vec3 where
  "gap_position = From2D (Fin (9835315 / 262144)) (Fin 30)"

lemma qt200_ok: "qt_ok (fold run_op ops200 qt200)"
proof -
  have "admissible (bounds (m_root qt200)) (qt_at qt200) ops200" by code_simp
  then show ?thesis using history_refines mk_QuadTree_ok [OF _ _ grid_200 mk_qt200] by simp
qed

text \<open>
  C2: a query on a consistent tree returns every stored player within the radius of the centre
  exactly once and nobody else.  "Within" is the source's own float comparison, so neither the
  pruning of subtrees nor rounding loses or adds a player.
\<close>

theorem QT_Query_exact:
  assumes "qt_ok t" "is_fin (vx center)" "is_fin (vy center)"
  shows "distinct (QT_Query t center radius) \<and>
    set (QT_Query t center radius) = {i. \<exists>p. um_find (m_playerPositions t) i = Some p \<and> in_radius center radius p}"
  using QT_Query_ok [OF assms] by blast

theorem QT_Query_exact_witness:
  "set (QT_Query (fold run_op ops200 qt200) (From2D (Fin 12) (Fin 12)) (Fin 5)) =
     {i. \<exists>p. um_find (m_playerPositions (fold run_op ops200 qt200)) i = Some p \<and> in_radius (From2D (Fin 12) (Fin 12)) (Fin 5) p} \<and>
   QT_Query (fold run_op ops200 qt200) (From2D (Fin 12) (Fin 12)) (Fin 5) = [1]"
proof -
  have "QT_Query (fold run_op ops200 qt200) (From2D (Fin 12) (Fin 12)) (Fin 5) = [1]" by code_simp
  then show ?thesis
    using QT_Query_exact [OF qt200_ok, of "From2D (Fin 12) (Fin 12)" "Fin 5"] by (simp add: From2D_def)
qed

text \<open>
  \<open>Insert\<close> of an id that is not stored, \<open>Remove\<close> of any id and \<open>Update\<close> of any id keep
  the tree consistent and change the stored positions as a map update, a map deletion and a map
  update.
\<close>

theorem QT_operations_refine:
  assumes "qt_ok t" "qt_valid t p"
  shows "(qt_at t i = None \<longrightarrow> qt_ok (QT_Insert t i p) \<and> qt_at (QT_Insert t i p) = (qt_at t)(i \<mapsto> p)) \<and>
    qt_ok (QT_Remove t i) \<and> qt_at (QT_Remove t i) = (qt_at t)(i := None) \<and>
    qt_ok (QT_Update t i p) \<and> qt_at (QT_Update t i p) = (qt_at t)(i \<mapsto> p)"
  using qt.add [OF assms(1) _ assms(2), of i] qt.del [OF assms(1), of i] qt.move [OF assms, of i] by blast

theorem QT_operations_refine_witness:
  "qt_at (QT_Update (fold run_op ops200 qt200) 1 (From2D (Fin 199) (Fin 3))) 1 = Some (From2D (Fin 199) (Fin 3))"
proof -
  have "qt_valid (fold run_op ops200 qt200) (From2D (Fin 199) (Fin 3))" by code_simp
  then show ?thesis
    using QT_operations_refine [OF qt200_ok, of "From2D (Fin 199) (Fin 3)" 1] by simp
qed

text \<open>
  C6: on a map whose quadrants are exact, after any admissible history of calls a query returns
  exactly the players whose abstract position, computed from the history alone, is within the
  radius.
\<close>

theorem QT_history_query:
  assumes "mk_QuadTree x y w h = Some t" "on_grid e MAX_DEPTH (mk_Bounds x y w h)" "-149 \<le> e" "e \<le> 104"
    and "admissible (mk_Bounds x y w h) (\<lambda>_. None) as" "is_fin (vx center)" "is_fin (vy center)"
  shows "distinct (QT_Query (fold run_op as t) center radius) \<and>
    set (QT_Query (fold run_op as t) center radius) =
      {i. \<exists>p. fold spec_op as (\<lambda>_. None) i = Some p \<and> in_radius center radius p}"
  using history_refines [of t as] mk_QuadTree_ok [OF assms(3,4,2,1)] assms(5-)
    QT_Query_ok [of "fold run_op as t" center]
  by (auto simp: qt_at_def)

theorem QT_history_query_witness:
  "set (QT_Query (fold run_op ops200 qt200) (From2D (Fin 12) (Fin 12)) (Fin 5)) =
     {i. \<exists>p. fold spec_op ops200 (\<lambda>_. None) i = Some p \<and> in_radius (From2D (Fin 12) (Fin 12)) (Fin 5) p} \<and>
   QT_Query (fold run_op ops200 qt200) (From2D (Fin 12) (Fin 12)) (Fin 5) = [1]"
proof -
  have "admissible (mk_Bounds (Fin 0) (Fin 0) (Fin 200) (Fin 200)) (\<lambda>_. None) ops200"
    "is_fin (vx (From2D (Fin 12) (Fin 12)))" "is_fin (vy (From2D (Fin 12) (Fin 12)))"
    "QT_Query (fold run_op ops200 qt200) (From2D (Fin 12) (Fin 12)) (Fin 5) = [1]" by code_simp+
  then show ?thesis
    using QT_history_query [OF mk_qt200 grid_200, of ops200 "From2D (Fin 12) (Fin 12)" "Fin 5"] by simp
qed

text \<open>
  A consistent tree has at most 5461 nodes, the size of a complete tree of depth six, and
  its leaves hold as many ids as there are tracked positions, so \<open>CountPlayers\<close> and
  \<open>GetTotalPlayers\<close> agree.
\<close>

theorem QT_size_bounds:
  assumes "qt_ok t"
  shows "GetTotalNodes t \<le> 5461 \<and> CountPlayers (m_root t) = GetTotalPlayers t"
proof
  have "node_budget MAX_DEPTH = 5461" by code_simp
  then show "GetTotalNodes t \<le> 5461"
    using CountNodes_budget [of "m_playerPositions t" 0 "m_root t"] assms by (simp add: GetTotalNodes_def qt_ok_def)
  have "length (ids_of (m_root t)) = card {i. um_find (m_playerPositions t) i \<noteq> None}"
    using assms distinct_card [of "ids_of (m_root t)"] by (simp add: qt_ok_def)
  then show "CountPlayers (m_root t) = GetTotalPlayers t"
    using assms by (simp add: CountPlayers_ids GetTotalPlayers_def um.size_eq_card qt_ok_def)
qed

theorem QT_size_bounds_witness:
  "GetTotalNodes (fold run_op ops200 qt200) \<le> 5461 \<and> GetTotalPlayers (fold run_op ops200 qt200) = 2"
proof -
  have "GetTotalPlayers (fold run_op ops200 qt200) = 2" by code_simp
  then show ?thesis using QT_size_bounds [OF qt200_ok] by simp
qed

text \<open>
  On a map whose quadrants are not exact the index loses players.  On a 200.1 by 200 map
  four players at the same point are found; the fifth insertion subdivides the node, the
  point falls between two rounded quadrants, and all five disappear from every query although
  they are still tracked.
\<close>

theorem QT_rounding_gap:
  "Contains (bounds (m_root qt200_1)) gap_position \<and>
   QT_Query (fold (\<lambda>i t. QT_Insert t i gap_position) [1, 2, 3, 4] qt200_1) gap_position (Fin 100) = [1, 2, 3, 4] \<and>
   QT_Query (fold (\<lambda>i t. QT_Insert t i gap_position) [1, 2, 3, 4, 5] qt200_1) gap_position (Fin 100) = [] \<and>
   GetTotalPlayers (fold (\<lambda>i t. QT_Insert t i gap_position) [1, 2, 3, 4, 5] qt200_1) = 5"
  by (intro conjI; code_simp)

text \<open>
  \<open>Insert\<close> of an id that is already stored does not move it: the old leaf keeps the id
  as well, so a query that reaches both leaves returns the player twice.
\<close>

theorem QT_Insert_twice_duplicates:
  "let t = QT_Insert (QT_Insert qt200 1 (From2D (Fin 10) (Fin 10))) 1 (From2D (Fin 12) (Fin 10)) in
   QT_Query t (From2D (Fin 12) (Fin 10)) (Fin 50) = [1, 1] \<and> GetTotalPlayers t = 1"
  by code_simp

end
