(* ===== verification/Players.thy ===== *)
theory Players
  imports GameCommands
begin

text \<open>
  \<open>src/Game/Models/Player.h\<close>, \<open>Player.cpp\<close>, \<open>World.h\<close> and \<open>World.cpp\<close>: a player's
  state with its rate limit, sequence number and connection state, and the world as the map of
  all players.  \<open>steady_clock::now()\<close> is an argument.  Hit points are mathematical integers:
  the sources only compare and copy them.
\<close>

section \<open>Player\<close>

record Player =
  m_playerId :: uint64
  m_name :: string
  m_position :: Vec3
  m_velocity :: Vec3
  m_rotation :: fp
  m_hp :: int
  m_maxHp :: int
  m_mp :: int
  m_maxMp :: int
  m_currentInputFlags :: uint8
  m_mousePosition :: Vec3
  m_lastInputSequence :: uint32
  m_lastInputTime :: time_point
  m_isActive :: bool
  m_sessionId :: uint64
  m_disconnectTime :: time_point
  m_lastUpdateTick :: uint64
  m_moveSpeed :: fp

definition mk_Player :: "uint64 \<Rightarrow> string \<Rightarrow> Vec3 \<Rightarrow> Player" where
  "mk_Player playerId name spawnPosition = \<lparr>
     m_playerId = playerId, m_name = name, m_position = spawnPosition, m_velocity = vec3_zero,
     m_rotation = Fin 0, m_hp = 100, m_maxHp = 100, m_mp = 50, m_maxMp = 50,
     m_currentInputFlags = 0, m_mousePosition = vec3_zero, m_lastInputSequence = 0,
     m_lastInputTime = 0, m_isActive = True, m_sessionId = 0, m_disconnectTime = 0,
     m_lastUpdateTick = 0, m_moveSpeed = Fin 5\<rparr>"

definition std_clamp :: "int \<Rightarrow> int \<Rightarrow> int \<Rightarrow> int" where
  "std_clamp v lo hi = (if v < lo then lo else if hi < v then hi else v)"

definition SetHp :: "Player \<Rightarrow> int \<Rightarrow> Player" where
  "SetHp p hp = p\<lparr>m_hp := std_clamp hp 0 (m_maxHp p)\<rparr>"

definition SetMp :: "Player \<Rightarrow> int \<Rightarrow> Player" where
  "SetMp p mp = p\<lparr>m_mp := std_clamp mp 0 (m_maxMp p)\<rparr>"

definition SetPosition :: "Player \<Rightarrow> Vec3 \<Rightarrow> Player" where
  "SetPosition p v = p\<lparr>m_position := v\<rparr>"

definition SetVelocity :: "Player \<Rightarrow> Vec3 \<Rightarrow> Player" where
  "SetVelocity p v = p\<lparr>m_velocity := v\<rparr>"

definition SetRotation :: "Player \<Rightarrow> fp \<Rightarrow> Player" where
  "SetRotation p r = p\<lparr>m_rotation := r\<rparr>"

definition SetMousePosition :: "Player \<Rightarrow> Vec3 \<Rightarrow> Player" where
  "SetMousePosition p v = p\<lparr>m_mousePosition := v\<rparr>"

definition SetLastUpdateTick :: "Player \<Rightarrow> uint64 \<Rightarrow> Player" where
  "SetLastUpdateTick p tick = p\<lparr>m_lastUpdateTick := tick\<rparr>"

definition SetMoveSpeed :: "Player \<Rightarrow> fp \<Rightarrow> Player" where
  "SetMoveSpeed p speed = p\<lparr>m_moveSpeed := speed\<rparr>"

definition SetCurrentInputFlags :: "Player \<Rightarrow> uint8 \<Rightarrow> Player" where
  "SetCurrentInputFlags p flags = p\<lparr>m_currentInputFlags := flags\<rparr>"

definition SetLastInputSequence :: "Player \<Rightarrow> uint32 \<Rightarrow> Player" where
  "SetLastInputSequence p sequence = p\<lparr>m_lastInputSequence := sequence\<rparr>"

definition SetSessionId :: "Player \<Rightarrow> uint64 \<Rightarrow> Player" where
  "SetSessionId p s = p\<lparr>m_sessionId := s\<rparr>"

definition SetActive :: "time_point \<Rightarrow> Player \<Rightarrow> bool \<Rightarrow> Player" where
  "SetActive now p active =
     (let p = p\<lparr>m_isActive := active\<rparr> in if \<not> active then p\<lparr>m_disconnectTime := now\<rparr> else p)"

definition RECONNECT_TIMEOUT :: int where "RECONNECT_TIMEOUT = 5"

definition ShouldRemove :: "time_point \<Rightarrow> Player \<Rightarrow> bool" where
  "ShouldRemove now p =
     (if m_isActive p then False
      else duration_cast ns_per_min (now - m_disconnectTime p) \<ge> RECONNECT_TIMEOUT)"

definition INPUT_RATE_LIMIT_MS :: int where "INPUT_RATE_LIMIT_MS = 33"

definition IsInputAllowed :: "time_point \<Rightarrow> Player \<Rightarrow> bool" where
  "IsInputAllowed now p \<longleftrightarrow> duration_cast ns_per_ms (now - m_lastInputTime p) \<ge> INPUT_RATE_LIMIT_MS"

definition UpdateLastInputTime :: "time_point \<Rightarrow> Player \<Rightarrow> Player" where
  "UpdateLastInputTime now p = p\<lparr>m_lastInputTime := now\<rparr>"

text \<open>\<open>Player::Update\<close> is an empty body marked TODO.\<close>

definition Player_Update :: "fp \<Rightarrow> Player \<Rightarrow> Player" where
  "Player_Update deltaTime p = p"

section \<open>World\<close>

type_synonym World = "(uint64, Player) umap"

definition AddPlayer :: "World \<Rightarrow> Player \<Rightarrow> World" where
  "AddPlayer w player = um_set w (m_playerId player) player"

definition RemovePlayer :: "World \<Rightarrow> uint64 \<Rightarrow> World" where
  "RemovePlayer w playerId = um_erase w playerId"

text \<open>
  \<open>GetPlayer\<close> returns a reference into the map; a handler that mutates the player through it
  is a lookup followed by \<open>UpdatePlayer\<close> at the same key.
\<close>

definition GetPlayer :: "World \<Rightarrow> uint64 \<Rightarrow> Player option" where
  "GetPlayer w playerId = um_find w playerId"

definition UpdatePlayer :: "World \<Rightarrow> uint64 \<Rightarrow> Player \<Rightarrow> World" where
  "UpdatePlayer w playerId player = um_set w playerId player"

definition GetPlayerIds :: "World \<Rightarrow> uint64 list" where
  "GetPlayerIds w = map fst w"

definition GetPlayerCount :: "World \<Rightarrow> nat" where
  "GetPlayerCount w = length w"

definition World_Update :: "fp \<Rightarrow> World \<Rightarrow> World" where
  "World_Update deltaTime w = map (\<lambda>(k, p). (k, Player_Update deltaTime p)) w"

section \<open>Lemmas\<close>

definition world_ok :: "World \<Rightarrow> bool" where
  "world_ok w \<longleftrightarrow> um_ok w \<and> (\<forall>k p. GetPlayer w k = Some p \<longrightarrow> m_playerId p = k)"

lemma World_Update_id [simp]: "World_Update dt w = w"
  by (simp add: World_Update_def Player_Update_def)

lemma GetPlayer_UpdatePlayer [simp]:
  "GetPlayer (UpdatePlayer w k p) j = (if j = k then Some p else GetPlayer w j)"
  by (simp add: GetPlayer_def UpdatePlayer_def)

lemma GetPlayer_AddPlayer [simp]:
  "GetPlayer (AddPlayer w p) j = (if j = m_playerId p then Some p else GetPlayer w j)"
  by (simp add: GetPlayer_def AddPlayer_def)

lemma GetPlayer_RemovePlayer [simp]:
  "GetPlayer (RemovePlayer w k) j = (if j = k then None else GetPlayer w j)"
  by (simp add: GetPlayer_def RemovePlayer_def)

lemma world_ok_UpdatePlayer: "world_ok w \<Longrightarrow> m_playerId p = k \<Longrightarrow> world_ok (UpdatePlayer w k p)"
  by (simp add: world_ok_def) (simp add: UpdatePlayer_def)

lemma world_ok_AddPlayer: "world_ok w \<Longrightarrow> world_ok (AddPlayer w p)"
  by (simp add: world_ok_def) (simp add: AddPlayer_def)

lemma IsInputAllowed_iff: "IsInputAllowed now p \<longleftrightarrow> m_lastInputTime p + 33000000 \<le> now"
  using duration_cast_ge [of ns_per_ms 33 "now - m_lastInputTime p"]
  by (auto simp: IsInputAllowed_def INPUT_RATE_LIMIT_MS_def ns_per_ms_def)

lemma ShouldRemove_iff: "ShouldRemove now p \<longleftrightarrow> \<not> m_isActive p \<and> m_disconnectTime p + 300000000000 \<le> now"
  using duration_cast_ge [of ns_per_min 5 "now - m_disconnectTime p"]
  by (auto simp: ShouldRemove_def RECONNECT_TIMEOUT_def ns_per_min_def)

end
