(* ===== verification/Queues.thy ===== *)
theory Queues
  imports GameCommands
begin

text \<open>
  \<open>src/Game/GameLogicQueue.h\<close>, \<open>GameLogicQueue.cpp\<close>, \<open>src/Utils/JobQueue.h\<close> and
  \<open>JobQueue.cpp\<close>: two queues with the same structure, a lock-free \<open>ConcurrentQueue\<close>, a
  condition variable and an atomic shutdown flag.

  The concurrent queue is a third-party container; what a single consumer sees of it is a
  sequence of elements, and a run of the program is an interleaving of the operations below.
  The container keeps the order of the elements of one producing thread; between two producers
  the sequence is the order in which it hands their elements out.
  The wait predicate of the blocking pop has the side effect of dequeuing: it is a step of its
  own, and a pop that cannot proceed is \<open>None\<close>.
\<close>

section \<open>The operations\<close>

record 'a shut_queue =
  q_items :: "'a list"
  m_shuttingDown :: bool

definition empty_queue :: "'a shut_queue" where
  "empty_queue = \<lparr>q_items = [], m_shuttingDown = False\<rparr>"

definition try_dequeue :: "'a shut_queue \<Rightarrow> 'a option \<times> 'a shut_queue" where
  "try_dequeue q = (case q_items q of [] \<Rightarrow> (None, q) | x # xs \<Rightarrow> (Some x, q\<lparr>q_items := xs\<rparr>))"

definition PushGameCommand :: "GameCommand shut_queue \<Rightarrow> GameCommand \<Rightarrow> GameCommand shut_queue" where
  "PushGameCommand q gameCommand =
     (if m_shuttingDown q then q else q\<lparr>q_items := q_items q @ [gameCommand]\<rparr>)"

definition TryPopGameCommand :: "GameCommand shut_queue \<Rightarrow> GameCommand option \<times> GameCommand shut_queue" where
  "TryPopGameCommand q = try_dequeue q"

definition GLQ_Shutdown :: "GameCommand shut_queue \<Rightarrow> GameCommand shut_queue" where
  "GLQ_Shutdown q = q\<lparr>m_shuttingDown := True\<rparr>"

text \<open>
  The blocking pop: \<open>wait\<close> evaluates \<open>try_dequeue(command) || m_shuttingDown\<close> and blocks
  while it is false; afterwards a set shutdown flag makes the code dequeue \<^emph>\<open>again\<close> into the
  same variable.  \<open>dflt\<close> is the default-constructed command.
\<close>

definition blocking_pop :: "'a \<Rightarrow> 'a shut_queue \<Rightarrow> ('a \<times> 'a shut_queue) option" where
  "blocking_pop dflt q = (
     let (got, q1) = try_dequeue q; command = (case got of None \<Rightarrow> dflt | Some c \<Rightarrow> c) in
     if got = None \<and> \<not> m_shuttingDown q1 then None
     else if m_shuttingDown q1 then
       (case try_dequeue q1 of (None, q2) \<Rightarrow> Some (dflt, q2) | (Some c, q2) \<Rightarrow> Some (c, q2))
     else Some (command, q1))"

definition PopGameCommand :: "GameCommand shut_queue \<Rightarrow> (GameCommand \<times> GameCommand shut_queue) option" where
  "PopGameCommand q = blocking_pop default_GameCommand q"

text \<open>Jobs: the session they belong to (an address), the packet bytes, the shutdown marker.\<close>

record Job =
  job_session :: "nat option"
  packetBuffer :: "byte list"
  isShutdownSignal :: bool

definition default_Job :: Job where
  "default_Job = \<lparr>job_session = None, packetBuffer = [], isShutdownSignal = False\<rparr>"

definition mk_Job :: "nat \<Rightarrow> byte list \<Rightarrow> Job" where
  "mk_Job sess buffer = \<lparr>job_session = Some sess, packetBuffer = buffer, isShutdownSignal = False\<rparr>"

definition PushJob :: "Job shut_queue \<Rightarrow> Job \<Rightarrow> Job shut_queue" where
  "PushJob q job = (if m_shuttingDown q then q else q\<lparr>q_items := q_items q @ [job]\<rparr>)"

definition PopJob :: "Job shut_queue \<Rightarrow> (Job \<times> Job shut_queue) option" where
  "PopJob q = blocking_pop default_Job q"

definition JQ_Shutdown :: "Job shut_queue \<Rightarrow> Job shut_queue" where
  "JQ_Shutdown q = q\<lparr>m_shuttingDown := True\<rparr>"

section \<open>The interface of a closable queue\<close>

text \<open>
  A history of a queue is any interleaving of pushes and pops; \<open>run_queue\<close> collects what the
  pops return, a pop that blocks returning nothing and changing nothing.
\<close>

datatype 'a queue_op = Push 'a | Pop

fun run_queue :: "('q \<Rightarrow> 'a \<Rightarrow> 'q) \<Rightarrow> ('q \<Rightarrow> ('a \<times> 'q) option) \<Rightarrow> 'a queue_op list \<Rightarrow> 'q \<Rightarrow> 'a list \<times> 'q" where
  "run_queue push pop [] q = ([], q)"
| "run_queue push pop (Push x # ops) q = run_queue push pop ops (push q x)"
| "run_queue push pop (Pop # ops) q = (case pop q of
      None \<Rightarrow> run_queue push pop ops q
    | Some (x, q') \<Rightarrow> (case run_queue push pop ops q' of (xs, q'') \<Rightarrow> (x # xs, q'')))"

fun pushed :: "'a queue_op list \<Rightarrow> 'a list" where
  "pushed [] = []"
| "pushed (Push x # ops) = x # pushed ops"
| "pushed (Pop # ops) = pushed ops"

locale closable_queue =
  fixes items :: "'q \<Rightarrow> 'a list"
    and closed :: "'q \<Rightarrow> bool"
    and push :: "'q \<Rightarrow> 'a \<Rightarrow> 'q"
    and close :: "'q \<Rightarrow> 'q"
    and take :: "'q \<Rightarrow> ('a \<times> 'q) option"
  assumes push_open: "\<not> closed q \<Longrightarrow> items (push q x) = items q @ [x]"
    and push_closed: "closed q \<Longrightarrow> push q x = q"
    and push_keeps_closed: "closed (push q x) = closed q"
    and close_closed: "closed (close q)" and close_items: "items (close q) = items q"
    and take_open: "\<not> closed q \<Longrightarrow> items q = x # xs \<Longrightarrow> \<exists>q'. take q = Some (x, q') \<and> items q' = xs \<and> \<not> closed q'"
    and take_blocks: "\<not> closed q \<Longrightarrow> items q = [] \<Longrightarrow> take q = None"
begin

lemma push_all_closed: "closed q \<Longrightarrow> fold (\<lambda>x q. push q x) xs q = q"
  by (induction xs arbitrary: q) (simp_all add: push_closed)

text \<open>First in, first out, whatever the interleaving: nothing is lost, doubled or reordered.\<close>

lemma history_fifo:
  "\<not> closed q \<Longrightarrow> run_queue push take ops q = (out, q') \<Longrightarrow> out @ items q' = items q @ pushed ops \<and> \<not> closed q'"
proof (induction ops arbitrary: q out q')
  case (Cons op ops)
  show ?case
  proof (cases op)
    case (Push x)
    then show ?thesis using Cons.IH [of "push q x"] Cons.prems by (simp add: push_open push_keeps_closed)
  next
    case Pop
    show ?thesis
    proof (cases "items q")
      case Nil
      then show ?thesis using Cons.IH [of q] Cons.prems take_blocks [of q] Pop by simp
    next
      case (Cons x xs)
      then obtain q1 where "take q = Some (x, q1)" "items q1 = xs" "\<not> closed q1"
        using take_open [OF Cons.prems(1)] by blast
      then show ?thesis using Cons.IH [of q1] Cons.prems Pop Cons by (auto split: prod.splits)
    qed
  qed
qed simp

end

lemma blocking_pop_open:
  "\<not> m_shuttingDown q \<Longrightarrow> blocking_pop d q = (case q_items q of [] \<Rightarrow> None | x # xs \<Rightarrow> Some (x, q\<lparr>q_items := xs\<rparr>))"
  by (auto simp: blocking_pop_def try_dequeue_def split: list.splits)

interpretation glq: closable_queue q_items m_shuttingDown PushGameCommand GLQ_Shutdown PopGameCommand
  by unfold_locales (auto simp: PushGameCommand_def GLQ_Shutdown_def PopGameCommand_def blocking_pop_open)

interpretation jq: closable_queue q_items m_shuttingDown PushJob JQ_Shutdown PopJob
  by unfold_locales (auto simp: PushJob_def JQ_Shutdown_def PopJob_def blocking_pop_open)

text \<open>The code's own non-blocking pop satisfies the same contract, closed or not.\<close>

definition TryPop :: "GameCommand shut_queue \<Rightarrow> (GameCommand \<times> GameCommand shut_queue) option" where
  "TryPop q = (case TryPopGameCommand q of (None, _) \<Rightarrow> None | (Some c, q') \<Rightarrow> Some (c, q'))"

interpretation tlq: closable_queue q_items m_shuttingDown PushGameCommand GLQ_Shutdown TryPop
  by unfold_locales
    (auto simp: PushGameCommand_def GLQ_Shutdown_def TryPop_def TryPopGameCommand_def try_dequeue_def)

lemma blocking_pop_shutdown:
  "m_shuttingDown q \<Longrightarrow> blocking_pop d q = Some (case q_items q of x # y # ys \<Rightarrow> (y, q\<lparr>q_items := ys\<rparr>)
     | _ \<Rightarrow> (d, q\<lparr>q_items := []\<rparr>))"
  by (auto simp: blocking_pop_def try_dequeue_def Let_def split: list.splits)

end
