(* ===== verification/Protocol.thy ===== *)
theory Protocol
  imports GameCommands
begin

text \<open>
  \<open>src/Common/protocol.fbs\<close>: the tables and the packet union of the wire protocol, as data.
  The FlatBuffers builder, verifier and accessors are generated third-party code: wherever the
  server turns a packet into bytes or bytes into a packet, that code is a parameter of the
  model.  A table field that the schema does not mark as required may be absent, so it is an
  \<open>option\<close>; a scalar field that is not given has its schema default \<open>0\<close>.
\<close>

record PlayerInfo =
  info_player_id :: uint64
  info_name :: "string option"
  info_position :: "Vec3 option"
  info_hp :: int
  info_max_hp :: int
  info_mp :: int
  info_max_mp :: int

record PlayerState =
  st_player_id :: uint64
  st_position :: "Vec3 option"
  st_velocity :: "Vec3 option"
  st_rotation :: fp
  st_hp :: int
  st_mp :: int
  st_last_input_sequence :: uint32

type_synonym PacketId = "16 word"

definition PacketId_C_Login :: PacketId where "PacketId_C_Login = 1"
definition PacketId_S_LoginSuccess :: PacketId where "PacketId_S_LoginSuccess = 2"
definition PacketId_S_LoginFailure :: PacketId where "PacketId_S_LoginFailure = 3"
definition PacketId_C_Chat :: PacketId where "PacketId_C_Chat = 4"
definition PacketId_S_Chat :: PacketId where "PacketId_S_Chat = 5"
definition PacketId_C_PlayerInput :: PacketId where "PacketId_C_PlayerInput = 10"
definition PacketId_S_WorldSnapshot :: PacketId where "PacketId_S_WorldSnapshot = 11"
definition PacketId_C_EnterZone :: PacketId where "PacketId_C_EnterZone = 20"
definition PacketId_S_ZoneEntered :: PacketId where "PacketId_S_ZoneEntered = 21"
definition PacketId_S_PlayerJoined :: PacketId where "PacketId_S_PlayerJoined = 22"
definition PacketId_S_PlayerLeft :: PacketId where "PacketId_S_PlayerLeft = 23"

lemmas PacketId_defs = PacketId_C_Login_def PacketId_S_LoginSuccess_def PacketId_S_LoginFailure_def
  PacketId_C_Chat_def PacketId_S_Chat_def PacketId_C_PlayerInput_def PacketId_S_WorldSnapshot_def
  PacketId_C_EnterZone_def PacketId_S_ZoneEntered_def PacketId_S_PlayerJoined_def PacketId_S_PlayerLeft_def

record C_Login =
  login_session_ticket :: "string option"
  login_player_id :: uint64
  login_command_id :: int64

record C_PlayerInput =
  input_tick_number :: uint64
  input_client_time :: uint64
  input_flags :: uint8
  input_mouse_position :: "Vec3 option"
  input_sequence_number :: uint32
  input_command_id :: int64

text \<open>The event types are an enumeration over bytes; the server never creates an event.\<close>

record GameEvent =
  ev_event_type :: uint8
  ev_source_player_id :: uint64
  ev_target_player_id :: uint64
  ev_position :: "Vec3 option"
  ev_value :: int

record S_WorldSnapshot =
  snap_tick_number :: uint64
  snap_server_time :: uint64
  snap_player_states :: "PlayerState list"
  snap_events :: "GameEvent list"

text \<open>The packet union.  The server never sends state corrections or game ticks.\<close>

datatype Packet =
    Packet_C_Login C_Login
  | Packet_S_LoginSuccess PlayerInfo int64
  | Packet_S_LoginFailure int string int64
  | Packet_C_Chat "string option" int64
  | Packet_S_Chat int64 string int64
  | Packet_C_PlayerInput C_PlayerInput
  | Packet_S_WorldSnapshot S_WorldSnapshot
  | Packet_S_StateCorrection uint64 "Vec3 option" "Vec3 option" uint32
  | Packet_S_GameTick uint64 uint64
  | Packet_C_EnterZone int int64
  | Packet_S_ZoneEntered int PlayerInfo "PlayerInfo list"
  | Packet_S_PlayerJoined PlayerInfo
  | Packet_S_PlayerLeft uint64

record UnifiedPacket =
  up_id :: PacketId
  up_data :: "Packet option"

definition CreateUnifiedPacket :: "PacketId \<Rightarrow> Packet \<Rightarrow> UnifiedPacket" where
  "CreateUnifiedPacket i d = \<lparr>up_id = i, up_data = Some d\<rparr>"

text \<open>
  The generated creators take the fields in the order of the schema; trailing fields that a
  call leaves out keep their defaults.
\<close>

definition CreatePlayerInfo :: "uint64 \<Rightarrow> string option \<Rightarrow> Vec3 option \<Rightarrow> int \<Rightarrow> int \<Rightarrow> PlayerInfo" where
  "CreatePlayerInfo pid name pos hp max_hp = \<lparr>info_player_id = pid, info_name = name,
     info_position = pos, info_hp = hp, info_max_hp = max_hp, info_mp = 0, info_max_mp = 0\<rparr>"

definition CreatePlayerState :: "uint64 \<Rightarrow> Vec3 option \<Rightarrow> Vec3 option \<Rightarrow> fp \<Rightarrow> PlayerState" where
  "CreatePlayerState pid pos vel rotation = \<lparr>st_player_id = pid, st_position = pos,
     st_velocity = vel, st_rotation = rotation, st_hp = 0, st_mp = 0, st_last_input_sequence = 0\<rparr>"

end
