(* ===== verification/Sessions.thy ===== *)
theory Sessions
  imports Queues Protocol
begin

text \<open>
  \<open>src/Network/Session.h\<close>, \<open>Session.cpp\<close>, \<open>SessionManager.h\<close> and \<open>SessionManager.cpp\<close>:
  the length-prefixed framing of the TCP stream, the write queue of a session, and the map of
  active sessions.  Sessions are shared objects, so they live in a store and are named by
  their address; every map of sessions holds addresses.
\<close>

section \<open>Framing\<close>

text \<open>The four bytes of a \<open>uint32_t\<close> in memory, on the little-endian host the sources assume.\<close>

definition uint32_bytes :: "uint32 \<Rightarrow> byte list" where
  "uint32_bytes w = [ucast w, ucast (drop_bit 8 w), ucast (drop_bit 16 w), ucast (drop_bit 24 w)]"

definition memcpy_uint32 :: "byte list \<Rightarrow> uint32" where
  "memcpy_uint32 bs = ucast (bs ! 0) OR push_bit 8 (ucast (bs ! 1)) OR push_bit 16 (ucast (bs ! 2))
     OR push_bit 24 (ucast (bs ! 3))"

definition frame :: "byte list \<Rightarrow> byte list" where
  "frame data = uint32_bytes (of_nat (length data)) @ data"

section \<open>A session\<close>

record Session =
  s_sessionId :: uint64
  s_playerId :: uint64
  s_open :: bool \<comment> \<open>\<open>m_socket.is_open()\<close>\<close>
  m_readHeader :: "byte list"
  m_readBody :: "byte list"
  m_writeQueue :: "byte list list"

definition mk_Session :: "uint64 \<Rightarrow> Session" where
  "mk_Session sessionId = \<lparr>s_sessionId = sessionId, s_playerId = 0, s_open = True,
     m_readHeader = [0, 0, 0, 0], m_readBody = [], m_writeQueue = []\<rparr>"

definition IsConnected :: "Session \<Rightarrow> bool" where
  "IsConnected s = s_open s"

text \<open>
  \<open>remote_endpoint()\<close> throws on a closed socket and when the operating system no longer knows
  the peer; \<open>peer\<close> is what it answers for the session, \<open>None\<close> an exception.
\<close>

definition GetRemoteEndpoint :: "(uint64 \<Rightarrow> string option) \<Rightarrow> Session \<Rightarrow> string option" where
  "GetRemoteEndpoint peer s = (if s_open s then peer (s_sessionId s) else None)"

definition SetPlayerId :: "Session \<Rightarrow> uint64 \<Rightarrow> Session" where
  "SetPlayerId s playerId = s\<lparr>s_playerId := playerId\<rparr>"

definition Send :: "Session \<Rightarrow> byte list \<Rightarrow> Session" where
  "Send s data = s\<lparr>m_writeQueue := m_writeQueue s @ [frame data]\<rparr>"

definition MAX_BATCH_SIZE :: uint64 where "MAX_BATCH_SIZE = 64 * 1024 * 1024"

text \<open>The size loop of \<open>SendBatch\<close>: \<open>None\<close> when the batch is dropped.  \<open>size_t\<close> has 64 bits.\<close>

fun batch_size :: "uint64 \<Rightarrow> byte list list \<Rightarrow> uint64 option" where
  "batch_size totalSize [] = Some totalSize"
| "batch_size totalSize (packet # packets) =
     (let size = of_nat (length packet) in
      if totalSize > (- 1) - 4 - size then None
      else let totalSize = totalSize + (4 + size) in
        if totalSize > MAX_BATCH_SIZE then None else batch_size totalSize packets)"

definition SendBatch :: "Session \<Rightarrow> byte list list \<Rightarrow> Session" where
  "SendBatch s packets =
     (if packets = [] then s
      else case batch_size 0 packets of
        None \<Rightarrow> s
      | Some totalSize \<Rightarrow> s\<lparr>m_writeQueue := m_writeQueue s @ [concat (map frame packets)]\<rparr>)"

text \<open>
  \<open>Disconnect\<close> up to the callback: close the socket, clear the buffers, drain the queue.
  The callback is \<open>TcpServer::OnSessionDisconnectedInternal\<close> and belongs to the server.
\<close>

definition close_session :: "Session \<Rightarrow> Session" where
  "close_session s = s\<lparr>s_open := False, m_readHeader := [0, 0, 0, 0], m_readBody := [], m_writeQueue := []\<rparr>"

text \<open>
  \<open>ReadLoop\<close> on the bytes the peer sends before the stream ends or fails.  \<open>async_read\<close>
  fills its buffer completely or reports an error; each iteration hands one body to the packet
  manager.  The result lists the bodies and says why the loop left; every exit disconnects.
\<close>

datatype read_exit = HeaderError | InvalidHeader uint32 | BodyError

definition MAX_BODY :: uint32 where "MAX_BODY = 100000"

function ReadLoop :: "byte list \<Rightarrow> byte list list \<times> read_exit" where
  "ReadLoop input =
     (if length input < 4 then ([], HeaderError)
      else let bodyLength = memcpy_uint32 (take 4 input) in
        if bodyLength = 0 \<or> bodyLength > MAX_BODY then ([], InvalidHeader bodyLength)
        else let rest = drop 4 input; n = unat bodyLength in
          if length rest < n then ([], BodyError)
          else case ReadLoop (drop n rest) of (ps, e) \<Rightarrow> (take n rest # ps, e))"
  by pat_completeness auto
termination
  by (relation "measure length") auto

declare ReadLoop.simps [simp del]

section \<open>The session manager\<close>

record Net =
  store :: "nat \<Rightarrow> Session"
  next_addr :: nat
  s_nextSessionId :: uint64
  m_activeSessions :: "(uint64, nat) umap"
  gameLogicQueue :: "GameCommand shut_queue" \<comment> \<open>the one queue all components share\<close>
  sm_gameLogicQueue :: bool \<comment> \<open>the session manager's pointer to it is not null\<close>

definition empty_Net :: Net where
  "empty_Net = \<lparr>store = (\<lambda>_. mk_Session 0), next_addr = 0, s_nextSessionId = 0,
     m_activeSessions = [], gameLogicQueue = empty_queue, sm_gameLogicQueue = True\<rparr>"

text \<open>The constructor of \<open>Session\<close>: a new object with the next id.\<close>

definition new_session :: "Net \<Rightarrow> nat \<times> Net" where
  "new_session net = (next_addr net, net\<lparr>
     store := (store net)(next_addr net := mk_Session (s_nextSessionId net)),
     next_addr := next_addr net + 1, s_nextSessionId := s_nextSessionId net + 1\<rparr>)"

definition upd_session :: "Net \<Rightarrow> nat \<Rightarrow> (Session \<Rightarrow> Session) \<Rightarrow> Net" where
  "upd_session net a f = net\<lparr>store := (store net)(a := f (store net a))\<rparr>"

definition AddSession :: "Net \<Rightarrow> nat \<Rightarrow> Net" where
  "AddSession net a = net\<lparr>m_activeSessions := um_set (m_activeSessions net) (s_sessionId (store net a)) a\<rparr>"

definition OnSessionDisconnected :: "time_point \<Rightarrow> Net \<Rightarrow> nat \<Rightarrow> Net" where
  "OnSessionDisconnected now net a = (let playerId = s_playerId (store net a) in
     if playerId \<noteq> 0 \<and> sm_gameLogicQueue net then
       net\<lparr>gameLogicQueue := PushGameCommand (gameLogicQueue net) \<lparr>commandId = 0,
         payload = PlayerDisconnectPayload \<lparr>pd_playerId = playerId\<rparr>,
         senderSessionId = s_sessionId (store net a), timestamp = GetCurrentTimestamp now\<rparr>\<rparr>
     else net)"

definition RemoveSession :: "time_point \<Rightarrow> Net \<Rightarrow> uint64 \<Rightarrow> Net" where
  "RemoveSession now net sessionId =
     (case um_find (m_activeSessions net) sessionId of
        None \<Rightarrow> net
      | Some a \<Rightarrow> OnSessionDisconnected now
          (net\<lparr>m_activeSessions := um_erase (m_activeSessions net) sessionId\<rparr>) a)"

definition GetSession :: "Net \<Rightarrow> uint64 \<Rightarrow> nat option" where
  "GetSession net sessionId = um_find (m_activeSessions net) sessionId"

definition GetActiveSessionCount :: "Net \<Rightarrow> nat" where
  "GetActiveSessionCount net = length (m_activeSessions net)"

definition GetAllSessions :: "Net \<Rightarrow> nat list" where
  "GetAllSessions net = map snd (m_activeSessions net)"

section \<open>Framing lemmas\<close>

lemma length_uint32_bytes [simp]: "length (uint32_bytes w) = 4"
  by (simp add: uint32_bytes_def)

lemma memcpy_uint32_bytes: "memcpy_uint32 (uint32_bytes w @ rest) = w"
proof (rule bit_word_eqI)
  fix n
  assume "n < LENGTH(32)"
  then consider "n < 8" | "8 \<le> n" "n < 16" | "16 \<le> n" "n < 24" | "24 \<le> n" "n < 32" by fastforce
  then show "bit (memcpy_uint32 (uint32_bytes w @ rest)) n = bit w n"
    by cases (simp_all add: memcpy_uint32_def uint32_bytes_def bit_or_iff bit_push_bit_iff bit_ucast_iff bit_drop_bit_eq
        less_diff_conv2)
qed

text \<open>A body that the read loop accepts.\<close>

definition body_ok :: "byte list \<Rightarrow> bool" where
  "body_ok p \<longleftrightarrow> 0 < length p \<and> length p \<le> 100000"

lemma body_ok_word:
  assumes "body_ok p"
  shows "unat (of_nat (length p) :: uint32) = length p" "(of_nat (length p) :: uint32) \<noteq> 0"
    "\<not> MAX_BODY < of_nat (length p)"
proof -
  show u: "unat (of_nat (length p) :: uint32) = length p"
    using assms by (simp add: unat_of_nat body_ok_def)
  show "(of_nat (length p) :: uint32) \<noteq> 0"
    using assms u by (metis body_ok_def less_irrefl unat_0)
  show "\<not> MAX_BODY < of_nat (length p)"
    using assms u by (simp add: word_less_nat_alt MAX_BODY_def body_ok_def)
qed

lemma ReadLoop_frame:
  assumes "body_ok p"
  shows "ReadLoop (frame p @ rest) = (case ReadLoop rest of (ps, e) \<Rightarrow> (p # ps, e))"
  using body_ok_word [OF assms] memcpy_uint32_bytes [of "of_nat (length p)" "[]"]
  by (subst ReadLoop.simps) (simp add: frame_def Let_def)

lemma ReadLoop_frames:
  "list_all body_ok ps \<Longrightarrow> ReadLoop (concat (map frame ps) @ rest) = (ps @ fst (ReadLoop rest), snd (ReadLoop rest))"
  by (induction ps) (simp_all add: ReadLoop_frame split_beta)

lemma byte_bit_high [simp]: "8 \<le> k \<Longrightarrow> \<not> bit (a :: byte) k"
  using bit_imp_le_length [of a k] by auto

lemma memcpy_uint32_inj: "length bs = 4 \<Longrightarrow> uint32_bytes (memcpy_uint32 bs) = bs"
proof -
  assume "length bs = 4"
  then obtain a b c d where bs: "bs = [a, b, c, d]"
    by (auto simp: length_Suc_conv numeral_eq_Suc)
  have "ucast (memcpy_uint32 bs) = a" "ucast (drop_bit 8 (memcpy_uint32 bs)) = b"
    "ucast (drop_bit 16 (memcpy_uint32 bs)) = c" "ucast (drop_bit 24 (memcpy_uint32 bs)) = d"
    by (auto intro!: bit_word_eqI simp: bs memcpy_uint32_def bit_or_iff bit_push_bit_iff bit_ucast_iff bit_drop_bit_eq)
  then show ?thesis by (simp add: uint32_bytes_def bs)
qed

definition read_stops :: "byte list \<Rightarrow> bool" where
  "read_stops input \<longleftrightarrow> (let w = memcpy_uint32 (take 4 input) in
     length input < 4 \<or> w = 0 \<or> MAX_BODY < w \<or> length (drop 4 input) < unat w)"

lemma ReadLoop_stops: "read_stops input \<Longrightarrow> fst (ReadLoop input) = []"
  by (subst ReadLoop.simps) (auto simp: read_stops_def Let_def)

lemma ReadLoop_continues:
  "\<not> read_stops input \<Longrightarrow> n = unat (memcpy_uint32 (take 4 input)) \<Longrightarrow>
   ReadLoop input = (case ReadLoop (drop n (drop 4 input)) of (ps, e) \<Rightarrow> (take n (drop 4 input) # ps, e))"
  by (subst ReadLoop.simps) (simp add: read_stops_def Let_def)

text \<open>Everything the loop delivers was framed in the stream, in order.\<close>

lemma ReadLoop_sound:
  "list_all body_ok (fst (ReadLoop input)) \<and> (\<exists>rest. input = concat (map frame (fst (ReadLoop input))) @ rest)"
proof (induction input rule: ReadLoop.induct)
  case (1 input)
  let ?n = "unat (memcpy_uint32 (take 4 input))"
  let ?body = "take ?n (drop 4 input)" and ?tail = "drop ?n (drop 4 input)"
  show ?case
  proof (cases "read_stops input")
    case True
    then show ?thesis by (simp add: ReadLoop_stops)
  next
    case False
    then have len: "4 \<le> length input" "length ?body = ?n" "0 < ?n" "?n \<le> 100000"
      by (auto simp: read_stops_def Let_def MAX_BODY_def word_less_nat_alt unat_gt_0)
    have "list_all body_ok (fst (ReadLoop ?tail)) \<and> (\<exists>rest. ?tail = concat (map frame (fst (ReadLoop ?tail))) @ rest)"
      by (rule "1.IH" [OF _ refl _ refl refl]) (use False in \<open>auto simp: read_stops_def Let_def\<close>)
    then obtain rest where IH: "list_all body_ok (fst (ReadLoop ?tail))" "?tail = concat (map frame (fst (ReadLoop ?tail))) @ rest"
      by blast
    have "frame ?body = take 4 input @ ?body"
      using memcpy_uint32_inj [of "take 4 input"] len by (simp add: frame_def)
    then have "input = frame ?body @ ?tail" by (metis append_assoc append_take_drop_id)
    moreover have "body_ok ?body" using len by (simp add: body_ok_def)
    ultimately show ?thesis using IH ReadLoop_continues [OF False refl]
      by (auto simp: split_beta) (metis append_assoc)
  qed
qed

section \<open>Batches\<close>

definition framed_size :: "byte list list \<Rightarrow> nat" where
  "framed_size packets = sum_list (map (\<lambda>p. 4 + length p) packets)"

text \<open>
  A span never has \<open>2 ^ 63\<close> bytes or more.  Under that bound the overflow guard never fires by
  accident and the size limit is exact.
\<close>

lemma batch_size_iff:
  assumes "\<forall>p \<in> set packets. length p < 2 ^ 63" "unat tot \<le> 2 ^ 26"
  shows "batch_size tot packets =
    (if unat tot + framed_size packets \<le> 2 ^ 26 then Some (tot + of_nat (framed_size packets)) else None)"
  using assms
proof (induction packets arbitrary: tot)
  case Nil
  then show ?case by (simp add: framed_size_def)
next
  case (Cons p packets)
  have len: "length p < 2 ^ 63" using Cons.prems by simp
  then have u: "unat (of_nat (length p) :: uint64) = length p" by (simp add: unat_of_nat)
  have "(of_nat (length p) :: uint64) \<le> - 1 - 4" using len u by (simp add: word_le_nat_alt)
  then have "unat (- 1 - 4 - of_nat (length p) :: uint64) = 18446744073709551611 - length p"
    using u by (simp add: unat_sub)
  then have no_overflow: "\<not> tot > - 1 - 4 - of_nat (length p)"
    using Cons.prems(2) len by (simp add: word_less_nat_alt)
  have tot: "unat (tot + (4 + of_nat (length p))) = unat tot + (4 + length p)"
    using Cons.prems(2) len by (simp add: unat_word_ariths unat_of_nat)
  have lim: "tot + (4 + of_nat (length p)) > MAX_BATCH_SIZE \<longleftrightarrow> \<not> unat tot + (4 + length p) \<le> 2 ^ 26"
    unfolding word_less_nat_alt tot by (simp add: MAX_BATCH_SIZE_def not_le)
  have fs: "framed_size (p # packets) = 4 + length p + framed_size packets" by (simp add: framed_size_def)
  show ?case
  proof (cases "unat tot + (4 + length p) \<le> 2 ^ 26")
    case True
    have "batch_size (tot + (4 + of_nat (length p))) packets =
        (if unat (tot + (4 + of_nat (length p))) + framed_size packets \<le> 2 ^ 26
         then Some (tot + (4 + of_nat (length p)) + of_nat (framed_size packets)) else None)"
      using Cons.prems True by (intro Cons.IH) (simp, simp only: tot)
    then show ?thesis using True no_overflow lim unfolding tot by (simp add: fs Let_def add.assoc)
  next
    case False
    then show ?thesis using no_overflow lim by (simp add: fs Let_def)
  qed
qed

lemma SendBatch_iff:
  assumes "\<forall>p \<in> set packets. length p < 2 ^ 63"
  shows "SendBatch s packets = (if packets \<noteq> [] \<and> framed_size packets \<le> 2 ^ 26
    then s\<lparr>m_writeQueue := m_writeQueue s @ [concat (map frame packets)]\<rparr> else s)"
  using batch_size_iff [OF assms, of 0] by (simp add: SendBatch_def)

end
