(* ===== verification/Decimal.thy ===== *)
theory Decimal
  imports Prelude
begin

text \<open>
  The parts of the C++ string library that the sources use on numbers and on chat lines:
  \<open>std::to_string\<close>, \<open>std::stoll\<close>, \<open>std::string::find\<close> and \<open>substr\<close>, with the round trip
  from a number to its decimal string and back.
\<close>

section \<open>Printing\<close>

definition digit_char :: "nat \<Rightarrow> char" where
  "digit_char d = char_of (48 + d)"

fun to_string :: "nat \<Rightarrow> string" where
  "to_string n = (if n < 10 then [digit_char n] else to_string (n div 10) @ [digit_char (n mod 10)])"

declare to_string.simps [simp del]

definition to_string_int :: "int \<Rightarrow> string" where
  "to_string_int i = (if i < 0 then CHR ''-'' # to_string (nat (- i)) else to_string (nat i))"

section \<open>Parsing\<close>

text \<open>\<open>isspace\<close> in the default locale: tab, line feed, vertical tab, form feed, return, blank.\<close>

definition is_space :: "char \<Rightarrow> bool" where
  "is_space c \<longleftrightarrow> (of_char c :: nat) \<in> {9, 10, 11, 12, 13, 32}"

definition is_digit :: "char \<Rightarrow> bool" where
  "is_digit c \<longleftrightarrow> (48 :: nat) \<le> of_char c \<and> of_char c \<le> (57 :: nat)"

definition digits_value :: "string \<Rightarrow> nat" where
  "digits_value ds = foldl (\<lambda>v c. 10 * v + (of_char c - 48)) 0 ds"

datatype stoll_error = invalid_argument | out_of_range

text \<open>
  \<open>std::stoll\<close>: leading blanks, an optional sign, at least one digit; whatever follows the
  digits is ignored.
\<close>

definition stoll_sign :: "string \<Rightarrow> bool \<times> string" where
  "stoll_sign s = (case s of
      c # cs \<Rightarrow> if c = CHR ''-'' then (True, cs) else if c = CHR ''+'' then (False, cs) else (False, s)
    | [] \<Rightarrow> (False, s))"

definition stoll :: "string \<Rightarrow> stoll_error + int64" where
  "stoll s = (case stoll_sign (dropWhile is_space s) of (neg, body) \<Rightarrow>
     let ds = takeWhile is_digit body;
         v = (if neg then - int (digits_value ds) else int (digits_value ds))
     in if ds = [] then Inl invalid_argument
        else if v < - (2 ^ 63) \<or> 2 ^ 63 \<le> v then Inl out_of_range
        else Inr (word_of_int v))"

text \<open>\<open>find\<close> of one character; \<open>None\<close> is \<open>npos\<close>.\<close>

definition find_char :: "char \<Rightarrow> string \<Rightarrow> nat option" where
  "find_char c s = (if c \<in> set s then Some (length (takeWhile (\<lambda>x. x \<noteq> c) s)) else None)"

section \<open>Lemmas\<close>

lemma digit_char_code: "d < 10 \<Longrightarrow> of_char (digit_char d) = 48 + d" for d :: nat
  by (simp add: digit_char_def)

lemma is_digit_char [simp]: "d < 10 \<Longrightarrow> is_digit (digit_char d)"
  by (simp add: is_digit_def digit_char_code)

lemma to_string_digits: "to_string n \<noteq> [] \<and> list_all is_digit (to_string n)"
proof (induction n rule: to_string.induct)
  case (1 n)
  show ?case
  proof (cases "n < 10")
    case True
    then show ?thesis by (simp add: to_string.simps [of n])
  next
    case False
    then show ?thesis using 1 by (simp add: to_string.simps [of n])
  qed
qed

lemma digits_value_snoc: "digits_value (ds @ [c]) = 10 * digits_value ds + (of_char c - 48)"
  by (simp add: digits_value_def)

lemma digits_value_to_string: "digits_value (to_string n) = n"
proof (induction n rule: to_string.induct)
  case (1 n)
  show ?case
  proof (cases "n < 10")
    case True
    then show ?thesis by (simp add: to_string.simps [of n] digits_value_def digit_char_code)
  next
    case False
    then show ?thesis using 1 by (simp add: to_string.simps [of n] digits_value_snoc digit_char_code)
  qed
qed

lemma to_string_inj [simp]: "to_string m = to_string n \<longleftrightarrow> m = n"
  by (metis digits_value_to_string)

lemma digit_facts: "is_digit c \<Longrightarrow> \<not> is_space c \<and> c \<noteq> CHR ''-'' \<and> c \<noteq> CHR ''+'' \<and> c \<noteq> CHR ''|''"
  by (auto simp: is_digit_def is_space_def)

lemma takeWhile_digits:
  assumes "rest = [] \<or> \<not> is_digit (hd rest)"
  shows "takeWhile is_digit (to_string n @ rest) = to_string n"
proof -
  have "takeWhile is_digit rest = []" using assms by (cases rest) auto
  then show ?thesis using to_string_digits [of n] by (simp add: takeWhile_append2 list_all_iff)
qed

lemma stoll_body:
  assumes "rest = [] \<or> \<not> is_digit (hd rest)"
  shows "dropWhile is_space (to_string_int i @ rest) = to_string_int i @ rest"
    "stoll_sign (to_string_int i @ rest) = (i < 0, to_string (nat \<bar>i\<bar>) @ rest)"
proof -
  obtain c cs where c: "to_string (nat \<bar>i\<bar>) = c # cs" "is_digit c"
    using to_string_digits [of "nat \<bar>i\<bar>"] by (cases "to_string (nat \<bar>i\<bar>)") auto
  show "dropWhile is_space (to_string_int i @ rest) = to_string_int i @ rest"
    using c digit_facts [OF c(2)] by (auto simp: to_string_int_def is_space_def)
  show "stoll_sign (to_string_int i @ rest) = (i < 0, to_string (nat \<bar>i\<bar>) @ rest)"
    using c digit_facts [OF c(2)] by (auto simp: to_string_int_def stoll_sign_def)
qed

lemma stoll_to_string:
  assumes "rest = [] \<or> \<not> is_digit (hd rest)"
  shows "stoll (to_string_int (sint w) @ rest) = Inr (w :: int64)"
proof -
  have "- (2 ^ 63) \<le> sint w" "sint w < 2 ^ 63"
    using sint_greater_eq [of w] sint_less [of w] by simp_all
  then show ?thesis
    using to_string_digits [of "nat \<bar>sint w\<bar>"]
    by (simp add: stoll_def stoll_body [OF assms] takeWhile_digits [OF assms] digits_value_to_string Let_def)
qed

lemma find_char_append: "c \<notin> set s \<Longrightarrow> find_char c (s @ c # rest) = Some (length s)"
  by (simp add: find_char_def takeWhile_append)

lemma to_string_int_no_bar: "CHR ''|'' \<notin> set (to_string_int i)"
proof -
  have "\<not> is_digit (CHR ''|'')" by (simp add: is_digit_def)
  then show ?thesis using to_string_digits [of "nat \<bar>i\<bar>"] by (auto simp: to_string_int_def list_all_iff)
qed

end
