(* ===== verification/MemoryPools.thy ===== *)
theory MemoryPools
  imports Decimal
begin

text \<open>
  \<open>src/Utils/MemoryPool.h\<close> and \<open>MemoryPool.cpp\<close>: the pools of reusable objects, their RAII
  handles and the cache of player names.  \<open>FlatBufferBuilderPool\<close> and
  \<open>PlayerStateVectorPool\<close> are the same code over two element types, so both are instances
  of one record here: \<open>clear\<close> is the element's own reset and \<open>fresh\<close> what the factory
  builds.  A moved-from or null \<open>unique_ptr\<close> is \<open>None\<close>.
\<close>

section \<open>Object pools\<close>

record 'a pool =
  m_poolSize :: nat
  m_available :: "'a list"

definition mk_pool :: "nat \<Rightarrow> 'a \<Rightarrow> 'a pool" where
  "mk_pool poolSize fresh = \<lparr>m_poolSize = poolSize, m_available = replicate poolSize fresh\<rparr>"

definition Acquire :: "('a \<Rightarrow> 'a) \<Rightarrow> 'a \<Rightarrow> 'a pool \<Rightarrow> 'a \<times> 'a pool" where
  "Acquire clear fresh p = (case m_available p of
      x # xs \<Rightarrow> (clear x, p\<lparr>m_available := xs\<rparr>)
    | [] \<Rightarrow> (fresh, p))"

definition Release :: "('a \<Rightarrow> 'a) \<Rightarrow> 'a option \<Rightarrow> 'a pool \<Rightarrow> 'a pool" where
  "Release clear obj p = (case obj of
      None \<Rightarrow> p
    | Some x \<Rightarrow> if length (m_available p) < m_poolSize p
        then p\<lparr>m_available := m_available p @ [clear x]\<rparr> else p)"

definition GetAvailableCount :: "'a pool \<Rightarrow> nat" where
  "GetAvailableCount p = length (m_available p)"

text \<open>\<open>ObjectPool<T>\<close>, which hands objects out and takes them back as they are.\<close>

definition ObjectPool_Acquire :: "'a \<Rightarrow> 'a pool \<Rightarrow> 'a \<times> 'a pool" where
  "ObjectPool_Acquire fresh p = (case m_available p of
      x # xs \<Rightarrow> (x, p\<lparr>m_available := xs\<rparr>)
    | [] \<Rightarrow> (fresh, p))"

definition ObjectPool_Release :: "'a option \<Rightarrow> 'a pool \<Rightarrow> 'a pool" where
  "ObjectPool_Release obj p = (case obj of
      None \<Rightarrow> p
    | Some x \<Rightarrow> if length (m_available p) < m_poolSize p
        then p\<lparr>m_available := m_available p @ [x]\<rparr> else p)"

text \<open>
  The RAII handle: \<open>h_pool\<close> says whether it still refers to its pool, \<open>h_obj\<close> is the owned
  object.  Move construction and move assignment null the pool pointer of the source and take
  its object; move assignment first returns the target's own object.
\<close>

record 'a handle =
  h_pool :: bool
  h_obj :: "'a option"

definition mk_handle :: "('a \<Rightarrow> 'a) \<Rightarrow> 'a \<Rightarrow> 'a pool \<Rightarrow> 'a handle \<times> 'a pool" where
  "mk_handle clear fresh p = (case Acquire clear fresh p of
     (x, p') \<Rightarrow> (\<lparr>h_pool = True, h_obj = Some x\<rparr>, p'))"

definition destroy_handle :: "('a \<Rightarrow> 'a) \<Rightarrow> 'a handle \<Rightarrow> 'a pool \<Rightarrow> 'a pool" where
  "destroy_handle clear h p = (if h_pool h \<and> h_obj h \<noteq> None then Release clear (h_obj h) p else p)"

definition moved_from :: "'a handle" where
  "moved_from = \<lparr>h_pool = False, h_obj = None\<rparr>"

definition move_handle :: "'a handle \<Rightarrow> 'a handle \<times> 'a handle" where
  "move_handle other = (\<lparr>h_pool = h_pool other, h_obj = h_obj other\<rparr>, moved_from)"

definition move_assign :: "('a \<Rightarrow> 'a) \<Rightarrow> 'a handle \<Rightarrow> 'a handle \<Rightarrow> 'a pool \<Rightarrow> 'a handle \<times> 'a handle \<times> 'a pool" where
  "move_assign clear self other p =
     (let p' = (if h_pool self \<and> h_obj self \<noteq> None then Release clear (h_obj self) p else p)
      in (\<lparr>h_pool = h_pool other, h_obj = h_obj other\<rparr>, moved_from, p'))"

definition IsValid :: "'a handle \<Rightarrow> bool" where
  "IsValid h \<longleftrightarrow> h_obj h \<noteq> None"

text \<open>
  \<open>PlayerStateVectorPool\<close> and its handle: the element is a vector, \<open>clear\<close> empties it and
  \<open>CreateVector\<close> builds an empty one (its reserved capacity is not observable).
\<close>

definition mk_VectorPool :: "nat \<Rightarrow> 'a list pool" where
  "mk_VectorPool poolSize = mk_pool poolSize []"

definition VectorPool_Acquire :: "'a list pool \<Rightarrow> 'a list \<times> 'a list pool" where
  "VectorPool_Acquire = Acquire (\<lambda>_. []) []"

definition VectorPool_Release :: "'a list option \<Rightarrow> 'a list pool \<Rightarrow> 'a list pool" where
  "VectorPool_Release = Release (\<lambda>_. [])"

definition VectorPool_GetAvailableCount :: "'a list pool \<Rightarrow> nat" where
  "VectorPool_GetAvailableCount = GetAvailableCount"

definition mk_PooledVector :: "'a list pool \<Rightarrow> 'a list handle \<times> 'a list pool" where
  "mk_PooledVector = mk_handle (\<lambda>_. []) []"

definition destroy_PooledVector :: "'a list handle \<Rightarrow> 'a list pool \<Rightarrow> 'a list pool" where
  "destroy_PooledVector = destroy_handle (\<lambda>_. [])"

definition move_PooledVector :: "'a list handle \<Rightarrow> 'a list handle \<times> 'a list handle" where
  "move_PooledVector = move_handle"

definition assign_PooledVector ::
  "'a list handle \<Rightarrow> 'a list handle \<Rightarrow> 'a list pool \<Rightarrow> 'a list handle \<times> 'a list handle \<times> 'a list pool" where
  "assign_PooledVector = move_assign (\<lambda>_. [])"

section \<open>The name cache\<close>

type_synonym StringCache = "(uint64, string) umap"

definition MAX_CACHE_SIZE :: nat where "MAX_CACHE_SIZE = 10000"

definition player_label :: "uint64 \<Rightarrow> string" where
  "player_label playerId = ''Player_'' @ to_string (unat playerId)"

definition GetPlayerName :: "StringCache \<Rightarrow> uint64 \<Rightarrow> string \<times> StringCache" where
  "GetPlayerName c playerId = (case um_find c playerId of
      Some name \<Rightarrow> (name, c)
    | None \<Rightarrow> if length c < MAX_CACHE_SIZE
        then (let name = player_label playerId in (name, um_set c playerId name))
        else (player_label playerId, c))"

definition PrewarmCache :: "StringCache \<Rightarrow> nat \<Rightarrow> StringCache" where
  "PrewarmCache c maxPlayers =
     fold (\<lambda>i c. um_set c (of_nat i) (player_label (of_nat i))) [1..<Suc (min maxPlayers MAX_CACHE_SIZE)] c"

section \<open>The pool manager\<close>

text \<open>A builder is the bytes written so far; a vector holds the offsets of player states.\<close>

definition DEFAULT_BUILDER_POOL_SIZE :: nat where "DEFAULT_BUILDER_POOL_SIZE = 1024"
definition DEFAULT_VECTOR_POOL_SIZE :: nat where "DEFAULT_VECTOR_POOL_SIZE = 256"
definition DEFAULT_STRING_CACHE_SIZE :: nat where "DEFAULT_STRING_CACHE_SIZE = 1000"

record MemoryPoolManager =
  m_builderPool :: "byte list pool"
  m_vectorPool :: "uint32 list pool"
  m_stringCache :: StringCache

definition mk_MemoryPoolManager :: MemoryPoolManager where
  "mk_MemoryPoolManager = \<lparr>m_builderPool = mk_pool DEFAULT_BUILDER_POOL_SIZE [],
     m_vectorPool = mk_VectorPool DEFAULT_VECTOR_POOL_SIZE,
     m_stringCache = PrewarmCache [] DEFAULT_STRING_CACHE_SIZE\<rparr>"

definition GetPooledBuilder :: "MemoryPoolManager \<Rightarrow> byte list handle \<times> MemoryPoolManager" where
  "GetPooledBuilder m = (case mk_handle (\<lambda>_. []) [] (m_builderPool m) of (h, p) \<Rightarrow> (h, m\<lparr>m_builderPool := p\<rparr>))"

definition GetPooledVector :: "MemoryPoolManager \<Rightarrow> uint32 list handle \<times> MemoryPoolManager" where
  "GetPooledVector m = (case mk_PooledVector (m_vectorPool m) of (h, p) \<Rightarrow> (h, m\<lparr>m_vectorPool := p\<rparr>))"

section \<open>Invariants\<close>

definition pool_ok :: "('a \<Rightarrow> 'a) \<Rightarrow> 'a pool \<Rightarrow> bool" where
  "pool_ok clear p \<longleftrightarrow> length (m_available p) \<le> m_poolSize p \<and> list_all (\<lambda>x. clear x = x) (m_available p)"

definition cache_ok :: "StringCache \<Rightarrow> bool" where
  "cache_ok c \<longleftrightarrow> um_ok c \<and> length c \<le> MAX_CACHE_SIZE \<and> (\<forall>k n. um_find c k = Some n \<longrightarrow> n = player_label k)"

lemma GetPlayerName_ok: "cache_ok c \<Longrightarrow> fst (GetPlayerName c k) = player_label k \<and> cache_ok (snd (GetPlayerName c k))"
  using um.size_insert [of c k "player_label k"]
  by (auto simp: GetPlayerName_def cache_ok_def Let_def split: option.splits)

lemma Release_ok: "(\<And>x. clear (clear x) = clear x) \<Longrightarrow> pool_ok clear p \<Longrightarrow> pool_ok clear (Release clear obj p)"
  by (auto simp: Release_def pool_ok_def split: option.splits)

lemma Acquire_ok: "pool_ok clear p \<Longrightarrow> pool_ok clear (snd (Acquire clear fresh p))"
  by (auto simp: Acquire_def pool_ok_def split: list.splits)

end
