(* ===== verification/Game_Manager.thy ===== *)
theory Game_Manager
  imports Quad_Tree Players Sessions MemoryPools
begin

text \<open>
  \<open>src/Game/Managers/GameManager.h\<close> and \<open>GameManager.cpp\<close>: the authoritative simulation.
  The state is the manager's own record and the network state it sends through (\<open>Net\<close>).

  Parameters: \<open>enc\<close> is the FlatBuffers serialisation of a packet; clock readings and random
  draws arrive in environment records, one per command and one per loop iteration, so a run of
  the server is a sequence of environments.  The builder and vector pools only recycle buffers
  (an acquired builder is cleared and released at the end of each function), so the functions
  below do not thread them; the name cache, whose content is visible, is threaded.
\<close>

section \<open>State\<close>

record AOICache =
  visiblePlayers :: "uint64 list"
  lastUpdateTick :: uint64
  lastPosition :: Vec3

definition default_AOICache :: AOICache where
  "default_AOICache = \<lparr>visiblePlayers = [], lastUpdateTick = 0, lastPosition = vec3_zero\<rparr>"

text \<open>The times are microseconds.\<close>

record PerformanceStats =
  totalCommandsProcessed :: uint64
  totalAOIQueriesSkipped :: uint64
  totalAOIQueriesExecuted :: uint64
  totalCommandProcessingTime :: int
  totalWorldUpdateTime :: int
  totalSnapshotTime :: int

definition default_PerformanceStats :: PerformanceStats where
  "default_PerformanceStats = \<lparr>totalCommandsProcessed = 0, totalAOIQueriesSkipped = 0,
     totalAOIQueriesExecuted = 0, totalCommandProcessingTime = 0, totalWorldUpdateTime = 0, totalSnapshotTime = 0\<rparr>"

definition STATS_REPORT_INTERVAL :: uint64 where "STATS_REPORT_INTERVAL = 300"

record GameManager =
  gm_sessionManager :: bool \<comment> \<open>the pointer \<open>m_sessionManager\<close> is not null\<close>
  m_world :: World
  m_quadTree :: QuadTree
  m_running :: bool
  m_tickNumber :: uint64
  m_tickRate :: int
  m_tickDuration :: int \<comment> \<open>milliseconds\<close>
  m_aoiRange :: fp
  m_chatRange :: fp
  gm_moveSpeed :: fp
  m_mapWidth :: fp
  m_mapHeight :: fp
  m_commandBatchSize :: int
  m_maxProcessingTimeMs :: int
  m_aoiUpdateInterval :: int
  m_aoiPositionThreshold :: fp
  m_playerBatches :: "(uint64, byte list list) umap"
  m_aoiCache :: "(uint64, AOICache) umap"
  m_performanceStats :: PerformanceStats
  m_lastStatsReportTick :: uint64
  stringCache :: StringCache \<comment> \<open>\<open>MemoryPoolManager::Instance().GetStringCache()\<close>\<close>

section \<open>Configuration\<close>

text \<open>
  What \<open>LoadGameConfig\<close> can meet: no file, a file that does not parse, or a JSON value whose
  members are read in a fixed order.  An accessor yields \<open>None\<close> where \<open>get<float>\<close> or
  \<open>get<int>\<close> throws; \<open>cfg_batch\<close> is the result of the two \<open>value\<close> calls.
\<close>

record game_config =
  cfg_aoi_range :: "fp option"
  cfg_chat_range :: "fp option"
  cfg_move_speed :: "fp option"
  cfg_tick_rate :: "int option"
  cfg_width :: "fp option"
  cfg_height :: "fp option"
  cfg_batch :: "int option"

datatype config_file = NotOpen | ParseError | Parsed game_config

datatype config_outcome = Loaded | Defaulted | Aborted | DivisionByZero

text \<open>C++ integer division truncates.\<close>

definition cpp_div :: "int \<Rightarrow> int \<Rightarrow> int" where
  "cpp_div a b = sgn a * sgn b * (\<bar>a\<bar> div \<bar>b\<bar>)"

text \<open>
  Every assignment before the failing one stays.  \<open>1000 / m_tickRate\<close> with a zero rate is
  undefined behaviour (a hardware trap, not an exception).
\<close>

definition LoadGameConfig :: "config_file \<Rightarrow> GameManager \<Rightarrow> GameManager \<times> config_outcome" where
  "LoadGameConfig file gm = (case file of
      NotOpen \<Rightarrow> (gm, Defaulted)
    | ParseError \<Rightarrow> (gm, Aborted)
    | Parsed config \<Rightarrow>
        (case cfg_aoi_range config of None \<Rightarrow> (gm, Aborted) | Some v1 \<Rightarrow>
        (let gm = gm\<lparr>m_aoiRange := v1\<rparr> in
        (case cfg_chat_range config of None \<Rightarrow> (gm, Aborted) | Some v2 \<Rightarrow>
        (let gm = gm\<lparr>m_chatRange := v2\<rparr> in
        (case cfg_move_speed config of None \<Rightarrow> (gm, Aborted) | Some v3 \<Rightarrow>
        (let gm = gm\<lparr>gm_moveSpeed := v3\<rparr> in
        (case cfg_tick_rate config of None \<Rightarrow> (gm, Aborted) | Some v4 \<Rightarrow>
        (let gm = gm\<lparr>m_tickRate := v4\<rparr> in
        if v4 = 0 then (gm, DivisionByZero) else
        (let gm = gm\<lparr>m_tickDuration := cpp_div 1000 v4\<rparr> in
        (case cfg_width config of None \<Rightarrow> (gm, Aborted) | Some v5 \<Rightarrow>
        (let gm = gm\<lparr>m_mapWidth := v5\<rparr> in
        (case cfg_height config of None \<Rightarrow> (gm, Aborted) | Some v6 \<Rightarrow>
        (let gm = gm\<lparr>m_mapHeight := v6\<rparr> in
        (case cfg_batch config of None \<Rightarrow> (gm, Aborted) | Some v7 \<Rightarrow>
        (gm\<lparr>m_commandBatchSize := v7\<rparr>, Loaded))))))))))))))))"

text \<open>The members before the constructor body runs; the tree is a placeholder until it is built.\<close>

definition initial_GameManager :: "bool \<Rightarrow> StringCache \<Rightarrow> GameManager" where
  "initial_GameManager sm cache = \<lparr>gm_sessionManager = sm, m_world = [],
     m_quadTree = \<lparr>m_root = CreateNode (mk_Bounds (Fin 0) (Fin 0) (Fin 0) (Fin 0)), m_playerPositions = []\<rparr>,
     m_running = False, m_tickNumber = 0, m_tickRate = 30, m_tickDuration = 1000 div 30,
     m_aoiRange = Fin 100, m_chatRange = Fin 50, gm_moveSpeed = Fin 5, m_mapWidth = Fin 200, m_mapHeight = Fin 200,
     m_commandBatchSize = 500, m_maxProcessingTimeMs = 10, m_aoiUpdateInterval = 3, m_aoiPositionThreshold = Fin 10,
     m_playerBatches = [], m_aoiCache = [], m_performanceStats = default_PerformanceStats,
     m_lastStatsReportTick = 0, stringCache = cache\<rparr>"

text \<open>\<open>None\<close>: the process trapped, or the quad tree constructor threw.\<close>

definition mk_GameManager :: "bool \<Rightarrow> StringCache \<Rightarrow> config_file \<Rightarrow> GameManager option" where
  "mk_GameManager sm cache file = (case LoadGameConfig file (initial_GameManager sm cache) of
     (gm, outcome) \<Rightarrow> if outcome = DivisionByZero then None
       else (case mk_QuadTree (Fin 0) (Fin 0) (m_mapWidth gm) (m_mapHeight gm) of
         None \<Rightarrow> None
       | Some t \<Rightarrow> Some (gm\<lparr>m_world := [], m_quadTree := t\<rparr>)))"

section \<open>Start and stop\<close>

text \<open>The flag says whether the loop thread was started.\<close>

definition GM_Start :: "GameManager \<Rightarrow> GameManager \<times> bool" where
  "GM_Start gm = (if m_running gm then (gm, False) else (gm\<lparr>m_running := True\<rparr>, True))"

definition GM_Stop :: "GameManager \<Rightarrow> Net \<Rightarrow> GameManager \<times> Net" where
  "GM_Stop gm net = (if \<not> m_running gm then (gm, net)
     else (gm\<lparr>m_running := False\<rparr>, net\<lparr>gameLogicQueue := GLQ_Shutdown (gameLogicQueue net)\<rparr>))"

section \<open>Positions and directions\<close>

text \<open>\<open>disX\<close> and \<open>disY\<close> draw from \<open>std::uniform_real_distribution\<close> with the given bounds.\<close>

definition GetSpawnPosition :: "(fp \<Rightarrow> fp \<Rightarrow> fp) \<Rightarrow> (fp \<Rightarrow> fp \<Rightarrow> fp) \<Rightarrow> GameManager \<Rightarrow> Vec3" where
  "GetSpawnPosition disX disY gm =
     vec3 (disX (Fin 20) (f32_sub (m_mapWidth gm) (Fin 20))) (disY (Fin 20) (f32_sub (m_mapHeight gm) (Fin 20))) (Fin 0)"

definition IsValidPosition :: "GameManager \<Rightarrow> Vec3 \<Rightarrow> bool" where
  "IsValidPosition gm position \<longleftrightarrow>
     fp_le (Fin 0) (vx position) \<and> fp_lt (vx position) (m_mapWidth gm) \<and>
     fp_le (Fin 0) (vy position) \<and> fp_lt (vy position) (m_mapHeight gm)"

text \<open>\<open>0.7071067f\<close> is the binary32 number nearest to that decimal.\<close>

definition diag :: fp where "diag = Fin (5931641 / 8388608)"
definition minus_diag :: fp where "minus_diag = Fin (- 5931641 / 8388608)"

definition DIRECTION_TABLE :: "Vec3 list" where
  "DIRECTION_TABLE = [
     vec3 (Fin 0) (Fin 0) (Fin 0), vec3 (Fin 0) (Fin 1) (Fin 0),
     vec3 (Fin 0) (Fin (-1)) (Fin 0), vec3 (Fin 0) (Fin 0) (Fin 0),
     vec3 (Fin (-1)) (Fin 0) (Fin 0), vec3 minus_diag diag (Fin 0),
     vec3 minus_diag minus_diag (Fin 0), vec3 (Fin (-1)) (Fin 0) (Fin 0),
     vec3 (Fin 1) (Fin 0) (Fin 0), vec3 diag diag (Fin 0),
     vec3 diag minus_diag (Fin 0), vec3 (Fin 1) (Fin 0) (Fin 0),
     vec3 (Fin 0) (Fin 0) (Fin 0), vec3 (Fin 0) (Fin 1) (Fin 0),
     vec3 (Fin 0) (Fin (-1)) (Fin 0), vec3 (Fin 0) (Fin 0) (Fin 0)]"

definition GM_InputFlagsToDirection :: "uint8 \<Rightarrow> Vec3" where
  "GM_InputFlagsToDirection inputFlags = DIRECTION_TABLE ! unat (inputFlags AND 15)"

section \<open>Sending\<close>

text \<open>The idiom of the sources: look the session up, check that it is connected, send.\<close>

definition send_to :: "Net \<Rightarrow> uint64 \<Rightarrow> byte list \<Rightarrow> Net" where
  "send_to net sessionId bytes = (case GetSession net sessionId of
      None \<Rightarrow> net
    | Some a \<Rightarrow> if IsConnected (store net a) then upd_session net a (\<lambda>s. Send s bytes) else net)"

definition GetPlayersInAOI :: "GameManager \<Rightarrow> Vec3 \<Rightarrow> uint64 list" where
  "GetPlayersInAOI gm position = QT_Query (m_quadTree gm) position (m_aoiRange gm)"

definition near_player_info :: "GameManager \<Rightarrow> uint64 \<Rightarrow> uint64 \<Rightarrow> PlayerInfo list" where
  "near_player_info gm playerId nearPlayerId =
     (if nearPlayerId \<noteq> playerId then
        (case GetPlayer (m_world gm) nearPlayerId of
           None \<Rightarrow> []
         | Some nearPlayer \<Rightarrow> [CreatePlayerInfo nearPlayerId (Some (player_label nearPlayerId))
             (Some (m_position nearPlayer)) 100 100])
      else [])"

definition SendEnterZoneResponse ::
  "(UnifiedPacket \<Rightarrow> byte list) \<Rightarrow> GameManager \<Rightarrow> Net \<Rightarrow> uint64 \<Rightarrow> nat option \<Rightarrow> GameManager \<times> Net" where
  "SendEnterZoneResponse enc gm net playerId session =
     (case GetPlayer (m_world gm) playerId of
        None \<Rightarrow> (gm, net)
      | Some player \<Rightarrow>
         (case GetPlayerName (stringCache gm) playerId of (playerNameStr, cache) \<Rightarrow>
          let gm = gm\<lparr>stringCache := cache\<rparr>;
              playerInfo = CreatePlayerInfo playerId (Some playerNameStr) (Some (m_position player)) 100 100;
              nearPlayers = GetPlayersInAOI gm (m_position player);
              nearPlayerInfos = concat (map (near_player_info gm playerId) nearPlayers);
              packet = CreateUnifiedPacket PacketId_S_ZoneEntered (Packet_S_ZoneEntered 1 playerInfo nearPlayerInfos)
          in (gm, case session of
                None \<Rightarrow> net
              | Some a \<Rightarrow> if IsConnected (store net a) then upd_session net a (\<lambda>s. Send s (enc packet)) else net)))"

definition BroadcastPlayerJoined :: "(UnifiedPacket \<Rightarrow> byte list) \<Rightarrow> GameManager \<Rightarrow> Net \<Rightarrow> uint64 \<Rightarrow> Net" where
  "BroadcastPlayerJoined enc gm net playerId =
     (case GetPlayer (m_world gm) playerId of
        None \<Rightarrow> net
      | Some player \<Rightarrow>
         let playerInfo = CreatePlayerInfo playerId (Some (player_label playerId)) (Some (m_position player))
               (m_hp player) (m_maxHp player);
             packet = CreateUnifiedPacket PacketId_S_PlayerJoined (Packet_S_PlayerJoined playerInfo)
         in fold (\<lambda>(otherPlayerId, otherPlayer) net.
              if otherPlayerId \<noteq> playerId \<and> m_isActive otherPlayer
              then send_to net (m_sessionId otherPlayer) (enc packet) else net) (m_world gm) net)"

definition BroadcastPlayerLeft :: "(UnifiedPacket \<Rightarrow> byte list) \<Rightarrow> GameManager \<Rightarrow> Net \<Rightarrow> uint64 \<Rightarrow> Net" where
  "BroadcastPlayerLeft enc gm net playerId =
     (let packet = CreateUnifiedPacket PacketId_S_PlayerLeft (Packet_S_PlayerLeft playerId)
      in fold (\<lambda>(otherPlayerId, otherPlayer) net.
           if otherPlayerId \<noteq> playerId \<and> m_isActive otherPlayer
           then send_to net (m_sessionId otherPlayer) (enc packet) else net) (m_world gm) net)"

section \<open>Command handlers\<close>

text \<open>
  The environment of one command: the clock when the rate limit is checked, the clock when a
  time stamp is stored, and the two random distributions.
\<close>

record cmd_env =
  ce_check :: time_point
  ce_stamp :: time_point
  ce_disX :: "fp \<Rightarrow> fp \<Rightarrow> fp"
  ce_disY :: "fp \<Rightarrow> fp \<Rightarrow> fp"

text \<open>Whether \<open>HandlePlayerInput\<close> gets past its two guards.\<close>

definition input_accepted :: "cmd_env \<Rightarrow> Player \<Rightarrow> PlayerInputCommandData \<Rightarrow> bool" where
  "input_accepted env player data \<longleftrightarrow>
     IsInputAllowed (ce_check env) player \<and> \<not> pi_sequenceNumber data \<le> m_lastInputSequence player"

definition HandlePlayerInput :: "cmd_env \<Rightarrow> GameManager \<Rightarrow> PlayerInputCommandData \<Rightarrow> GameManager" where
  "HandlePlayerInput env gm data = (case GetPlayer (m_world gm) (pi_playerId data) of
      None \<Rightarrow> gm
    | Some player \<Rightarrow>
        if \<not> IsInputAllowed (ce_check env) player then gm
        else if pi_sequenceNumber data \<le> m_lastInputSequence player then gm
        else
          let player = UpdateLastInputTime (ce_stamp env) player;
              player = SetLastInputSequence player (pi_sequenceNumber data);
              player = SetCurrentInputFlags player (pi_inputFlags data);
              velocity = vec3_scale (GM_InputFlagsToDirection (pi_inputFlags data)) (gm_moveSpeed gm);
              player = SetVelocity player velocity
          in gm\<lparr>m_world := UpdatePlayer (m_world gm) (pi_playerId data) player\<rparr>)"

definition HandleEnterZone ::
  "(UnifiedPacket \<Rightarrow> byte list) \<Rightarrow> cmd_env \<Rightarrow> GameManager \<Rightarrow> Net \<Rightarrow> EnterZoneCommandData \<Rightarrow> nat option \<Rightarrow> GameManager \<times> Net" where
  "HandleEnterZone enc env gm net data session = (case GetPlayer (m_world gm) (ez_playerId data) of
      Some player \<Rightarrow>
        if m_isActive player then (gm, net)
        else
          let player = SetActive (ce_stamp env) player True;
              player = SetSessionId player (ez_sessionId data);
              gm = gm\<lparr>m_world := UpdatePlayer (m_world gm) (ez_playerId data) player,
                m_quadTree := QT_Insert (m_quadTree gm) (ez_playerId data) (m_position player)\<rparr>
          in (case SendEnterZoneResponse enc gm net (ez_playerId data) session of
                (gm, net) \<Rightarrow> (gm, BroadcastPlayerJoined enc gm net (ez_playerId data)))
    | None \<Rightarrow>
        let spawnPosition = GetSpawnPosition (ce_disX env) (ce_disY env) gm;
            newPlayer = mk_Player (ez_playerId data) (player_label (ez_playerId data)) spawnPosition;
            newPlayer = SetSessionId newPlayer (ez_sessionId data);
            gm = gm\<lparr>m_world := AddPlayer (m_world gm) newPlayer,
              m_quadTree := QT_Insert (m_quadTree gm) (ez_playerId data) spawnPosition\<rparr>
        in (case SendEnterZoneResponse enc gm net (ez_playerId data) session of
              (gm, net) \<Rightarrow> (gm, BroadcastPlayerJoined enc gm net (ez_playerId data))))"

definition HandlePlayerDisconnect ::
  "(UnifiedPacket \<Rightarrow> byte list) \<Rightarrow> cmd_env \<Rightarrow> GameManager \<Rightarrow> Net \<Rightarrow> PlayerDisconnectCommandData \<Rightarrow> GameManager \<times> Net" where
  "HandlePlayerDisconnect enc env gm net data = (case GetPlayer (m_world gm) (pd_playerId data) of
      None \<Rightarrow> (gm, net)
    | Some player \<Rightarrow>
        let player = SetActive (ce_stamp env) player False;
            player = SetLastInputSequence player 0;
            gm = gm\<lparr>m_world := UpdatePlayer (m_world gm) (pd_playerId data) player,
              m_quadTree := QT_Remove (m_quadTree gm) (pd_playerId data)\<rparr>
        in (gm, BroadcastPlayerLeft enc gm net (pd_playerId data)))"

definition ProcessGameCommand ::
  "(UnifiedPacket \<Rightarrow> byte list) \<Rightarrow> cmd_env \<Rightarrow> GameManager \<Rightarrow> Net \<Rightarrow> GameCommand \<Rightarrow> GameManager \<times> Net" where
  "ProcessGameCommand enc env gm net command =
     (if \<not> gm_sessionManager gm then (gm, net)
      else case payload command of
        PlayerDisconnectPayload d \<Rightarrow> HandlePlayerDisconnect enc env gm net d
      | other \<Rightarrow>
         (case GetSession net (senderSessionId command) of
            None \<Rightarrow> (gm, net)
          | Some session \<Rightarrow>
             (case other of
                PlayerInputPayload d \<Rightarrow> (HandlePlayerInput env gm d, net)
              | EnterZonePayload d \<Rightarrow> HandleEnterZone enc env gm net d (Some session)
              | _ \<Rightarrow> (gm, net))))"

section \<open>The command batch\<close>

text \<open>
  The collection loop.  \<open>expired i\<close> and \<open>running i\<close> are what iteration \<open>i\<close> reads from the
  clock and the flag; a command popped after the flag was cleared is dropped.
\<close>

function collect_commands ::
  "(nat \<Rightarrow> bool) \<Rightarrow> (nat \<Rightarrow> bool) \<Rightarrow> nat \<Rightarrow> GameCommand list \<Rightarrow> GameCommand shut_queue \<Rightarrow> GameCommand list \<times> GameCommand shut_queue" where
  "collect_commands expired running limit commandBatch q =
     (if length commandBatch < limit then
        if expired (length commandBatch) then (commandBatch, q)
        else (case TryPopGameCommand q of
            (None, q') \<Rightarrow> (commandBatch, q')
          | (Some c, q') \<Rightarrow> if \<not> running (length commandBatch) then (commandBatch, q')
              else collect_commands expired running limit (commandBatch @ [c]) q')
      else (commandBatch, q))"
  by pat_completeness auto
termination
  by (relation "measure (\<lambda>(e, r, limit, commandBatch, q). limit - length commandBatch)") auto

declare collect_commands.simps [simp del]

record tick_env =
  te_now :: time_point \<comment> \<open>\<open>currentTime\<close> of the loop iteration\<close>
  te_expired :: "nat \<Rightarrow> bool"
  te_running :: "nat \<Rightarrow> bool"
  te_cmd :: "nat \<Rightarrow> cmd_env"
  te_server :: time_point \<comment> \<open>the clock in \<open>SendWorldSnapshots\<close>\<close>
  te_commandStart :: int
  te_worldStart :: int
  te_snapshotStart :: int
  te_flushStart :: int

text \<open>A negative batch size makes \<open>reserve\<close> throw \<open>std::length_error\<close>: \<open>None\<close>.\<close>

definition ProcessPendingCommands ::
  "(UnifiedPacket \<Rightarrow> byte list) \<Rightarrow> tick_env \<Rightarrow> GameManager \<Rightarrow> Net \<Rightarrow> (GameManager \<times> Net) option" where
  "ProcessPendingCommands enc te gm net =
     (if m_commandBatchSize gm < 0 then None
      else case collect_commands (te_expired te) (te_running te) (nat (m_commandBatchSize gm)) [] (gameLogicQueue net) of
        (commandBatch, q) \<Rightarrow>
         (case fold (\<lambda>(i, command) (gm, net). ProcessGameCommand enc (te_cmd te i) gm net command)
             (enumerate 0 commandBatch) (gm, net\<lparr>gameLogicQueue := q\<rparr>) of
           (gm, net) \<Rightarrow> Some (if commandBatch = [] then gm
             else gm\<lparr>m_performanceStats := (m_performanceStats gm)
               \<lparr>totalCommandsProcessed := totalCommandsProcessed (m_performanceStats gm) + of_nat (length commandBatch)\<rparr>\<rparr>, net)))"

section \<open>World update\<close>

definition UpdateWorld :: "fp \<Rightarrow> GameManager \<Rightarrow> GameManager" where
  "UpdateWorld deltaTime gm =
     (let gm = gm\<lparr>m_world := World_Update deltaTime (m_world gm)\<rparr> in
      fold (\<lambda>(playerId, player) gm'.
          if m_isActive player then
            let newPos = vec3_add (m_position player) (vec3_scale (m_velocity player) deltaTime);
                player = (if IsValidPosition gm' newPos then SetPosition player newPos else player)
            in gm'\<lparr>m_world := UpdatePlayer (m_world gm') playerId player,
                 m_quadTree := QT_Update (m_quadTree gm') playerId (m_position player)\<rparr>
          else gm')
        (m_world gm) gm)"

section \<open>Area of interest\<close>

text \<open>
  The distance is computed in binary32; whether \<open>sqrt\<close> resolves to the \<open>float\<close> or the
  \<open>double\<close> overload, the value stored in the \<open>float\<close> is the correctly rounded root.
\<close>

definition distanceMoved :: "Vec3 \<Rightarrow> fp" where
  "distanceMoved positionDelta =
     f32_sqrt (f32_add (f32_mul (vx positionDelta) (vx positionDelta)) (f32_mul (vy positionDelta) (vy positionDelta)))"

definition ShouldUpdateAOI :: "GameManager \<Rightarrow> uint64 \<Rightarrow> Vec3 \<Rightarrow> bool" where
  "ShouldUpdateAOI gm playerId currentPosition = (case um_find (m_aoiCache gm) playerId of
      None \<Rightarrow> True
    | Some cache \<Rightarrow>
        if m_tickNumber gm - lastUpdateTick cache \<ge> word_of_int (m_aoiUpdateInterval gm) then True
        else if fp_le (m_aoiPositionThreshold gm) (distanceMoved (vec3_sub currentPosition (lastPosition cache))) then True
        else False)"

definition UpdateAOICache :: "GameManager \<Rightarrow> uint64 \<Rightarrow> Vec3 \<Rightarrow> uint64 list \<Rightarrow> GameManager" where
  "UpdateAOICache gm playerId position visible =
     (case um_index default_AOICache (m_aoiCache gm) playerId of
        (caches, cache) \<Rightarrow> gm\<lparr>m_aoiCache := um_set caches playerId
          (cache\<lparr>visiblePlayers := visible, lastUpdateTick := m_tickNumber gm, lastPosition := position\<rparr>)\<rparr>)"

definition count_executed :: "GameManager \<Rightarrow> GameManager" where
  "count_executed gm = gm\<lparr>m_performanceStats := (m_performanceStats gm)
     \<lparr>totalAOIQueriesExecuted := totalAOIQueriesExecuted (m_performanceStats gm) + 1\<rparr>\<rparr>"

definition count_skipped :: "GameManager \<Rightarrow> GameManager" where
  "count_skipped gm = gm\<lparr>m_performanceStats := (m_performanceStats gm)
     \<lparr>totalAOIQueriesSkipped := totalAOIQueriesSkipped (m_performanceStats gm) + 1\<rparr>\<rparr>"

definition GetCachedPlayersInAOI :: "GameManager \<Rightarrow> uint64 \<Rightarrow> Vec3 \<Rightarrow> uint64 list \<times> GameManager" where
  "GetCachedPlayersInAOI gm playerId position =
     (if ShouldUpdateAOI gm playerId position then
        let visible = GetPlayersInAOI gm position
        in (visible, count_executed (UpdateAOICache gm playerId position visible))
      else case um_find (m_aoiCache gm) playerId of
          Some cache \<Rightarrow> (visiblePlayers cache, count_skipped gm)
        | None \<Rightarrow>
            let visible = GetPlayersInAOI gm position
            in (visible, count_executed (UpdateAOICache gm playerId position visible)))"

section \<open>Snapshots and batches\<close>

definition AddToPlayerBatch :: "GameManager \<Rightarrow> uint64 \<Rightarrow> byte list \<Rightarrow> GameManager" where
  "AddToPlayerBatch gm playerId packetData =
     (case um_index [] (m_playerBatches gm) playerId of
        (batches, packets) \<Rightarrow> gm\<lparr>m_playerBatches := um_set batches playerId (packets @ [packetData])\<rparr>)"

text \<open>The fourth argument of \<open>CreatePlayerState\<close> is the rotation; the source passes \<open>IsActive()\<close>.\<close>

definition player_state :: "GameManager \<Rightarrow> uint64 \<Rightarrow> PlayerState list" where
  "player_state gm visiblePlayerId = (case GetPlayer (m_world gm) visiblePlayerId of
      None \<Rightarrow> []
    | Some player \<Rightarrow> [CreatePlayerState visiblePlayerId (Some (m_position player)) (Some (m_velocity player))
        (if m_isActive player then Fin 1 else Fin 0)])"

definition snapshot_packet :: "GameManager \<Rightarrow> uint64 list \<Rightarrow> uint64 \<Rightarrow> UnifiedPacket" where
  "snapshot_packet gm visible serverTime =
     CreateUnifiedPacket PacketId_S_WorldSnapshot (Packet_S_WorldSnapshot
       \<lparr>snap_tick_number = m_tickNumber gm, snap_server_time = serverTime,
        snap_player_states = concat (map (player_state gm) visible), snap_events = []\<rparr>)"

definition AddSnapshotToPlayerBatch ::
  "(UnifiedPacket \<Rightarrow> byte list) \<Rightarrow> GameManager \<Rightarrow> uint64 \<Rightarrow> uint64 list \<Rightarrow> uint64 \<Rightarrow> GameManager" where
  "AddSnapshotToPlayerBatch enc gm playerId visible serverTime =
     AddToPlayerBatch gm playerId (enc (snapshot_packet gm visible serverTime))"

definition SendWorldSnapshots :: "(UnifiedPacket \<Rightarrow> byte list) \<Rightarrow> time_point \<Rightarrow> GameManager \<Rightarrow> GameManager" where
  "SendWorldSnapshots enc now gm =
     (let gm = gm\<lparr>m_tickNumber := m_tickNumber gm + 1\<rparr>;
          currentServerTime = GetCurrentTimestamp now
      in fold (\<lambda>(playerId, player) gm.
          if m_isActive player then
            (case GetCachedPlayersInAOI gm playerId (m_position player) of
               (visible, gm) \<Rightarrow> AddSnapshotToPlayerBatch enc gm playerId visible currentServerTime)
          else gm)
        (m_world gm) gm)"

definition flush_batch :: "GameManager \<Rightarrow> uint64 \<Rightarrow> byte list list \<Rightarrow> Net \<Rightarrow> Net" where
  "flush_batch gm playerId packets net =
     (if packets = [] then net
      else case GetPlayer (m_world gm) playerId of
        None \<Rightarrow> net
      | Some player \<Rightarrow>
         (case GetSession net (m_sessionId player) of
            None \<Rightarrow> net
          | Some a \<Rightarrow> if \<not> IsConnected (store net a) then net
              else upd_session net a (\<lambda>s. SendBatch s packets)))"

definition FlushAllBatches :: "GameManager \<Rightarrow> Net \<Rightarrow> GameManager \<times> Net" where
  "FlushAllBatches gm net =
     (gm\<lparr>m_playerBatches := map (\<lambda>(playerId, packets). (playerId, [])) (m_playerBatches gm)\<rparr>,
      fold (\<lambda>(playerId, packets) net. flush_batch gm playerId packets net) (m_playerBatches gm) net)"

definition ReportPerformanceStats :: "GameManager \<Rightarrow> GameManager" where
  "ReportPerformanceStats gm = gm\<lparr>m_performanceStats := default_PerformanceStats\<rparr>"

section \<open>The game loop\<close>

definition add_times :: "tick_env \<Rightarrow> GameManager \<Rightarrow> GameManager" where
  "add_times te gm = (let st = m_performanceStats gm in gm\<lparr>m_performanceStats := st\<lparr>
     totalCommandProcessingTime := totalCommandProcessingTime st + duration_cast ns_per_us (te_worldStart te - te_commandStart te),
     totalWorldUpdateTime := totalWorldUpdateTime st + duration_cast ns_per_us (te_snapshotStart te - te_worldStart te),
     totalSnapshotTime := totalSnapshotTime st + duration_cast ns_per_us (te_flushStart te - te_snapshotStart te)\<rparr>\<rparr>)"

definition report_if_due :: "GameManager \<Rightarrow> GameManager" where
  "report_if_due gm =
     (if m_tickNumber gm - m_lastStatsReportTick gm \<ge> STATS_REPORT_INTERVAL
      then (ReportPerformanceStats gm)\<lparr>m_lastStatsReportTick := m_tickNumber gm\<rparr> else gm)"

text \<open>\<open>deltaTime.count() / 1000.0f\<close>: the count is converted to \<open>float\<close> first.\<close>

definition delta_seconds :: "int \<Rightarrow> fp" where
  "delta_seconds ms = f32_div (fp_of binary32 (of_int ms)) (Fin 1000)"

text \<open>
  One iteration of the loop body; the result carries \<open>lastTickTime\<close>.  An exception leaves the
  rest of the tick out and \<open>lastTickTime\<close> unchanged.
\<close>

definition GameLoop_iteration ::
  "(UnifiedPacket \<Rightarrow> byte list) \<Rightarrow> tick_env \<Rightarrow> time_point \<Rightarrow> GameManager \<Rightarrow> Net \<Rightarrow> time_point \<times> GameManager \<times> Net" where
  "GameLoop_iteration enc te lastTickTime gm net =
     (let deltaTime = duration_cast ns_per_ms (te_now te - lastTickTime) in
      if deltaTime \<ge> m_tickDuration gm then
        (case ProcessPendingCommands enc te gm net of
           None \<Rightarrow> (lastTickTime, gm, net)
         | Some (gm, net) \<Rightarrow>
             let gm = UpdateWorld (delta_seconds deltaTime) gm;
                 gm = SendWorldSnapshots enc (te_server te) gm
             in (case FlushAllBatches gm net of (gm, net) \<Rightarrow>
                 (te_now te, report_if_due (add_times te gm), net)))
      else (lastTickTime, gm, net))"

end
