(* ===== verification/Game_Invariant.thy ===== *)
theory Game_Invariant
  imports Game_Manager
begin

text \<open>
  The invariant of the simulation: the quad tree indexes exactly the active players, each at
  its current position, and every player is inside the map.  Every handler, every part of a
  tick and the whole loop keep it.
\<close>

section \<open>The invariant\<close>

definition indexed :: "World \<Rightarrow> uint64 \<Rightarrow> Vec3 option" where
  "indexed w k = (case GetPlayer w k of Some p \<Rightarrow> if m_isActive p then Some (m_position p) else None | None \<Rightarrow> None)"

definition sim_ok :: "(Vec3 \<Rightarrow> bool) \<Rightarrow> World \<Rightarrow> QuadTree \<Rightarrow> bool" where
  "sim_ok valid w t \<longleftrightarrow> world_ok w \<and> qt_ok t \<and> qt_valid t = valid \<and> qt_at t = indexed w \<and>
     (\<forall>k p. GetPlayer w k = Some p \<longrightarrow> valid (m_position p))"

definition gm_ok :: "GameManager \<Rightarrow> bool" where
  "gm_ok gm \<longleftrightarrow> sim_ok (IsValidPosition gm) (m_world gm) (m_quadTree gm) \<and>
     um_ok (m_aoiCache gm) \<and> um_ok (m_playerBatches gm) \<and> cache_ok (stringCache gm)"

text \<open>The map boundaries depend on the two extents only.\<close>

lemma IsValidPosition_cong:
  "m_mapWidth gm' = m_mapWidth gm \<Longrightarrow> m_mapHeight gm' = m_mapHeight gm \<Longrightarrow> IsValidPosition gm' = IsValidPosition gm"
  by (simp add: IsValidPosition_def fun_eq_iff)

lemma IsValidPosition_frame [simp]:
  "IsValidPosition (gm\<lparr>m_world := w\<rparr>) = IsValidPosition gm"
  "IsValidPosition (gm\<lparr>m_quadTree := t\<rparr>) = IsValidPosition gm"
  "IsValidPosition (gm\<lparr>m_aoiCache := c\<rparr>) = IsValidPosition gm"
  "IsValidPosition (gm\<lparr>m_playerBatches := b\<rparr>) = IsValidPosition gm"
  "IsValidPosition (gm\<lparr>m_performanceStats := s\<rparr>) = IsValidPosition gm"
  "IsValidPosition (gm\<lparr>m_tickNumber := n\<rparr>) = IsValidPosition gm"
  "IsValidPosition (gm\<lparr>m_lastStatsReportTick := n\<rparr>) = IsValidPosition gm"
  "IsValidPosition (gm\<lparr>stringCache := sc\<rparr>) = IsValidPosition gm"
  "IsValidPosition (gm\<lparr>m_running := r\<rparr>) = IsValidPosition gm"
  by (simp_all add: IsValidPosition_def fun_eq_iff)

lemma valid_fin: "IsValidPosition gm v \<Longrightarrow> is_fin (vx v) \<and> is_fin (vy v)"
  unfolding IsValidPosition_def
  by (cases "vx v"; cases "vy v"; cases "m_mapWidth gm"; cases "m_mapHeight gm") auto

lemma AddPlayer_UpdatePlayer: "AddPlayer w p = UpdatePlayer w (m_playerId p) p"
  by (simp add: AddPlayer_def UpdatePlayer_def)

lemma indexed_UpdatePlayer:
  "indexed (UpdatePlayer w k p) = (indexed w)(k := if m_isActive p then Some (m_position p) else None)"
  by (auto simp: indexed_def fun_eq_iff)

section \<open>The four ways a player changes\<close>

lemma sim_ok_move:
  assumes "sim_ok valid w t" "m_playerId p = k" "m_isActive p" "valid (m_position p)"
  shows "sim_ok valid (UpdatePlayer w k p) (QT_Update t k (m_position p))"
proof -
  have "qt_ok t" "qt_valid t (m_position p)" using assms by (auto simp: sim_ok_def)
  from qt.move [OF this, of k] show ?thesis using assms
    by (auto simp: sim_ok_def indexed_UpdatePlayer world_ok_UpdatePlayer)
qed

lemma sim_ok_enter:
  assumes "sim_ok valid w t" "m_playerId p = k" "m_isActive p" "valid (m_position p)" "indexed w k = None"
  shows "sim_ok valid (UpdatePlayer w k p) (QT_Insert t k (m_position p))"
proof -
  have pre: "qt_ok t" "qt_at t k = None" "qt_valid t (m_position p)" using assms by (auto simp: sim_ok_def)
  from qt.add [OF pre] qt.valid_add [OF pre] show ?thesis using assms
    by (auto simp: sim_ok_def indexed_UpdatePlayer world_ok_UpdatePlayer)
qed

lemma sim_ok_leave:
  assumes "sim_ok valid w t" "m_playerId p = k" "\<not> m_isActive p" "valid (m_position p)"
  shows "sim_ok valid (UpdatePlayer w k p) (QT_Remove t k)"
proof -
  have "qt_ok t" using assms by (simp add: sim_ok_def)
  from qt.del [OF this, of k] qt.valid_del [OF this, of k] show ?thesis using assms
    by (auto simp: sim_ok_def indexed_UpdatePlayer world_ok_UpdatePlayer)
qed

lemma sim_ok_input:
  assumes "sim_ok valid w t" "GetPlayer w k = Some q" "m_playerId p = k"
    and "m_isActive p = m_isActive q" "m_position p = m_position q"
  shows "sim_ok valid (UpdatePlayer w k p) t"
proof -
  have "indexed (UpdatePlayer w k p) = indexed w"
    using assms(2,4,5) by (auto simp: indexed_UpdatePlayer fun_eq_iff) (simp_all add: indexed_def)
  then show ?thesis using assms by (auto simp: sim_ok_def world_ok_UpdatePlayer)
qed

lemma sim_ok_player: "sim_ok valid w t \<Longrightarrow> GetPlayer w k = Some p \<Longrightarrow> m_playerId p = k \<and> valid (m_position p)"
  by (simp add: sim_ok_def world_ok_def)

lemma gm_ok_player: "gm_ok gm \<Longrightarrow> GetPlayer (m_world gm) k = Some p \<Longrightarrow> m_playerId p = k \<and> IsValidPosition gm (m_position p)"
  unfolding gm_ok_def using sim_ok_player by blast

section \<open>Handlers\<close>

lemmas player_setters = SetPosition_def SetVelocity_def SetCurrentInputFlags_def SetLastInputSequence_def
  SetSessionId_def SetActive_def UpdateLastInputTime_def mk_Player_def Let_def

lemma gm_okI:
  assumes "gm_ok gm" "sim_ok (IsValidPosition gm) (m_world gm') (m_quadTree gm')"
    and "m_mapWidth gm' = m_mapWidth gm" "m_mapHeight gm' = m_mapHeight gm"
    and "m_aoiCache gm' = m_aoiCache gm" "m_playerBatches gm' = m_playerBatches gm" "stringCache gm' = stringCache gm"
  shows "gm_ok gm'"
  using assms by (simp add: gm_ok_def IsValidPosition_cong [OF assms(3,4)])

lemma HandlePlayerInput_ok:
  assumes "gm_ok gm"
  shows "gm_ok (HandlePlayerInput env gm data)"
proof (cases "GetPlayer (m_world gm) (pi_playerId data)")
  case (Some p)
  have "sim_ok (IsValidPosition gm) (UpdatePlayer (m_world gm) (pi_playerId data) q) (m_quadTree gm)"
    if "m_playerId q = m_playerId p" "m_isActive q = m_isActive p" "m_position q = m_position p" for q
    using that assms gm_ok_player [OF assms Some] Some by (intro sim_ok_input [of _ _ _ _ p]) (simp_all add: gm_ok_def)
  then show ?thesis using assms Some
    by (simp add: HandlePlayerInput_def player_setters gm_ok_def)
qed (simp add: HandlePlayerInput_def assms)

lemma SendEnterZoneResponse_fst:
  "fst (SendEnterZoneResponse enc gm net k s) = (case GetPlayer (m_world gm) k of None \<Rightarrow> gm
     | Some p \<Rightarrow> gm\<lparr>stringCache := snd (GetPlayerName (stringCache gm) k)\<rparr>)"
  by (simp add: SendEnterZoneResponse_def Let_def split_beta split: option.split)

lemma SendEnterZoneResponse_frame:
  "gm_ok gm \<Longrightarrow> gm_ok (fst (SendEnterZoneResponse enc gm net k s))"
  using GetPlayerName_ok [of "stringCache gm" k]
  by (simp add: SendEnterZoneResponse_fst gm_ok_def split: option.split)

text \<open>The documented behaviour of \<open>std::uniform_real_distribution\<close>: a value in \<open>[a, b)\<close>.\<close>

definition draws_in_range :: "(fp \<Rightarrow> fp \<Rightarrow> fp) \<Rightarrow> bool" where
  "draws_in_range dis \<longleftrightarrow> (\<forall>a b. fp_lt a b \<longrightarrow> fp_le a (dis a b) \<and> fp_lt (dis a b) b)"

text \<open>The map is large enough for the spawn margin of 20 on each side, and its extents are floats.\<close>

definition spawn_extent :: "fp \<Rightarrow> bool" where
  "spawn_extent w \<longleftrightarrow> fp_lt (Fin 20) (f32_sub w (Fin 20)) \<and> fp_conv binary32 w = w"

definition roomy :: "GameManager \<Rightarrow> bool" where
  "roomy gm \<longleftrightarrow> spawn_extent (m_mapWidth gm) \<and> spawn_extent (m_mapHeight gm)"

definition env_ok :: "cmd_env \<Rightarrow> bool" where
  "env_ok env \<longleftrightarrow> draws_in_range (ce_disX env) \<and> draws_in_range (ce_disY env)"

lemma fp_lt_le_trans: "fp_lt a b \<Longrightarrow> fp_le b c \<Longrightarrow> fp_lt a c"
  by (cases a; cases b; cases c) (auto split: if_splits)

lemma spawn_extent_sub: "spawn_extent w \<Longrightarrow> fp_le (f32_sub w (Fin 20)) w"
proof (cases w)
  case (Fin x)
  assume "spawn_extent w"
  then have "fp_of binary32 x = Fin x" using Fin by (simp add: spawn_extent_def)
  moreover have "fp_le (fp_of binary32 (x - 20)) (fp_of binary32 x)" by (rule fp_of_mono) (simp_all add: binary32_def)
  ultimately show ?thesis by (simp add: Fin)
qed (simp_all add: spawn_extent_def fp_sub_def)

lemma spawn_coordinate:
  assumes "spawn_extent w" "draws_in_range dis"
  shows "fp_le (Fin 0) (dis (Fin 20) (f32_sub w (Fin 20))) \<and> fp_lt (dis (Fin 20) (f32_sub w (Fin 20))) w"
proof -
  have d: "fp_le (Fin 20) (dis (Fin 20) (f32_sub w (Fin 20)))" "fp_lt (dis (Fin 20) (f32_sub w (Fin 20))) (f32_sub w (Fin 20))"
    using assms by (auto simp: spawn_extent_def draws_in_range_def)
  have "fp_le (Fin 0) (Fin 20)" by simp
  then show ?thesis using d fp_le_trans fp_lt_le_trans spawn_extent_sub [OF assms(1)] by blast
qed

lemma GetSpawnPosition_valid:
  "roomy gm \<Longrightarrow> env_ok env \<Longrightarrow> IsValidPosition gm (GetSpawnPosition (ce_disX env) (ce_disY env) gm)"
  by (simp add: GetSpawnPosition_def IsValidPosition_def roomy_def env_ok_def spawn_coordinate)

lemma HandleEnterZone_ok:
  assumes ok: "gm_ok gm" and room: "roomy gm" "env_ok env"
  shows "gm_ok (fst (HandleEnterZone enc env gm net data s))"
proof (cases "GetPlayer (m_world gm) (ez_playerId data)")
  case None
  let ?pos = "GetSpawnPosition (ce_disX env) (ce_disY env) gm"
  let ?p = "SetSessionId (mk_Player (ez_playerId data) (player_label (ez_playerId data)) ?pos) (ez_sessionId data)"
  let ?gm = "gm\<lparr>m_world := AddPlayer (m_world gm) ?p, m_quadTree := QT_Insert (m_quadTree gm) (ez_playerId data) ?pos\<rparr>"
  have "indexed (m_world gm) (ez_playerId data) = None" using None by (simp add: indexed_def)
  then have "sim_ok (IsValidPosition gm) (UpdatePlayer (m_world gm) (ez_playerId data) ?p)
      (QT_Insert (m_quadTree gm) (ez_playerId data) (m_position ?p))"
    using ok GetSpawnPosition_valid [OF room] by (intro sim_ok_enter) (simp_all add: gm_ok_def player_setters)
  then have "gm_ok ?gm" using ok
    by (intro gm_okI [OF ok]) (simp_all add: AddPlayer_UpdatePlayer player_setters)
  then show ?thesis using None SendEnterZoneResponse_frame [of ?gm enc net "ez_playerId data" s]
    by (simp add: HandleEnterZone_def Let_def split_beta)
next
  case (Some p)
  let ?p = "SetSessionId (SetActive (ce_stamp env) p True) (ez_sessionId data)"
  let ?gm = "gm\<lparr>m_world := UpdatePlayer (m_world gm) (ez_playerId data) ?p,
      m_quadTree := QT_Insert (m_quadTree gm) (ez_playerId data) (m_position ?p)\<rparr>"
  show ?thesis
  proof (cases "m_isActive p")
    case True
    then show ?thesis using ok Some by (simp add: HandleEnterZone_def)
  next
    case False
    have p: "m_playerId p = ez_playerId data" "IsValidPosition gm (m_position p)"
      using gm_ok_player [OF ok Some] by simp_all
    have "indexed (m_world gm) (ez_playerId data) = None" using Some False by (simp add: indexed_def)
    then have "gm_ok ?gm" using ok p
      by (intro gm_okI [OF ok]) (simp_all, intro sim_ok_enter, simp_all add: gm_ok_def player_setters)
    then show ?thesis using Some False SendEnterZoneResponse_frame [of ?gm enc net "ez_playerId data" s]
      by (simp add: HandleEnterZone_def Let_def split_beta)
  qed
qed

lemma HandlePlayerDisconnect_ok:
  assumes "gm_ok gm"
  shows "gm_ok (fst (HandlePlayerDisconnect enc env gm net data))"
proof (cases "GetPlayer (m_world gm) (pd_playerId data)")
  case (Some p)
  have "sim_ok (IsValidPosition gm) (UpdatePlayer (m_world gm) (pd_playerId data) q) (QT_Remove (m_quadTree gm) (pd_playerId data))"
    if "m_playerId q = m_playerId p" "\<not> m_isActive q" "m_position q = m_position p" for q
    using that assms gm_ok_player [OF assms Some] by (intro sim_ok_leave) (simp_all add: gm_ok_def)
  then show ?thesis using assms Some
    by (simp add: HandlePlayerDisconnect_def player_setters gm_ok_def)
qed (simp add: HandlePlayerDisconnect_def assms)

lemma ProcessGameCommand_ok:
  "gm_ok gm \<Longrightarrow> roomy gm \<Longrightarrow> env_ok env \<Longrightarrow> gm_ok (fst (ProcessGameCommand enc env gm net c))"
  using HandlePlayerInput_ok HandleEnterZone_ok HandlePlayerDisconnect_ok
  by (auto simp: ProcessGameCommand_def split: GameCommandPayload.splits option.splits)

section \<open>World update\<close>

text \<open>What one tick does to a player, and that the loop does it to each player once.\<close>

definition moved :: "GameManager \<Rightarrow> fp \<Rightarrow> Player \<Rightarrow> Player" where
  "moved gm dt p = (let newPos = vec3_add (m_position p) (vec3_scale (m_velocity p) dt) in
     if m_isActive p \<and> IsValidPosition gm newPos then SetPosition p newPos else p)"

lemma moved_simps [simp]: "m_playerId (moved gm dt p) = m_playerId p" "m_isActive (moved gm dt p) = m_isActive p"
  by (simp_all add: moved_def SetPosition_def Let_def)

lemma moved_valid: "IsValidPosition gm (m_position p) \<Longrightarrow> IsValidPosition gm (m_position (moved gm dt p))"
  by (simp add: moved_def SetPosition_def Let_def)

definition update_player :: "fp \<Rightarrow> uint64 \<times> Player \<Rightarrow> GameManager \<Rightarrow> GameManager" where
  "update_player dt kp gm = (case kp of (k, p) \<Rightarrow> if m_isActive p then
     gm\<lparr>m_world := UpdatePlayer (m_world gm) k (moved gm dt p),
       m_quadTree := QT_Update (m_quadTree gm) k (m_position (moved gm dt p))\<rparr> else gm)"

lemma UpdateWorld_fold: "UpdateWorld dt gm = fold (update_player dt) (m_world gm) gm"
proof -
  have "(\<lambda>(playerId, player) gm'.
          if m_isActive player then
            let newPos = vec3_add (m_position player) (vec3_scale (m_velocity player) dt);
                player = (if IsValidPosition gm' newPos then SetPosition player newPos else player)
            in gm'\<lparr>m_world := UpdatePlayer (m_world gm') playerId player,
                 m_quadTree := QT_Update (m_quadTree gm') playerId (m_position player)\<rparr>
          else gm') = update_player dt"
    by (auto simp: update_player_def moved_def Let_def fun_eq_iff)
  then show ?thesis by (simp add: UpdateWorld_def)
qed

lemma update_player_frame:
  "m_aoiCache (update_player dt kp gm) = m_aoiCache gm \<and> m_playerBatches (update_player dt kp gm) = m_playerBatches gm \<and>
   stringCache (update_player dt kp gm) = stringCache gm \<and> IsValidPosition (update_player dt kp gm) = IsValidPosition gm \<and>
   m_mapWidth (update_player dt kp gm) = m_mapWidth gm \<and> m_mapHeight (update_player dt kp gm) = m_mapHeight gm"
  by (simp add: update_player_def split: prod.split)

lemma moved_frame: "moved (update_player dt' kp gm) dt p = moved gm dt p"
  by (simp add: moved_def update_player_frame)

lemma update_player_ok:
  assumes "gm_ok gm" "GetPlayer (m_world gm) k = Some p"
  shows "gm_ok (update_player dt (k, p) gm)"
    "GetPlayer (m_world (update_player dt (k, p) gm)) = (GetPlayer (m_world gm))(k \<mapsto> moved gm dt p)"
proof -
  note p = gm_ok_player [OF assms]
  show "gm_ok (update_player dt (k, p) gm)"
    using assms p sim_ok_move [of "IsValidPosition gm" "m_world gm" "m_quadTree gm" "moved gm dt p" k]
      moved_valid [of gm p dt]
    by (simp add: update_player_def gm_ok_def)
  show "GetPlayer (m_world (update_player dt (k, p) gm)) = (GetPlayer (m_world gm))(k \<mapsto> moved gm dt p)"
    using assms(2) by (auto simp: update_player_def moved_def fun_eq_iff)
qed

lemma update_players_ok:
  assumes "gm_ok gm" "distinct (map fst kps)" "\<forall>(k, p) \<in> set kps. GetPlayer (m_world gm) k = Some p"
  shows "gm_ok (fold (update_player dt) kps gm) \<and>
    GetPlayer (m_world (fold (update_player dt) kps gm)) = (\<lambda>k. case map_of kps k of
      Some p \<Rightarrow> Some (moved gm dt p) | None \<Rightarrow> GetPlayer (m_world gm) k)"
  using assms
proof (induction kps arbitrary: gm)
  case (Cons kp kps)
  obtain k p where kp: "kp = (k, p)" by fastforce
  have get: "GetPlayer (m_world gm) k = Some p" using Cons.prems(3) by (auto simp: kp)
  note step = update_player_ok [OF Cons.prems(1) get, of dt]
  have "\<forall>(j, q) \<in> set kps. GetPlayer (m_world (update_player dt (k, p) gm)) j = Some q"
    using Cons.prems(2,3) by (force simp: step(2) kp)
  note IH = Cons.IH [OF step(1) _ this]
  have "map_of kps k = None" "distinct (map fst kps)" using Cons.prems(2) by (auto simp: kp map_of_eq_None_iff)
  with IH show ?case by (simp add: kp step(2) moved_frame fun_eq_iff split: option.split)
qed (auto simp: fun_eq_iff)

lemma UpdateWorld_ok:
  assumes "gm_ok gm"
  shows "gm_ok (UpdateWorld dt gm)"
    "GetPlayer (m_world (UpdateWorld dt gm)) k = map_option (moved gm dt) (GetPlayer (m_world gm) k)"
proof -
  have ok: "um_ok (m_world gm)" using assms by (simp add: gm_ok_def sim_ok_def world_ok_def)
  have "distinct (map fst (m_world gm))" using ok by (simp add: um_ok_def)
  moreover have "\<forall>(k, p) \<in> set (m_world gm). GetPlayer (m_world gm) k = Some p"
    using um.in_entries_iff [OF ok] by (auto simp: GetPlayer_def)
  ultimately show "gm_ok (UpdateWorld dt gm)"
    "GetPlayer (m_world (UpdateWorld dt gm)) k = map_option (moved gm dt) (GetPlayer (m_world gm) k)"
    using update_players_ok [OF assms, of "m_world gm" dt]
    by (auto simp: UpdateWorld_fold GetPlayer_def um_find_def split: option.splits)
qed

lemma UpdateWorld_frame:
  "m_mapWidth (UpdateWorld dt gm) = m_mapWidth gm \<and> m_mapHeight (UpdateWorld dt gm) = m_mapHeight gm"
  unfolding UpdateWorld_fold by (rule fold_keeps) (simp_all add: update_player_frame)

section \<open>Snapshots, batches and the loop\<close>

text \<open>
  Building snapshots touches the caches, the batches and the counters; \<open>same_sim\<close> says that
  the simulation itself is unchanged.
\<close>

definition same_sim :: "GameManager \<Rightarrow> GameManager \<Rightarrow> bool" where
  "same_sim gm gm' \<longleftrightarrow> m_world gm' = m_world gm \<and> m_quadTree gm' = m_quadTree gm \<and>
     m_mapWidth gm' = m_mapWidth gm \<and> m_mapHeight gm' = m_mapHeight gm \<and> stringCache gm' = stringCache gm \<and>
     m_aoiRange gm' = m_aoiRange gm \<and> m_aoiUpdateInterval gm' = m_aoiUpdateInterval gm \<and>
     m_aoiPositionThreshold gm' = m_aoiPositionThreshold gm"

lemma same_sim_refl [simp]: "same_sim gm gm"
  by (simp add: same_sim_def)

lemma same_sim_trans: "same_sim a b \<Longrightarrow> same_sim b c \<Longrightarrow> same_sim a c"
  by (simp add: same_sim_def)

lemma gm_ok_same_sim: "gm_ok gm \<Longrightarrow> same_sim gm gm' \<Longrightarrow> um_ok (m_aoiCache gm') \<Longrightarrow> um_ok (m_playerBatches gm') \<Longrightarrow> gm_ok gm'"
  by (simp add: gm_ok_def same_sim_def IsValidPosition_cong [of gm' gm])

lemma um_ok_index [simp]: "um_ok m \<Longrightarrow> um_ok (fst (um_index d m k))"
  by (simp add: um_index_def split: option.split)

lemma GetCachedPlayersInAOI_frame:
  "same_sim gm (snd (GetCachedPlayersInAOI gm k pos)) \<and>
   m_tickNumber (snd (GetCachedPlayersInAOI gm k pos)) = m_tickNumber gm \<and>
   m_playerBatches (snd (GetCachedPlayersInAOI gm k pos)) = m_playerBatches gm \<and>
   (um_ok (m_aoiCache gm) \<longrightarrow> um_ok (m_aoiCache (snd (GetCachedPlayersInAOI gm k pos))))"
  by (simp add: GetCachedPlayersInAOI_def UpdateAOICache_def count_executed_def count_skipped_def Let_def
      same_sim_def split_beta split: option.split)

lemma AddSnapshotToPlayerBatch_frame:
  "same_sim gm (AddSnapshotToPlayerBatch enc gm k vis time) \<and>
   m_tickNumber (AddSnapshotToPlayerBatch enc gm k vis time) = m_tickNumber gm \<and>
   m_aoiCache (AddSnapshotToPlayerBatch enc gm k vis time) = m_aoiCache gm \<and>
   (um_ok (m_playerBatches gm) \<longrightarrow> um_ok (m_playerBatches (AddSnapshotToPlayerBatch enc gm k vis time)))"
  by (simp add: AddSnapshotToPlayerBatch_def AddToPlayerBatch_def same_sim_def split_beta)

definition snapshot_player :: "(UnifiedPacket \<Rightarrow> byte list) \<Rightarrow> uint64 \<Rightarrow> uint64 \<times> Player \<Rightarrow> GameManager \<Rightarrow> GameManager" where
  "snapshot_player enc time kp gm = (case kp of (k, p) \<Rightarrow> if m_isActive p then
     (case GetCachedPlayersInAOI gm k (m_position p) of (visible, gm) \<Rightarrow> AddSnapshotToPlayerBatch enc gm k visible time)
     else gm)"

lemma SendWorldSnapshots_fold:
  "SendWorldSnapshots enc now gm =
     fold (snapshot_player enc (GetCurrentTimestamp now)) (m_world gm) (gm\<lparr>m_tickNumber := m_tickNumber gm + 1\<rparr>)"
proof -
  have "(\<lambda>(playerId, player) gm. if m_isActive player then
            (case GetCachedPlayersInAOI gm playerId (m_position player) of
               (visible, gm) \<Rightarrow> AddSnapshotToPlayerBatch enc gm playerId visible t)
          else gm) = snapshot_player enc t" for t
    by (auto simp: snapshot_player_def fun_eq_iff)
  then show ?thesis by (simp add: SendWorldSnapshots_def Let_def)
qed

lemma snapshot_player_frame:
  "same_sim gm (snapshot_player enc time kp gm) \<and> m_tickNumber (snapshot_player enc time kp gm) = m_tickNumber gm \<and>
   (um_ok (m_aoiCache gm) \<and> um_ok (m_playerBatches gm) \<longrightarrow>
    um_ok (m_aoiCache (snapshot_player enc time kp gm)) \<and> um_ok (m_playerBatches (snapshot_player enc time kp gm)))"
proof -
  obtain k p where kp: "kp = (k, p)" by fastforce
  obtain vis gm' where g: "GetCachedPlayersInAOI gm k (m_position p) = (vis, gm')" by fastforce
  show ?thesis
    using GetCachedPlayersInAOI_frame [of gm k "m_position p"] AddSnapshotToPlayerBatch_frame [of gm' enc k vis time]
      same_sim_trans [of gm gm']
    by (simp add: snapshot_player_def kp g)
qed

lemma SendWorldSnapshots_frame:
  assumes "gm_ok gm"
  shows "gm_ok (SendWorldSnapshots enc now gm)" "same_sim gm (SendWorldSnapshots enc now gm)"
    "m_tickNumber (SendWorldSnapshots enc now gm) = m_tickNumber gm + 1"
proof -
  let ?P = "\<lambda>g. same_sim gm g \<and> m_tickNumber g = m_tickNumber gm + 1 \<and> um_ok (m_aoiCache g) \<and> um_ok (m_playerBatches g)"
  have "?P (SendWorldSnapshots enc now gm)" unfolding SendWorldSnapshots_fold
  proof (rule fold_keeps)
    show "?P (gm\<lparr>m_tickNumber := m_tickNumber gm + 1\<rparr>)" using assms by (simp add: same_sim_def gm_ok_def)
  qed (use snapshot_player_frame same_sim_trans in metis)
  then show "gm_ok (SendWorldSnapshots enc now gm)" "same_sim gm (SendWorldSnapshots enc now gm)"
    "m_tickNumber (SendWorldSnapshots enc now gm) = m_tickNumber gm + 1"
    using gm_ok_same_sim [OF assms] by auto
qed

lemma FlushAllBatches_ok: "gm_ok gm \<Longrightarrow> gm_ok (fst (FlushAllBatches gm net)) \<and> same_sim gm (fst (FlushAllBatches gm net))"
  by (simp add: FlushAllBatches_def gm_ok_def same_sim_def um_ok_def comp_def split_beta)

lemma tick_end_ok: "gm_ok gm \<Longrightarrow> gm_ok (report_if_due (add_times te gm)) \<and> same_sim gm (report_if_due (add_times te gm))"
  by (simp add: report_if_due_def add_times_def ReportPerformanceStats_def gm_ok_def same_sim_def Let_def)

lemma roomy_cong: "m_mapWidth gm' = m_mapWidth gm \<Longrightarrow> m_mapHeight gm' = m_mapHeight gm \<Longrightarrow> roomy gm' = roomy gm"
  by (simp add: roomy_def)

lemma ProcessGameCommand_extent:
  "m_mapWidth (fst (ProcessGameCommand enc env gm net c)) = m_mapWidth gm \<and>
   m_mapHeight (fst (ProcessGameCommand enc env gm net c)) = m_mapHeight gm"
proof -
  have e: "m_mapWidth (fst (SendEnterZoneResponse enc g net k s)) = m_mapWidth g"
    "m_mapHeight (fst (SendEnterZoneResponse enc g net k s)) = m_mapHeight g" for g k s
    by (simp_all add: SendEnterZoneResponse_fst split: option.split)
  show ?thesis
    by (simp add: ProcessGameCommand_def HandlePlayerInput_def HandleEnterZone_def HandlePlayerDisconnect_def
        Let_def split_beta e split: GameCommandPayload.split option.split)
qed

lemma ProcessGameCommands_ok:
  assumes "gm_ok gm" "roomy gm" "\<And>i. env_ok (te_cmd te i)"
  shows "gm_ok (fst (fold (\<lambda>(i, c) (gm, net). ProcessGameCommand enc (te_cmd te i) gm net c) ics (gm, net))) \<and>
    roomy (fst (fold (\<lambda>(i, c) (gm, net). ProcessGameCommand enc (te_cmd te i) gm net c) ics (gm, net)))"
proof (rule fold_keeps [where P = "\<lambda>s. gm_ok (fst s) \<and> roomy (fst s)"])
  fix ic :: "nat \<times> GameCommand" and s :: "GameManager \<times> Net"
  assume s: "gm_ok (fst s) \<and> roomy (fst s)"
  obtain i c g n where ic: "ic = (i, c)" "s = (g, n)" by (metis prod.exhaust)
  have "gm_ok (fst (ProcessGameCommand enc (te_cmd te i) g n c))" "roomy (fst (ProcessGameCommand enc (te_cmd te i) g n c))"
    using s ProcessGameCommand_ok [OF _ _ assms(3), of g enc i n c] ProcessGameCommand_extent [of enc "te_cmd te i" g n c]
    by (simp_all add: ic roomy_def)
  then show "gm_ok (fst ((\<lambda>(i, c) (gm, net). ProcessGameCommand enc (te_cmd te i) gm net c) ic s)) \<and>
      roomy (fst ((\<lambda>(i, c) (gm, net). ProcessGameCommand enc (te_cmd te i) gm net c) ic s))"
    by (simp add: ic)
qed (use assms(1,2) in simp)

lemma ProcessPendingCommands_ok:
  assumes "gm_ok gm" "roomy gm" "\<And>i. env_ok (te_cmd te i)" "ProcessPendingCommands enc te gm net = Some (gm', net')"
  shows "gm_ok gm' \<and> roomy gm'"
proof -
  obtain batch q where c: "collect_commands (te_expired te) (te_running te) (nat (m_commandBatchSize gm)) [] (gameLogicQueue net) = (batch, q)"
    by fastforce
  obtain g n where f: "fold (\<lambda>(i, c) (gm, net). ProcessGameCommand enc (te_cmd te i) gm net c) (enumerate 0 batch)
      (gm, net\<lparr>gameLogicQueue := q\<rparr>) = (g, n)" by fastforce
  have "gm_ok g" "roomy g"
    using ProcessGameCommands_ok [OF assms(1,2), of te enc "enumerate 0 batch" "net\<lparr>gameLogicQueue := q\<rparr>"] assms(3) f by auto
  then show ?thesis using assms(4)
    by (auto simp: ProcessPendingCommands_def c f gm_ok_def roomy_def split: if_splits)
qed

lemma GameLoop_iteration_ok:
  assumes "gm_ok gm" "roomy gm" "\<And>i. env_ok (te_cmd te i)" "GameLoop_iteration enc te prev gm net = (last', gm', net')"
  shows "gm_ok gm' \<and> roomy gm'"
proof (cases "ProcessPendingCommands enc te gm net")
  case None
  then show ?thesis using assms by (auto simp: GameLoop_iteration_def Let_def split: if_splits)
next
  case (Some r)
  obtain g n where r: "r = (g, n)" by fastforce
  let ?dt = "delta_seconds (duration_cast ns_per_ms (te_now te - prev))"
  let ?u = "UpdateWorld ?dt g"
  let ?s = "SendWorldSnapshots enc (te_server te) ?u"
  let ?f = "fst (FlushAllBatches ?s n)"
  have g: "gm_ok g" "roomy g" using ProcessPendingCommands_ok [OF assms(1-3)] Some r by auto
  have u: "gm_ok ?u" "roomy ?u" using UpdateWorld_ok(1) g UpdateWorld_frame roomy_cong by (blast, metis)
  have s: "gm_ok ?s" "roomy ?s" using SendWorldSnapshots_frame [OF u(1)] u(2) by (simp_all add: same_sim_def roomy_def)
  have f: "gm_ok ?f" "roomy ?f" using FlushAllBatches_ok [OF s(1)] s(2) by (simp_all add: same_sim_def roomy_def)
  show ?thesis using assms(1,2,4) Some tick_end_ok [OF f(1), of te] f(2)
    by (auto simp: GameLoop_iteration_def Let_def r split_beta same_sim_def roomy_def split: if_splits)
qed

end
