(* ===== verification/Game_Delivery.thy ===== *)
theory Game_Delivery
  imports Game_Invariant
begin

text \<open>
  What reaches the clients: who receives a broadcast, what the snapshots of a tick contain and
  that flushing delivers each of them exactly once and empties the batches; and the lemmas on
  single commands (accepted inputs, the command batch).
\<close>

section \<open>Broadcasts\<close>

lemma send_to_simps [simp]:
  "GetSession (send_to net sid bytes) = GetSession net"
  "m_activeSessions (send_to net sid bytes) = m_activeSessions net"
  "gameLogicQueue (send_to net sid bytes) = gameLogicQueue net"
  by (auto simp: send_to_def upd_session_def GetSession_def fun_eq_iff split: option.split)

lemma store_send_to:
  "store (send_to net sid bytes) a =
     (if GetSession net sid = Some a \<and> IsConnected (store net a) then Send (store net a) bytes else store net a)"
  by (auto simp: send_to_def upd_session_def split: option.split)

lemma Send_simps [simp]: "IsConnected (Send s bytes) = IsConnected s"
  "m_writeQueue (Send s bytes) = m_writeQueue s @ [frame bytes]"
  by (simp_all add: Send_def IsConnected_def)

text \<open>How often a broadcast over the world reaches the session at address \<open>a\<close>.\<close>

definition reaches :: "Net \<Rightarrow> uint64 \<Rightarrow> nat \<Rightarrow> uint64 \<times> Player \<Rightarrow> bool" where
  "reaches net except a kp \<longleftrightarrow> fst kp \<noteq> except \<and> m_isActive (snd kp) \<and>
     GetSession net (m_sessionId (snd kp)) = Some a \<and> IsConnected (store net a)"

definition recipients :: "Net \<Rightarrow> uint64 \<Rightarrow> nat \<Rightarrow> World \<Rightarrow> nat" where
  "recipients net except a w = length (filter (reaches net except a) w)"

definition broadcast_step :: "uint64 \<Rightarrow> byte list \<Rightarrow> uint64 \<times> Player \<Rightarrow> Net \<Rightarrow> Net" where
  "broadcast_step except bytes kp net = (if fst kp \<noteq> except \<and> m_isActive (snd kp)
     then send_to net (m_sessionId (snd kp)) bytes else net)"

lemma broadcast_step_fold:
  "fold (\<lambda>(k, p) net. if k \<noteq> except \<and> m_isActive p then send_to net (m_sessionId p) bytes else net) w net
   = fold (broadcast_step except bytes) w net"
proof -
  have "(\<lambda>(k, p) net. if k \<noteq> except \<and> m_isActive p then send_to net (m_sessionId p) bytes else net)
    = broadcast_step except bytes" by (auto simp: broadcast_step_def fun_eq_iff)
  then show ?thesis by (simp only:)
qed

lemma broadcast_step_simps:
  "GetSession (broadcast_step except bytes kp net) = GetSession net"
  "IsConnected (store (broadcast_step except bytes kp net) a) = IsConnected (store net a)"
  "gameLogicQueue (broadcast_step except bytes kp net) = gameLogicQueue net"
  "m_writeQueue (store (broadcast_step except bytes kp net) a) =
     m_writeQueue (store net a) @ (if reaches net except a kp then [frame bytes] else [])"
  by (auto simp: broadcast_step_def store_send_to reaches_def)

lemma broadcast_queue:
  "m_writeQueue (store (fold (broadcast_step except bytes) w net) a) =
     m_writeQueue (store net a) @ replicate (recipients net except a w) (frame bytes)"
proof (induction w arbitrary: net)
  case (Cons kp w)
  have "reaches (broadcast_step except bytes kp net) except a = reaches net except a"
    by (simp add: reaches_def fun_eq_iff broadcast_step_simps)
  then show ?case
    by (simp add: Cons.IH broadcast_step_simps recipients_def)
qed (simp add: recipients_def)

lemma broadcast_frame:
  "GetSession (fold (broadcast_step except bytes) w net) = GetSession net \<and>
   IsConnected (store (fold (broadcast_step except bytes) w net) a) = IsConnected (store net a) \<and>
   gameLogicQueue (fold (broadcast_step except bytes) w net) = gameLogicQueue net"
  by (induction w arbitrary: net) (simp_all add: broadcast_step_simps)

section \<open>Accepted inputs\<close>

lemma HandlePlayerInput_accept:
  assumes "GetPlayer (m_world gm) (pi_playerId d) = Some p" "input_accepted env p d"
  shows "HandlePlayerInput env gm d = gm\<lparr>m_world := UpdatePlayer (m_world gm) (pi_playerId d)
    (p\<lparr>m_lastInputTime := ce_stamp env, m_lastInputSequence := pi_sequenceNumber d, m_currentInputFlags := pi_inputFlags d,
       m_velocity := vec3_scale (GM_InputFlagsToDirection (pi_inputFlags d)) (gm_moveSpeed gm)\<rparr>)\<rparr>"
  using assms by (simp add: HandlePlayerInput_def input_accepted_def player_setters)

lemma HandlePlayerInput_reject:
  "(\<forall>p. GetPlayer (m_world gm) (pi_playerId d) = Some p \<longrightarrow> \<not> input_accepted env p d) \<Longrightarrow> HandlePlayerInput env gm d = gm"
  by (auto simp: HandlePlayerInput_def input_accepted_def split: option.split)

text \<open>
  The inputs of player \<open>k\<close> that a sequence of commands gets accepted: when each was stamped and
  its sequence number.
\<close>

definition accepts :: "cmd_env \<Rightarrow> GameManager \<Rightarrow> Net \<Rightarrow> GameCommand \<Rightarrow> uint64 \<Rightarrow> PlayerInputCommandData \<Rightarrow> bool" where
  "accepts env gm net c k d \<longleftrightarrow> payload c = PlayerInputPayload d \<and> pi_playerId d = k \<and> gm_sessionManager gm \<and>
     GetSession net (senderSessionId c) \<noteq> None \<and>
     (case GetPlayer (m_world gm) k of None \<Rightarrow> False | Some p \<Rightarrow> input_accepted env p d)"

fun accepted_inputs :: "(UnifiedPacket \<Rightarrow> byte list) \<Rightarrow> uint64 \<Rightarrow> (cmd_env \<times> GameCommand) list \<Rightarrow> GameManager \<Rightarrow> Net \<Rightarrow>
    (time_point \<times> uint32) list" where
  "accepted_inputs enc k [] gm net = []"
| "accepted_inputs enc k ((env, c) # cs) gm net =
     (case payload c of PlayerInputPayload d \<Rightarrow>
        if accepts env gm net c k d then [(ce_stamp env, pi_sequenceNumber d)] else []
      | _ \<Rightarrow> []) @
     (case ProcessGameCommand enc env gm net c of (gm', net') \<Rightarrow> accepted_inputs enc k cs gm' net')"

text \<open>A later input must have a larger number and arrive at least 33 ms after the last one.\<close>

definition input_after :: "time_point \<times> uint32 \<Rightarrow> time_point \<times> uint32 \<Rightarrow> bool" where
  "input_after a b \<longleftrightarrow> fst a + 33000000 \<le> fst b \<and> snd a < snd b"

definition beyond :: "Player option \<Rightarrow> time_point \<times> uint32 \<Rightarrow> bool" where
  "beyond po b \<longleftrightarrow> (case po of None \<Rightarrow> True | Some p \<Rightarrow> input_after (m_lastInputTime p, m_lastInputSequence p) b)"

definition no_disconnect :: "uint64 \<Rightarrow> GameCommand \<Rightarrow> bool" where
  "no_disconnect k c \<longleftrightarrow> (case payload c of PlayerDisconnectPayload d \<Rightarrow> pd_playerId d \<noteq> k | _ \<Rightarrow> True)"

lemma SendEnterZoneResponse_world [simp]: "m_world (fst (SendEnterZoneResponse enc gm net k s)) = m_world gm"
  by (simp add: SendEnterZoneResponse_fst split: option.split)

text \<open>A command that is not an accepted input of \<open>k\<close> leaves its clock and number alone.\<close>

lemma ProcessGameCommand_input_state:
  assumes "GetPlayer (m_world gm) k = Some p" "\<And>d. \<not> accepts env gm net c k d" "no_disconnect k c"
  shows "\<exists>p'. GetPlayer (m_world (fst (ProcessGameCommand enc env gm net c))) k = Some p' \<and>
    m_lastInputTime p' = m_lastInputTime p \<and> m_lastInputSequence p' = m_lastInputSequence p"
proof (cases "payload c")
  case (PlayerInputPayload d)
  then show ?thesis
  proof (cases "pi_playerId d = k")
    case True
    then have "gm_sessionManager gm \<Longrightarrow> GetSession net (senderSessionId c) \<noteq> None \<Longrightarrow> \<not> input_accepted env p d"
      using assms(1) assms(2) [of d] PlayerInputPayload by (auto simp: accepts_def)
    then show ?thesis using PlayerInputPayload assms(1) True
      by (auto simp: ProcessGameCommand_def HandlePlayerInput_reject split: option.split)
  next
    case False
    then show ?thesis using PlayerInputPayload assms(1)
      by (simp add: ProcessGameCommand_def HandlePlayerInput_def Let_def split: option.split)
  qed
next
  case (EnterZonePayload d)
  then show ?thesis using assms(1)
    by (cases "ez_playerId d = k")
      (simp_all add: ProcessGameCommand_def HandleEnterZone_def player_setters split_beta split: option.split)
next
  case (PlayerSpawnPayload d)
  then show ?thesis using assms(1) by (simp add: ProcessGameCommand_def split: option.split)
next
  case (PlayerDisconnectPayload d)
  then show ?thesis using assms(1,3)
    by (simp add: ProcessGameCommand_def HandlePlayerDisconnect_def no_disconnect_def Let_def split: option.split)
qed

lemma input_after_trans: "input_after a b \<Longrightarrow> input_after b c \<Longrightarrow> input_after a c"
  by (auto simp: input_after_def)

lemma accepts_after:
  assumes "accepts env gm net c k d" "ce_check env \<le> ce_stamp env"
  obtains p where "GetPlayer (m_world gm) k = Some p"
    "input_after (m_lastInputTime p, m_lastInputSequence p) (ce_stamp env, pi_sequenceNumber d)"
    "\<exists>p'. GetPlayer (m_world (fst (ProcessGameCommand enc env gm net c))) k = Some p' \<and>
      m_lastInputTime p' = ce_stamp env \<and> m_lastInputSequence p' = pi_sequenceNumber d"
proof -
  obtain p where p: "GetPlayer (m_world gm) k = Some p" "input_accepted env p d" and d: "pi_playerId d = k"
    using assms(1) by (auto simp: accepts_def split: option.splits)
  have "input_after (m_lastInputTime p, m_lastInputSequence p) (ce_stamp env, pi_sequenceNumber d)"
    using p(2) assms(2) by (auto simp: input_accepted_def IsInputAllowed_iff input_after_def)
  moreover have "ProcessGameCommand enc env gm net c = (HandlePlayerInput env gm d, net)"
    using assms(1) by (auto simp: accepts_def ProcessGameCommand_def split: option.split)
  ultimately show ?thesis using that [OF p(1)] p HandlePlayerInput_accept [of gm d p env] d by simp
qed

lemma accepted_inputs_ordered:
  assumes "\<forall>(env, c) \<in> set cs. ce_check env \<le> ce_stamp env \<and> no_disconnect k c"
  shows "sorted_wrt input_after (accepted_inputs enc k cs gm net) \<and>
    (\<forall>b \<in> set (accepted_inputs enc k cs gm net). beyond (GetPlayer (m_world gm) k) b)"
  using assms
proof (induction cs arbitrary: gm net)
  case (Cons ec cs)
  obtain env c where ec: "ec = (env, c)" by fastforce
  obtain gm' net' where g: "ProcessGameCommand enc env gm net c = (gm', net')" by fastforce
  let ?rest = "accepted_inputs enc k cs gm' net'"
  have pre: "ce_check env \<le> ce_stamp env" "no_disconnect k c" using Cons.prems by (auto simp: ec)
  have IH: "sorted_wrt input_after ?rest" "\<forall>b \<in> set ?rest. beyond (GetPlayer (m_world gm') k) b"
    using Cons.IH [of gm' net'] Cons.prems by auto
  show ?case
  proof (cases "\<exists>d. accepts env gm net c k d")
    case True
    then obtain d where d: "accepts env gm net c k d" by blast
    obtain p p' where p: "GetPlayer (m_world gm) k = Some p"
      "input_after (m_lastInputTime p, m_lastInputSequence p) (ce_stamp env, pi_sequenceNumber d)"
      "GetPlayer (m_world gm') k = Some p'" "m_lastInputTime p' = ce_stamp env" "m_lastInputSequence p' = pi_sequenceNumber d"
      by (rule accepts_after [OF d pre(1), of enc]) (auto simp: g)
    have acc: "accepted_inputs enc k (ec # cs) gm net = (ce_stamp env, pi_sequenceNumber d) # ?rest"
      using d by (auto simp: ec g accepts_def)
    have "\<forall>b \<in> set ?rest. input_after (ce_stamp env, pi_sequenceNumber d) b"
      using IH(2) p(3-5) by (simp add: beyond_def)
    then show ?thesis using IH(1) p(1,2) input_after_trans unfolding acc by (auto simp: beyond_def)
  next
    case False
    then have acc: "accepted_inputs enc k (ec # cs) gm net = ?rest"
      by (auto simp: ec g split: GameCommandPayload.split)
    have "beyond (GetPlayer (m_world gm) k) b" if "beyond (GetPlayer (m_world gm') k) b" for b
    proof (cases "GetPlayer (m_world gm) k")
      case (Some p)
      then show ?thesis using ProcessGameCommand_input_state [OF Some _ pre(2), of env net enc] False that
        by (auto simp: g beyond_def)
    qed (simp add: beyond_def)
    then show ?thesis using IH unfolding acc by blast
  qed
qed simp

section \<open>The command batch\<close>

text \<open>
  The batch is a prefix of the queue in order, never longer than the limit.  What is left is
  the rest of the queue, except that a command popped after the server stopped is lost.
\<close>

lemma collect_commands_stop:
  "limit \<le> length batch \<or> expired (length batch) \<or> q_items q = [] \<Longrightarrow> collect_commands expired running limit batch q = (batch, q)"
  by (auto simp: collect_commands.simps [of expired] TryPopGameCommand_def try_dequeue_def)

lemma collect_commands_pop:
  "length batch < limit \<Longrightarrow> \<not> expired (length batch) \<Longrightarrow> q_items q = c # cs \<Longrightarrow>
   collect_commands expired running limit batch q =
     (if running (length batch) then collect_commands expired running limit (batch @ [c]) (q\<lparr>q_items := cs\<rparr>)
      else (batch, q\<lparr>q_items := cs\<rparr>))"
  by (simp add: collect_commands.simps [of expired running limit batch] TryPopGameCommand_def try_dequeue_def)

lemma collect_commands_prefix:
  assumes "collect_commands expired running limit batch q = (batch', q')"
  shows "\<exists>n d. batch' = batch @ take n (q_items q) \<and> q' = q\<lparr>q_items := drop (n + d) (q_items q)\<rparr> \<and>
    (length batch \<le> limit \<longrightarrow> length batch' \<le> limit) \<and> (d = 0 \<or> d = 1 \<and> \<not> running (length batch'))"
  using assms
proof (induction "q_items q" arbitrary: q batch)
  case Nil
  then have "batch' = batch" "q' = q" by (simp_all add: collect_commands_stop)
  then show ?case using Nil by (intro exI [of _ 0] exI [of _ 0]) simp
next
  case (Cons c cs)
  let ?q = "q\<lparr>q_items := cs\<rparr>"
  note items = Cons.hyps(2) [symmetric]
  consider "limit \<le> length batch \<or> expired (length batch)"
    | "length batch < limit" "\<not> expired (length batch)" "\<not> running (length batch)"
    | "length batch < limit" "\<not> expired (length batch)" "running (length batch)" by fastforce
  then show ?case
  proof cases
    case 1
    then have "batch' = batch" "q' = q" using Cons.prems by (auto simp: collect_commands_stop)
    then show ?thesis by (intro exI [of _ 0] exI [of _ 0]) simp
  next
    case 2
    then have "batch' = batch" "q' = ?q" using Cons.prems by (simp_all add: collect_commands_pop items)
    then show ?thesis using 2 items by (intro exI [of _ 0] exI [of _ 1]) simp
  next
    case 3
    then have "collect_commands expired running limit (batch @ [c]) ?q = (batch', q')"
      using Cons.prems by (simp add: collect_commands_pop items)
    from Cons.hyps(1) [OF _ this, simplified] obtain n d where n: "batch' = batch @ c # take n cs" "q' = q\<lparr>q_items := drop (n + d) cs\<rparr>"
      "Suc (length batch) \<le> limit \<longrightarrow> length batch' \<le> limit" "d = 0 \<or> d = Suc 0 \<and> \<not> running (length batch')" by blast
    then have "length batch' \<le> limit" using 3 by simp
    then show ?thesis using n items by (intro exI [of _ "Suc n"] exI [of _ d]) simp
  qed
qed

lemma collect_commands_free:
  "length batch \<le> limit \<Longrightarrow> collect_commands (\<lambda>_. False) (\<lambda>_. True) limit batch q =
    (batch @ take (limit - length batch) (q_items q), q\<lparr>q_items := drop (limit - length batch) (q_items q)\<rparr>)"
proof (induction "limit - length batch" arbitrary: batch q)
  case 0
  then show ?case by (simp add: collect_commands.simps)
next
  case (Suc n)
  show ?case
  proof (cases "q_items q")
    case Nil
    then show ?thesis using Suc.hyps(2)
      by (subst collect_commands.simps) (simp add: TryPopGameCommand_def try_dequeue_def)
  next
    case (Cons c cs)
    have n: "limit - length batch = Suc n" "n = limit - length (batch @ [c])" using Suc.hyps(2) by simp_all
    show ?thesis using Suc.hyps(1) [OF n(2), of "q\<lparr>q_items := cs\<rparr>"] Suc.prems n
      by (subst collect_commands.simps) (simp add: TryPopGameCommand_def try_dequeue_def Cons)
  qed
qed

section \<open>Snapshots of a tick\<close>

lemma GetCachedPlayersInAOI_own:
  assumes "same_sim gm g" "m_tickNumber g = m_tickNumber gm" "um_find (m_aoiCache g) k = um_find (m_aoiCache gm) k"
  shows "fst (GetCachedPlayersInAOI g k pos) = fst (GetCachedPlayersInAOI gm k pos)"
  using assms
  by (simp add: GetCachedPlayersInAOI_def ShouldUpdateAOI_def GetPlayersInAOI_def same_sim_def Let_def split: option.split)

lemma snapshot_packet_cong:
  "same_sim gm g \<Longrightarrow> m_tickNumber g = m_tickNumber gm \<Longrightarrow> snapshot_packet g = snapshot_packet gm"
proof -
  assume a: "same_sim gm g" "m_tickNumber g = m_tickNumber gm"
  then have "player_state g = player_state gm" by (simp add: player_state_def same_sim_def fun_eq_iff)
  with a(2) show ?thesis by (intro ext) (simp add: snapshot_packet_def)
qed

text \<open>The snapshot that player \<open>k\<close> gets from the state \<open>gm\<close> (with the tick already counted).\<close>

definition snapshot_for :: "GameManager \<Rightarrow> uint64 \<Rightarrow> uint64 \<Rightarrow> Player \<Rightarrow> UnifiedPacket" where
  "snapshot_for gm time k p = snapshot_packet gm (fst (GetCachedPlayersInAOI gm k (m_position p))) time"

lemma um_find_index: "um_find (fst (um_index d m k)) j = (if j = k \<and> um_find m k = None then Some d else um_find m j)"
  by (simp add: um_index_def split: option.split)

lemma snapshot_player_caches:
  "j \<noteq> k \<Longrightarrow> um_find (m_aoiCache (snapshot_player enc time (k, p) gm)) j = um_find (m_aoiCache gm) j"
  by (simp add: snapshot_player_def GetCachedPlayersInAOI_def UpdateAOICache_def count_executed_def count_skipped_def
      AddSnapshotToPlayerBatch_def AddToPlayerBatch_def Let_def split_beta um_find_index split: option.split)

lemma snapshot_player_batches:
  "um_find (m_playerBatches (snapshot_player enc time (k, p) gm)) j =
     (if j = k \<and> m_isActive p
      then Some ((case um_find (m_playerBatches gm) k of None \<Rightarrow> [] | Some b \<Rightarrow> b) @ [enc (snapshot_for gm time k p)])
      else um_find (m_playerBatches gm) j)"
proof -
  obtain vis g where g: "GetCachedPlayersInAOI gm k (m_position p) = (vis, g)" by fastforce
  have "m_playerBatches g = m_playerBatches gm" "snapshot_packet g = snapshot_packet gm"
    using GetCachedPlayersInAOI_frame [of gm k "m_position p"] snapshot_packet_cong [of gm g] by (simp_all add: g)
  then show ?thesis
    by (simp add: snapshot_player_def g snapshot_for_def AddSnapshotToPlayerBatch_def AddToPlayerBatch_def split_beta
        um_find_index) (simp add: um_index_def split: option.split)
qed

lemma snapshot_batches:
  "distinct (map fst kps) \<Longrightarrow>
   um_find (m_playerBatches (fold (snapshot_player enc time) kps gm)) k =
     (case map_of kps k of
        Some p \<Rightarrow> if m_isActive p
          then Some ((case um_find (m_playerBatches gm) k of None \<Rightarrow> [] | Some b \<Rightarrow> b) @ [enc (snapshot_for gm time k p)])
          else um_find (m_playerBatches gm) k
      | None \<Rightarrow> um_find (m_playerBatches gm) k)"
proof (induction kps arbitrary: gm)
  case (Cons kp kps)
  obtain j q where kp: "kp = (j, q)" by fastforce
  let ?g = "snapshot_player enc time (j, q) gm"
  have fr: "same_sim gm ?g" "m_tickNumber ?g = m_tickNumber gm" using snapshot_player_frame by blast+
  have own: "snapshot_for ?g time k p = snapshot_for gm time k p" if "k \<noteq> j" for p
    using GetCachedPlayersInAOI_own [OF fr] snapshot_player_caches [OF that] snapshot_packet_cong [OF fr]
    by (simp add: snapshot_for_def)
  have "k = j \<Longrightarrow> map_of kps k = None" using Cons.prems by (simp add: kp map_of_eq_None_iff)
  then show ?case using Cons.IH [of ?g] Cons.prems own
    by (auto simp: kp snapshot_player_batches split: option.split)
qed simp

section \<open>Flushing\<close>

lemma SendBatch_simps [simp]: "IsConnected (SendBatch s packets) = IsConnected s"
  by (simp add: SendBatch_def IsConnected_def split: option.split)

definition batch_out :: "byte list list \<Rightarrow> byte list list" where
  "batch_out packets = (if packets = [] \<or> batch_size 0 packets = None then [] else [concat (map frame packets)])"

lemma SendBatch_queue: "m_writeQueue (SendBatch s packets) = m_writeQueue s @ batch_out packets"
  by (simp add: SendBatch_def batch_out_def split: option.split)

definition flush_out :: "World \<Rightarrow> Net \<Rightarrow> nat \<Rightarrow> uint64 \<times> byte list list \<Rightarrow> byte list list" where
  "flush_out w net a kb = (case GetPlayer w (fst kb) of
      Some p \<Rightarrow> if GetSession net (m_sessionId p) = Some a \<and> IsConnected (store net a) then batch_out (snd kb) else []
    | None \<Rightarrow> [])"

lemma flush_batch_simps:
  "GetSession (flush_batch gm k b net) = GetSession net"
  "IsConnected (store (flush_batch gm k b net) a) = IsConnected (store net a)"
  "m_writeQueue (store (flush_batch gm k b net) a) = m_writeQueue (store net a) @ flush_out (m_world gm) net a (k, b)"
  by (auto simp: flush_batch_def upd_session_def GetSession_def flush_out_def SendBatch_queue batch_out_def fun_eq_iff
      split: option.splits)

lemma flush_queue:
  "m_writeQueue (store (fold (\<lambda>(k, b) net. flush_batch gm k b net) kbs net) a) =
     m_writeQueue (store net a) @ concat (map (flush_out (m_world gm) net a) kbs)"
proof (induction kbs arbitrary: net)
  case (Cons kb kbs)
  obtain k b where kb: "kb = (k, b)" by fastforce
  have "flush_out (m_world gm) (flush_batch gm k b net) a = flush_out (m_world gm) net a"
    by (simp add: flush_out_def fun_eq_iff flush_batch_simps split: option.split)
  then show ?case by (simp add: kb Cons.IH flush_batch_simps)
qed simp

lemma concat_map_single:
  "distinct (map fst xs) \<Longrightarrow> (k, v) \<in> set xs \<Longrightarrow> (\<And>j u. (j, u) \<in> set xs \<Longrightarrow> j \<noteq> k \<Longrightarrow> f (j, u) = []) \<Longrightarrow>
   concat (map f xs) = f (k, v)"
proof (induction xs)
  case (Cons x xs)
  obtain j u where x: "x = (j, u)" by fastforce
  show ?case
  proof (cases "j = k")
    case True
    then have "\<forall>y \<in> set xs. f y = []" using Cons.prems by (force simp: x)
    moreover have "u = v" using True Cons.prems(1,2) by (force simp: x)
    ultimately show ?thesis using True by (simp add: x)
  next
    case False
    then show ?thesis using Cons by (auto simp: x)
  qed
qed simp

definition batches_empty :: "GameManager \<Rightarrow> bool" where
  "batches_empty gm \<longleftrightarrow> (\<forall>(k, b) \<in> set (m_playerBatches gm). b = [])"

lemma batches_empty_find: "batches_empty gm \<Longrightarrow> um_find (m_playerBatches gm) k = Some b \<Longrightarrow> b = []"
  by (auto simp: batches_empty_def um_find_def dest: map_of_SomeD)

lemma FlushAllBatches_empty: "batches_empty (fst (FlushAllBatches gm net))"
  by (auto simp: FlushAllBatches_def batches_empty_def)

text \<open>One tick's snapshots, flushed: what the session of an active player receives.\<close>

lemma snapshot_delivery:
  assumes ok: "gm_ok gm" "batches_empty gm" and p: "GetPlayer (m_world gm) k = Some p" "m_isActive p"
    and sess: "GetSession net (m_sessionId p) = Some a" "IsConnected (store net a)"
    and own: "\<And>j q. GetPlayer (m_world gm) j = Some q \<Longrightarrow> m_isActive q \<Longrightarrow> m_sessionId q = m_sessionId p \<or>
      GetSession net (m_sessionId q) = Some a \<Longrightarrow> j = k"
  shows "m_writeQueue (store (snd (FlushAllBatches (SendWorldSnapshots enc now gm) net)) a) =
    m_writeQueue (store net a) @
      batch_out [enc (snapshot_for (gm\<lparr>m_tickNumber := m_tickNumber gm + 1\<rparr>) (GetCurrentTimestamp now) k p)]"
proof -
  let ?g = "gm\<lparr>m_tickNumber := m_tickNumber gm + 1\<rparr>" and ?s = "SendWorldSnapshots enc now gm"
  let ?pkt = "enc (snapshot_for ?g (GetCurrentTimestamp now) k p)"
  note fr = SendWorldSnapshots_frame [OF ok(1), of enc now]
  have w: "m_world ?s = m_world gm" using fr(2) by (simp add: same_sim_def)
  have d: "distinct (map fst (m_world gm))" using ok(1) by (simp add: gm_ok_def sim_ok_def world_ok_def um_ok_def)
  have find: "um_find (m_playerBatches ?s) j = (case GetPlayer (m_world gm) j of
      Some q \<Rightarrow> if m_isActive q
        then Some ((case um_find (m_playerBatches gm) j of None \<Rightarrow> [] | Some b \<Rightarrow> b) @
          [enc (snapshot_for ?g (GetCurrentTimestamp now) j q)])
        else um_find (m_playerBatches gm) j
    | None \<Rightarrow> um_find (m_playerBatches gm) j)" for j
    using snapshot_batches [OF d, of enc "GetCurrentTimestamp now" ?g j]
    by (simp add: SendWorldSnapshots_fold GetPlayer_def um_find_def split: option.split)
  have dk: "distinct (map fst (m_playerBatches ?s))" and okb: "um_ok (m_playerBatches ?s)"
    using fr(1) by (simp_all add: gm_ok_def um_ok_def)
  have "(k, [?pkt]) \<in> set (m_playerBatches ?s)"
    using um.in_entries_iff [OF okb] find [of k] p batches_empty_find [OF ok(2), of k] by (auto split: option.splits)
  then have "concat (map (flush_out (m_world gm) net a) (m_playerBatches ?s)) = flush_out (m_world gm) net a (k, [?pkt])"
  proof (rule concat_map_single [OF dk])
    fix j b
    assume "(j, b) \<in> set (m_playerBatches ?s)" and ne: "j \<noteq> k"
    then have b: "um_find (m_playerBatches ?s) j = Some b" using um.in_entries_iff [OF okb] by simp
    show "flush_out (m_world gm) net a (j, b) = []"
    proof (cases "GetPlayer (m_world gm) j")
      case (Some q)
      have "m_isActive q \<Longrightarrow> GetSession net (m_sessionId q) \<noteq> Some a" using own [OF Some] ne by blast
      moreover have "\<not> m_isActive q \<Longrightarrow> b = []" using b find [of j] Some batches_empty_find [OF ok(2)] by simp
      ultimately show ?thesis by (cases "m_isActive q") (simp_all add: flush_out_def Some batch_out_def)
    qed (simp add: flush_out_def)
  qed
  then show ?thesis using p sess by (simp add: FlushAllBatches_def flush_queue w flush_out_def)
qed

end
