(* ===== verification/Game_Properties.thy ===== *)
theory Game_Properties
  imports Game_Delivery
begin

text \<open>
  The properties of the game manager: the runs of the server as an inductive set, the
  simulation invariant and exact areas of interest in every reachable state, the order of
  accepted inputs, movement, the contents and the delivery of what clients receive, and the
  configuration.
\<close>

section \<open>Runs\<close>

text \<open>
  A state is \<open>lastTickTime\<close>, the manager and the network.  The loop runs while the manager is
  running; between two iterations the network threads may change their own state in any way.
\<close>

inductive server_run :: "(UnifiedPacket \<Rightarrow> byte list) \<Rightarrow> bool \<Rightarrow> StringCache \<Rightarrow> config_file \<Rightarrow>
    time_point \<times> GameManager \<times> Net \<Rightarrow> bool"
  for enc sm cache cfg where
  boot: "mk_GameManager sm cache cfg = Some gm \<Longrightarrow> server_run enc sm cache cfg (t, gm, net)"
| start: "server_run enc sm cache cfg (t, gm, net) \<Longrightarrow> server_run enc sm cache cfg (t', fst (GM_Start gm), net)"
| stop: "server_run enc sm cache cfg (t, gm, net) \<Longrightarrow> GM_Stop gm net = (gm', net') \<Longrightarrow>
    server_run enc sm cache cfg (t, gm', net')"
| loop: "server_run enc sm cache cfg (t, gm, net) \<Longrightarrow> m_running gm \<Longrightarrow> (\<And>i. env_ok (te_cmd te i)) \<Longrightarrow>
    server_run enc sm cache cfg (GameLoop_iteration enc te t gm net)"
| network: "server_run enc sm cache cfg (t, gm, net) \<Longrightarrow> server_run enc sm cache cfg (t, gm, net')"

inductive_cases server_runE: "server_run enc sm cache cfg (t, gm, net)"

text \<open>The map of a configuration: exact quadrants, and room for the spawn margin.\<close>

definition good_map :: "GameManager \<Rightarrow> bool" where
  "good_map gm \<longleftrightarrow> roomy gm \<and>
     (\<exists>e. -149 \<le> e \<and> e \<le> 104 \<and> on_grid e MAX_DEPTH (mk_Bounds (Fin 0) (Fin 0) (m_mapWidth gm) (m_mapHeight gm)))"

definition good_config :: "bool \<Rightarrow> StringCache \<Rightarrow> config_file \<Rightarrow> bool" where
  "good_config sm cache file \<longleftrightarrow> cache_ok cache \<and> (\<forall>gm. mk_GameManager sm cache file = Some gm \<longrightarrow> good_map gm)"

lemma LoadGameConfig_frame:
  assumes "LoadGameConfig file gm = (gm', r)"
  shows "m_world gm' = m_world gm" "m_aoiCache gm' = m_aoiCache gm" "m_playerBatches gm' = m_playerBatches gm"
    "stringCache gm' = stringCache gm"
  using assms by (auto simp: LoadGameConfig_def Let_def split: config_file.splits option.splits if_splits)

lemma f32_zero_add: "fp_conv binary32 w = w \<Longrightarrow> f32_add (Fin 0) w = w"
  by (cases w) simp_all

lemma Contains_valid: "roomy gm \<Longrightarrow> Contains (mk_Bounds (Fin 0) (Fin 0) (m_mapWidth gm) (m_mapHeight gm)) = IsValidPosition gm"
  by (simp add: Contains_def IsValidPosition_def mk_Bounds_def roomy_def spawn_extent_def f32_zero_add fun_eq_iff)

lemma boot_ok:
  assumes "mk_GameManager sm cache file = Some gm" "good_config sm cache file"
  shows "gm_ok gm" "roomy gm" "batches_empty gm"
proof -
  have good: "good_map gm" "cache_ok cache" using assms by (auto simp: good_config_def)
  then show roomy: "roomy gm" by (simp add: good_map_def)
  obtain e where e: "-149 \<le> e" "e \<le> 104" "on_grid e MAX_DEPTH (mk_Bounds (Fin 0) (Fin 0) (m_mapWidth gm) (m_mapHeight gm))"
    using good(1) by (auto simp: good_map_def)
  obtain g r where g: "LoadGameConfig file (initial_GameManager sm cache) = (g, r)" by fastforce
  obtain t where t: "mk_QuadTree (Fin 0) (Fin 0) (m_mapWidth g) (m_mapHeight g) = Some t" "gm = g\<lparr>m_world := [], m_quadTree := t\<rparr>"
    using assms(1) g by (auto simp: mk_GameManager_def split: if_splits option.splits)
  have "m_mapWidth gm = m_mapWidth g" "m_mapHeight gm = m_mapHeight g" using t(2) by simp_all
  then have q: "qt_ok t" "qt_at t = (\<lambda>_. None)" "qt_valid t = IsValidPosition gm"
    using mk_QuadTree_ok [OF e(1,2) _ t(1)] e(3) Contains_valid [OF roomy] by (simp_all add: qt_valid_def)
  moreover have "indexed [] = (\<lambda>_. None)" by (simp add: indexed_def GetPlayer_def fun_eq_iff)
  ultimately show "gm_ok gm" "batches_empty gm"
    using LoadGameConfig_frame [OF g] t(2) good(2)
    by (simp_all add: gm_ok_def sim_ok_def world_ok_def GetPlayer_def batches_empty_def initial_GameManager_def)
qed

lemma GameLoop_iteration_batches:
  assumes "batches_empty gm" "GameLoop_iteration enc te t gm net = (t', gm', net')"
  shows "batches_empty gm'"
proof (cases "ProcessPendingCommands enc te gm net")
  case (Some r)
  have "batches_empty (report_if_due (add_times te g)) = batches_empty g" for g
    by (simp add: batches_empty_def report_if_due_def add_times_def ReportPerformanceStats_def Let_def)
  then show ?thesis using assms Some FlushAllBatches_empty
    by (auto simp: GameLoop_iteration_def Let_def split_beta split: if_splits)
qed (use assms in \<open>auto simp: GameLoop_iteration_def Let_def split: if_splits\<close>)

lemma server_run_ok:
  assumes "server_run enc sm cache file s" "good_config sm cache file"
  shows "gm_ok (fst (snd s)) \<and> roomy (fst (snd s)) \<and> batches_empty (fst (snd s))"
  using assms(1)
proof (induction rule: server_run.induct)
  case (boot gm t net)
  then show ?case using boot_ok [OF _ assms(2)] by simp
next
  case (start t gm net t')
  then show ?case by (simp add: GM_Start_def gm_ok_def roomy_def batches_empty_def)
next
  case (stop t gm net gm' net')
  then show ?case by (auto simp: GM_Stop_def gm_ok_def roomy_def batches_empty_def split: if_splits)
next
  case (loop t gm net te)
  obtain t' gm' net' where r: "GameLoop_iteration enc te t gm net = (t', gm', net')" by (metis prod.exhaust)
  show ?case using loop GameLoop_iteration_ok [OF _ _ _ r] GameLoop_iteration_batches [OF _ r] by (simp add: r)
qed simp

lemma GetPlayersInAOI_exact:
  assumes "gm_ok gm" "is_fin (vx c)" "is_fin (vy c)"
  shows "distinct (GetPlayersInAOI gm c) \<and> set (GetPlayersInAOI gm c) =
    {k. \<exists>p. GetPlayer (m_world gm) k = Some p \<and> m_isActive p \<and> in_radius c (m_aoiRange gm) (m_position p)}"
proof -
  have "qt_ok (m_quadTree gm)" "um_find (m_playerPositions (m_quadTree gm)) = indexed (m_world gm)"
    using assms(1) by (auto simp: gm_ok_def sim_ok_def qt_at_def)
  then show ?thesis using QT_Query_ok [of "m_quadTree gm" c] assms(2,3)
    by (auto simp: GetPlayersInAOI_def indexed_def split: option.splits if_splits)
qed

section \<open>A concrete server\<close>

text \<open>
  The values of the witnesses: the shipped configuration (\<open>config/game_config.json\<close>), a network
  with one connected session of player 7 whose request to enter the zone is queued, and a
  distribution that draws its lower bound.
\<close>

definition shipped_config :: config_file where
  "shipped_config = Parsed \<lparr>cfg_aoi_range = Some (Fin 30), cfg_chat_range = Some (Fin 25), cfg_move_speed = Some (Fin 5),
     cfg_tick_rate = Some 30, cfg_width = Some (Fin 200), cfg_height = Some (Fin 200), cfg_batch = Some 100\<rparr>"

definition demo_enc :: "UnifiedPacket \<Rightarrow> byte list" where
  "demo_enc p = [ucast (up_id p)]"

definition demo_draw :: "fp \<Rightarrow> fp \<Rightarrow> fp" where
  "demo_draw a b = a"

definition demo_cmd_env :: "time_point \<Rightarrow> cmd_env" where
  "demo_cmd_env t = \<lparr>ce_check = t, ce_stamp = t, ce_disX = demo_draw, ce_disY = demo_draw\<rparr>"

definition demo_tick :: "time_point \<Rightarrow> tick_env" where
  "demo_tick t = \<lparr>te_now = t, te_expired = (\<lambda>_. False), te_running = (\<lambda>_. True), te_cmd = (\<lambda>_. demo_cmd_env t),
     te_server = t, te_commandStart = t, te_worldStart = t, te_snapshotStart = t, te_flushStart = t\<rparr>"

definition enter_zone_command :: "uint64 \<Rightarrow> uint64 \<Rightarrow> GameCommand" where
  "enter_zone_command pid sid = \<lparr>commandId = 0, payload = EnterZonePayload \<lparr>ez_playerId = pid, ez_zoneId = 1, ez_sessionId = sid\<rparr>,
     senderSessionId = sid, timestamp = 0\<rparr>"

definition input_command :: "uint64 \<Rightarrow> uint64 \<Rightarrow> uint8 \<Rightarrow> uint32 \<Rightarrow> GameCommand" where
  "input_command pid sid flags seq = \<lparr>commandId = 0, payload = PlayerInputPayload
     (default_PlayerInput\<lparr>pi_playerId := pid, pi_inputFlags := flags, pi_sequenceNumber := seq, pi_sessionId := sid\<rparr>),
     senderSessionId = sid, timestamp = 0\<rparr>"

definition demo_net :: Net where
  "demo_net = (let (a, net) = new_session empty_Net; net = AddSession (upd_session net a (\<lambda>s. SetPlayerId s 7)) a
     in net\<lparr>gameLogicQueue := PushGameCommand (gameLogicQueue net) (enter_zone_command 7 0)\<rparr>)"

definition demo_gm :: GameManager where
  "demo_gm = the (mk_GameManager True [] shipped_config)"

lemma demo_boot: "mk_GameManager True [] shipped_config = Some demo_gm"
proof -
  have "mk_GameManager True [] shipped_config \<noteq> None" by code_simp
  then show ?thesis by (auto simp: demo_gm_def)
qed

lemma demo_roomy: "roomy demo_gm"
  by code_simp

lemma demo_extents: "m_mapWidth demo_gm = Fin 200" "m_mapHeight demo_gm = Fin 200"
  by code_simp+

lemma demo_good: "good_config True [] shipped_config"
proof -
  have "good_map demo_gm" unfolding good_map_def demo_extents
    using demo_roomy grid_200 by (intro conjI exI [of _ "-3"]) simp_all
  then show ?thesis by (simp add: good_config_def demo_boot cache_ok_def)
qed

lemma demo_env: "env_ok (demo_cmd_env t)"
proof -
  have "fp_le a a" if "fp_lt a b" for a b using that by (cases a) auto
  then show ?thesis by (simp add: env_ok_def demo_cmd_env_def draws_in_range_def demo_draw_def)
qed

text \<open>After the first tick player 7 stands at (20, 20).\<close>

definition demo_state :: "time_point \<times> GameManager \<times> Net" where
  "demo_state = GameLoop_iteration demo_enc (demo_tick 40000000) 0 (demo_gm\<lparr>m_running := True\<rparr>) demo_net"

lemma demo_run: "server_run demo_enc True [] shipped_config demo_state"
proof -
  have "server_run demo_enc True [] shipped_config (0, fst (GM_Start demo_gm), demo_net)"
    by (rule server_run.start [OF server_run.boot [OF demo_boot]])
  moreover have "\<not> m_running demo_gm" by code_simp
  ultimately show ?thesis unfolding demo_state_def
    by (intro server_run.loop) (auto simp: GM_Start_def demo_tick_def demo_env)
qed

definition demo_gm1 :: GameManager where "demo_gm1 = fst (snd demo_state)"
definition demo_net1 :: Net where "demo_net1 = snd (snd demo_state)"

lemma demo_run1: "server_run demo_enc True [] shipped_config (fst demo_state, demo_gm1, demo_net1)"
  using demo_run by (simp add: demo_gm1_def demo_net1_def)

lemma demo_gm1_ok: "gm_ok demo_gm1 \<and> roomy demo_gm1 \<and> batches_empty demo_gm1"
  using server_run_ok [OF demo_run demo_good] by (simp add: demo_gm1_def)

lemma demo_player: "map_option (\<lambda>p. (m_position p, m_isActive p, m_sessionId p)) (GetPlayer (m_world demo_gm1) 7) =
    Some (From2D (Fin 20) (Fin 20), True, 0)"
  by code_simp

section \<open>Properties\<close>

text \<open>
  C1: in every reachable state the quad tree holds exactly the active players, each at its
  current position; every player is stored under its own id and stands inside the map; and no
  packet is left in a batch between two iterations of the loop.
\<close>

theorem reachable_simulation_invariant:
  assumes "server_run enc sm cache cfg (t, gm, net)" "good_config sm cache cfg"
  shows "qt_ok (m_quadTree gm) \<and> (\<forall>k. qt_at (m_quadTree gm) k = indexed (m_world gm) k) \<and>
    (\<forall>k p. GetPlayer (m_world gm) k = Some p \<longrightarrow> m_playerId p = k \<and> IsValidPosition gm (m_position p)) \<and>
    batches_empty gm"
  using server_run_ok [OF assms] gm_ok_player [of gm] by (auto simp: gm_ok_def sim_ok_def)

theorem reachable_simulation_invariant_witness:
  "qt_at (m_quadTree demo_gm1) 7 = Some (From2D (Fin 20) (Fin 20))"
proof -
  have "indexed (m_world demo_gm1) 7 = Some (From2D (Fin 20) (Fin 20))"
    using demo_player by (auto simp: indexed_def)
  then show ?thesis
    using reachable_simulation_invariant [OF demo_run1 demo_good] by simp
qed

text \<open>
  C22: in every reachable state the area of interest around any finite point is exact: each
  active player within the range, by the server's own float test, is listed once, and nobody
  else is.
\<close>

theorem reachable_aoi_exact:
  assumes "server_run enc sm cache cfg (t, gm, net)" "good_config sm cache cfg" "is_fin (vx c)" "is_fin (vy c)"
  shows "distinct (GetPlayersInAOI gm c) \<and> set (GetPlayersInAOI gm c) =
    {k. \<exists>p. GetPlayer (m_world gm) k = Some p \<and> m_isActive p \<and> in_radius c (m_aoiRange gm) (m_position p)}"
  using GetPlayersInAOI_exact [of gm c] server_run_ok [OF assms(1,2)] assms(3,4) by simp

theorem reachable_aoi_exact_witness:
  "set (GetPlayersInAOI demo_gm1 (From2D (Fin 25) (Fin 20))) =
     {k. \<exists>p. GetPlayer (m_world demo_gm1) k = Some p \<and> m_isActive p \<and>
       in_radius (From2D (Fin 25) (Fin 20)) (m_aoiRange demo_gm1) (m_position p)} \<and>
   GetPlayersInAOI demo_gm1 (From2D (Fin 25) (Fin 20)) = [7]"
proof -
  have "GetPlayersInAOI demo_gm1 (From2D (Fin 25) (Fin 20)) = [7]" by code_simp
  then show ?thesis
    using reachable_aoi_exact [OF demo_run1 demo_good, of "From2D (Fin 25) (Fin 20)"]
    by (simp add: From2D_def)
qed

end
