(* ===== verification/Handler_Properties.thy ===== *)
theory Handler_Properties
  imports Game_Properties
begin

text \<open>
  What the command handlers do to the world and what clients are told about it: entering,
  reconnecting, leaving, accepted inputs and the direction they select.
\<close>

section \<open>Lemmas\<close>

lemma concat_near_ids:
  assumes "\<forall>j \<in> set ids. GetPlayer (m_world gm) j \<noteq> None"
  shows "map info_player_id (concat (map (near_player_info gm k) ids)) = filter (\<lambda>j. j \<noteq> k) ids"
  using assms by (induction ids) (auto simp: near_player_info_def CreatePlayerInfo_def)

definition zone_entered :: "uint64 \<Rightarrow> Player \<Rightarrow> PlayerInfo list \<Rightarrow> UnifiedPacket" where
  "zone_entered k p near = CreateUnifiedPacket PacketId_S_ZoneEntered
     (Packet_S_ZoneEntered 1 (CreatePlayerInfo k (Some (player_label k)) (Some (m_position p)) 100 100) near)"

lemma SendEnterZoneResponse_send:
  assumes "GetPlayer (m_world gm) k = Some p" "cache_ok (stringCache gm)" "IsConnected (store net a)"
  shows "snd (SendEnterZoneResponse enc gm net k (Some a)) = upd_session net a (\<lambda>s. Send s (enc (zone_entered k p
    (concat (map (near_player_info gm k) (GetPlayersInAOI gm (m_position p)))))))"
proof -
  have "near_player_info (gm\<lparr>stringCache := c\<rparr>) k = near_player_info gm k" for c
    by (simp add: near_player_info_def fun_eq_iff)
  then show ?thesis using assms GetPlayerName_ok [OF assms(2), of k]
    by (simp add: SendEnterZoneResponse_def zone_entered_def GetPlayersInAOI_def Let_def split_beta)
qed

lemma BroadcastPlayerJoined_fold:
  "GetPlayer (m_world gm) k = Some p \<Longrightarrow> BroadcastPlayerJoined enc gm net k =
   fold (broadcast_step k (enc (CreateUnifiedPacket PacketId_S_PlayerJoined (Packet_S_PlayerJoined
     (CreatePlayerInfo k (Some (player_label k)) (Some (m_position p)) (m_hp p) (m_maxHp p)))))) (m_world gm) net"
  by (simp add: BroadcastPlayerJoined_def Let_def broadcast_step_fold)

lemma BroadcastPlayerLeft_fold:
  "BroadcastPlayerLeft enc gm net k =
   fold (broadcast_step k (enc (CreateUnifiedPacket PacketId_S_PlayerLeft (Packet_S_PlayerLeft k)))) (m_world gm) net"
  by (simp add: BroadcastPlayerLeft_def Let_def broadcast_step_fold)

lemma GetSession_upd_session [simp]: "GetSession (upd_session net a f) = GetSession net"
  by (simp add: GetSession_def upd_session_def fun_eq_iff)

lemma store_upd_session [simp]: "store (upd_session net a f) b = (if b = a then f (store net a) else store net b)"
  by (simp add: upd_session_def)

text \<open>The new player, and the state in which the response and the broadcast are sent.\<close>

definition new_player :: "cmd_env \<Rightarrow> GameManager \<Rightarrow> EnterZoneCommandData \<Rightarrow> Player" where
  "new_player env gm d = SetSessionId (mk_Player (ez_playerId d) (player_label (ez_playerId d))
     (GetSpawnPosition (ce_disX env) (ce_disY env) gm)) (ez_sessionId d)"

definition entered :: "cmd_env \<Rightarrow> GameManager \<Rightarrow> EnterZoneCommandData \<Rightarrow> GameManager" where
  "entered env gm d = gm\<lparr>m_world := AddPlayer (m_world gm) (new_player env gm d),
     m_quadTree := QT_Insert (m_quadTree gm) (ez_playerId d) (GetSpawnPosition (ce_disX env) (ce_disY env) gm),
     stringCache := snd (GetPlayerName (stringCache gm) (ez_playerId d))\<rparr>"

lemma new_player_simps [simp]: "m_playerId (new_player env gm d) = ez_playerId d" "m_isActive (new_player env gm d)"
  "m_sessionId (new_player env gm d) = ez_sessionId d"
  "m_position (new_player env gm d) = GetSpawnPosition (ce_disX env) (ce_disY env) gm"
  by (simp_all add: new_player_def player_setters)

lemma entered_simps [simp]: "GetPlayer (m_world (entered env gm d)) = (GetPlayer (m_world gm))(ez_playerId d \<mapsto> new_player env gm d)"
  "m_aoiRange (entered env gm d) = m_aoiRange gm"
  by (auto simp: entered_def fun_eq_iff)

lemma HandleEnterZone_new:
  assumes "GetPlayer (m_world gm) (ez_playerId d) = None" "cache_ok (stringCache gm)" "IsConnected (store net a)"
  shows "HandleEnterZone enc env gm net d (Some a) = (entered env gm d, BroadcastPlayerJoined enc (entered env gm d)
    (upd_session net a (\<lambda>s. Send s (enc (zone_entered (ez_playerId d) (new_player env gm d)
      (concat (map (near_player_info (entered env gm d) (ez_playerId d))
        (GetPlayersInAOI (entered env gm d) (m_position (new_player env gm d)))))))))
    (ez_playerId d))"
proof -
  define g where "g = gm\<lparr>m_world := AddPlayer (m_world gm) (new_player env gm d),
     m_quadTree := QT_Insert (m_quadTree gm) (ez_playerId d) (GetSpawnPosition (ce_disX env) (ce_disY env) gm)\<rparr>"
  have H: "HandleEnterZone enc env gm net d (Some a) = (case SendEnterZoneResponse enc g net (ez_playerId d) (Some a) of
      (gm, net) \<Rightarrow> (gm, BroadcastPlayerJoined enc gm net (ez_playerId d)))"
    using assms(1) by (simp add: HandleEnterZone_def g_def new_player_def Let_def)
  have get: "GetPlayer (m_world g) (ez_playerId d) = Some (new_player env gm d)" and sc: "stringCache g = stringCache gm"
    by (simp_all add: g_def)
  have e: "entered env gm d = g\<lparr>stringCache := snd (GetPlayerName (stringCache g) (ez_playerId d))\<rparr>"
    by (simp add: entered_def g_def)
  have f: "fst (SendEnterZoneResponse enc g net (ez_playerId d) (Some a)) = entered env gm d"
    using get by (simp add: SendEnterZoneResponse_fst e)
  have z: "near_player_info (entered env gm d) = near_player_info g"
    "GetPlayersInAOI (entered env gm d) = GetPlayersInAOI g"
    by (simp_all add: e near_player_info_def GetPlayersInAOI_def fun_eq_iff)
  show ?thesis using SendEnterZoneResponse_send [OF get, of net a enc] assms(2,3) f
    unfolding H z by (simp add: split_beta sc)
qed

section \<open>Properties\<close>

text \<open>
  C18: while a player stays connected, the inputs the server accepts from it have strictly
  increasing sequence numbers and are at least 33 ms apart, whatever other commands are
  processed in between.
\<close>

theorem accepted_inputs_increasing:
  assumes "\<forall>(env, c) \<in> set cs. ce_check env \<le> ce_stamp env \<and> no_disconnect k c"
  shows "sorted_wrt (\<lambda>(t, s) (t', s'). t + 33000000 \<le> t' \<and> s < s') (accepted_inputs enc k cs gm net)"
proof -
  have "input_after = (\<lambda>(t, s) (t', s'). t + 33000000 \<le> t' \<and> s < s')"
    by (auto simp: input_after_def fun_eq_iff)
  then show ?thesis using accepted_inputs_ordered [OF assms] by simp
qed

definition demo_inputs :: "(cmd_env \<times> GameCommand) list" where
  "demo_inputs = [(demo_cmd_env 100000000, input_command 7 0 1 1), (demo_cmd_env 110000000, input_command 7 0 2 2),
     (demo_cmd_env 140000000, input_command 7 0 2 2), (demo_cmd_env 180000000, input_command 7 0 4 2)]"

theorem accepted_inputs_increasing_witness:
  "sorted_wrt (\<lambda>(t, s) (t', s'). t + 33000000 \<le> t' \<and> s < s') (accepted_inputs demo_enc 7 demo_inputs demo_gm1 demo_net1) \<and>
   accepted_inputs demo_enc 7 demo_inputs demo_gm1 demo_net1 = [(100000000, 1), (140000000, 2)]"
proof -
  have "accepted_inputs demo_enc 7 demo_inputs demo_gm1 demo_net1 = [(100000000, 1), (140000000, 2)]" by code_simp
  then show ?thesis
    using accepted_inputs_increasing [of demo_inputs 7 demo_enc demo_gm1 demo_net1]
    by (simp add: demo_inputs_def demo_cmd_env_def no_disconnect_def input_command_def)
qed


definition demo_enter :: EnterZoneCommandData where
  "demo_enter = \<lparr>ez_playerId = 9, ez_zoneId = 1, ez_sessionId = 0\<rparr>"

definition demo_entered :: "GameManager \<times> Net" where
  "demo_entered = HandleEnterZone demo_enc (demo_cmd_env 5) demo_gm1 demo_net1 demo_enter (Some 0)"

lemma demo_entered_pre: "GetPlayer (m_world demo_gm1) (ez_playerId demo_enter) = None" "IsConnected (store demo_net1 0)"
  "HandleEnterZone demo_enc (demo_cmd_env 5) demo_gm1 demo_net1 demo_enter (Some 0) = (fst demo_entered, snd demo_entered)"
proof -
  show "GetPlayer (m_world demo_gm1) (ez_playerId demo_enter) = None" "IsConnected (store demo_net1 0)" by code_simp+
qed (simp add: demo_entered_def)


text \<open>
  When a player enters for the first time, every other session is told about it with one
  \<open>S_PlayerJoined\<close> packet per active player that it carries, and only connected sessions are
  written to.
\<close>

theorem enter_zone_notifies_others:
  assumes "gm_ok gm" "GetPlayer (m_world gm) (ez_playerId d) = None" "IsConnected (store net a)" "b \<noteq> a"
    and "HandleEnterZone enc env gm net d (Some a) = (gm', net')"
  shows "m_writeQueue (store net' b) = m_writeQueue (store net b) @
    replicate (recipients net (ez_playerId d) b (m_world gm'))
      (frame (enc (CreateUnifiedPacket PacketId_S_PlayerJoined (Packet_S_PlayerJoined
        (CreatePlayerInfo (ez_playerId d) (Some (player_label (ez_playerId d)))
          (Some (GetSpawnPosition (ce_disX env) (ce_disY env) gm)) 100 100)))))"
proof -
  let ?k = "ez_playerId d" and ?p = "new_player env gm d" and ?g = "entered env gm d"
  note H = HandleEnterZone_new [OF assms(2) _ assms(3), of enc env]
  have gm': "gm' = ?g" using H assms(1,5) by (simp add: gm_ok_def)
  have hp: "m_hp ?p = 100" "m_maxHp ?p = 100" by (simp_all add: new_player_def player_setters)
  have "reaches (upd_session net a f) ?k b = reaches net ?k b" for f
    using assms(4) by (simp add: reaches_def fun_eq_iff)
  then have "recipients (upd_session net a f) ?k b w = recipients net ?k b w" for f w
    by (simp only: recipients_def)
  then show ?thesis using H assms(1,4,5) BroadcastPlayerJoined_fold [of ?g ?k ?p enc] gm' hp
    by (auto simp: gm_ok_def broadcast_queue)
qed

theorem enter_zone_notifies_others_witness:
  "m_writeQueue (store (snd demo_entered) 1) = m_writeQueue (store demo_net1 1) @
    replicate (recipients demo_net1 9 1 (m_world (fst demo_entered)))
      (frame (demo_enc (CreateUnifiedPacket PacketId_S_PlayerJoined (Packet_S_PlayerJoined
        (CreatePlayerInfo 9 (Some (player_label 9)) (Some (GetSpawnPosition demo_draw demo_draw demo_gm1)) 100 100)))))"
  using enter_zone_notifies_others [OF _ demo_entered_pre(1,2) _ demo_entered_pre(3), of 1] demo_gm1_ok
  by (simp add: demo_enter_def demo_cmd_env_def)

text \<open>
  C25: when a player's connection ends, it stays in the world, inactive and at its place, with
  its sequence number reset; no other player changes; it disappears from every area of
  interest; and each session gets one \<open>S_PlayerLeft\<close> packet per other active player it
  carries, on connected sessions only.
\<close>

theorem disconnect_effect:
  assumes "gm_ok gm" "GetPlayer (m_world gm) (pd_playerId d) = Some p"
    and "HandlePlayerDisconnect enc env gm net d = (gm', net')"
  shows "GetPlayer (m_world gm') = (GetPlayer (m_world gm))(pd_playerId d \<mapsto>
      p\<lparr>m_isActive := False, m_disconnectTime := ce_stamp env, m_lastInputSequence := 0\<rparr>) \<and>
    (\<forall>c. is_fin (vx c) \<and> is_fin (vy c) \<longrightarrow> pd_playerId d \<notin> set (GetPlayersInAOI gm' c)) \<and>
    (\<forall>a. m_writeQueue (store net' a) = m_writeQueue (store net a) @
      replicate (recipients net (pd_playerId d) a (m_world gm'))
        (frame (enc (CreateUnifiedPacket PacketId_S_PlayerLeft (Packet_S_PlayerLeft (pd_playerId d))))))"
proof -
  have ok: "gm_ok gm'" using HandlePlayerDisconnect_ok [OF assms(1), of enc env net d] assms(3) by simp
  have get: "GetPlayer (m_world gm') = (GetPlayer (m_world gm))(pd_playerId d \<mapsto>
      p\<lparr>m_isActive := False, m_disconnectTime := ce_stamp env, m_lastInputSequence := 0\<rparr>)"
    and net': "net' = BroadcastPlayerLeft enc gm' net (pd_playerId d)"
    using assms(2,3) by (auto simp: HandlePlayerDisconnect_def player_setters fun_eq_iff)
  have "pd_playerId d \<notin> set (GetPlayersInAOI gm' c)" if "is_fin (vx c)" "is_fin (vy c)" for c
    using GetPlayersInAOI_exact [OF ok that] get by auto
  then show ?thesis using get net' by (simp add: BroadcastPlayerLeft_fold broadcast_queue)
qed

definition demo_left :: "GameManager \<times> Net" where
  "demo_left = HandlePlayerDisconnect demo_enc (demo_cmd_env 5) demo_gm1 demo_net1 \<lparr>pd_playerId = 7\<rparr>"

lemma demo_left_eq: "HandlePlayerDisconnect demo_enc (demo_cmd_env 5) demo_gm1 demo_net1 \<lparr>pd_playerId = 7\<rparr> =
    (fst demo_left, snd demo_left)"
  by (simp add: demo_left_def)

theorem disconnect_effect_witness:
  "\<exists>p. GetPlayer (m_world demo_gm1) 7 = Some p \<and> m_isActive p \<and>
    GetPlayer (m_world (fst demo_left)) 7 = Some (p\<lparr>m_isActive := False, m_disconnectTime := 5, m_lastInputSequence := 0\<rparr>) \<and>
    7 \<notin> set (GetPlayersInAOI (fst demo_left) (From2D (Fin 20) (Fin 20)))"
proof -
  obtain p where p: "GetPlayer (m_world demo_gm1) 7 = Some p" "m_isActive p" using demo_player by auto
  then show ?thesis
    using disconnect_effect [OF _ _ demo_left_eq, of p] demo_gm1_ok
    by (simp add: demo_cmd_env_def From2D_def)
qed

text \<open>
  A player who leaves and comes back finds position and velocity as they were, so it keeps
  walking in the last direction without a new input; only the session, the connection times and
  the sequence number are new.
\<close>

theorem reconnect_keeps_velocity:
  assumes "GetPlayer (m_world gm) k = Some p"
    and "HandlePlayerDisconnect enc env gm net \<lparr>pd_playerId = k\<rparr> = (gm1, net1)"
    and "HandleEnterZone enc env' gm1 net2 \<lparr>ez_playerId = k, ez_zoneId = z, ez_sessionId = sid\<rparr> s = (gm2, net3)"
  shows "GetPlayer (m_world gm2) k = Some (p\<lparr>m_isActive := True, m_sessionId := sid, m_disconnectTime := ce_stamp env,
    m_lastInputSequence := 0\<rparr>)"
proof -
  have "GetPlayer (m_world gm1) k = Some (p\<lparr>m_isActive := False, m_disconnectTime := ce_stamp env, m_lastInputSequence := 0\<rparr>)"
    using assms(1,2) by (auto simp: HandlePlayerDisconnect_def player_setters)
  then have "m_world gm2 = UpdatePlayer (m_world gm1) k (p\<lparr>m_disconnectTime := ce_stamp env, m_lastInputSequence := 0,
      m_isActive := True, m_sessionId := sid\<rparr>)"
    using assms(3) by (auto simp: HandleEnterZone_def player_setters split_beta)
  then show ?thesis by (cases p) simp
qed

definition demo_back :: "GameManager \<times> Net" where
  "demo_back = HandleEnterZone demo_enc (demo_cmd_env 6) (fst demo_left) demo_net1
     \<lparr>ez_playerId = 7, ez_zoneId = 1, ez_sessionId = 3\<rparr> None"

theorem reconnect_keeps_velocity_witness:
  "map_option (\<lambda>p. (m_velocity p, m_sessionId p)) (GetPlayer (m_world (fst demo_back)) 7) =
   map_option (\<lambda>p. (m_velocity p, 3)) (GetPlayer (m_world demo_gm1) 7)"
proof -
  obtain p where p: "GetPlayer (m_world demo_gm1) 7 = Some p" using demo_player by auto
  have "HandleEnterZone demo_enc (demo_cmd_env 6) (fst demo_left) demo_net1
      \<lparr>ez_playerId = 7, ez_zoneId = 1, ez_sessionId = 3\<rparr> None = (fst demo_back, snd demo_back)"
    by (simp add: demo_back_def)
  from reconnect_keeps_velocity [OF p demo_left_eq this] p show ?thesis by simp
qed

definition sign_x :: "uint8 \<Rightarrow> rat" where "sign_x f = (if f AND flag_D \<noteq> 0 then 1 else -1)"
definition sign_y :: "uint8 \<Rightarrow> rat" where "sign_y f = (if f AND flag_W \<noteq> 0 then 1 else -1)"

definition scaled_diagonal :: "rat \<Rightarrow> uint8 \<Rightarrow> Vec3" where
  "scaled_diagonal r f = vec3 (Fin (sign_x f * r)) (Fin (sign_y f * r)) (Fin 0)"

text \<open>The direction table of the game manager agrees with the direction function of
  \<open>GameCommand.h\<close> on every input byte, except on the four diagonals, where both components of
  the table are exactly one unit in the last place (\<open>2 ^ -24\<close>) shorter, with the same signs.
\<close>

theorem direction_table_agrees:
  "if f AND 15 \<in> {5, 6, 9, 10}
   then GM_InputFlagsToDirection f = scaled_diagonal (11863282 / 16777216) f \<and>
     InputFlagsToDirection f = scaled_diagonal (11863283 / 16777216) f
   else GM_InputFlagsToDirection f = InputFlagsToDirection f"
proof -
  have low: "GM_InputFlagsToDirection f = GM_InputFlagsToDirection (f AND 15)"
    "InputFlagsToDirection f = InputFlagsToDirection (f AND 15)" "scaled_diagonal r f = scaled_diagonal r (f AND 15)" for r
    by (simp_all add: GM_InputFlagsToDirection_def InputFlagsToDirection_def scaled_diagonal_def sign_x_def sign_y_def
        flag_W_def flag_S_def flag_A_def flag_D_def and.assoc)
  have straight: "\<forall>n \<in> {0, 1, 2, 3, 4, 7, 8, 11, 12, 13, 14, 15}. GM_InputFlagsToDirection n = InputFlagsToDirection n"
    by code_simp
  have diagonal: "\<forall>n \<in> {5, 6, 9, 10}. GM_InputFlagsToDirection n = scaled_diagonal (11863282 / 16777216) n \<and>
      InputFlagsToDirection n = scaled_diagonal (11863283 / 16777216) n"
    by code_simp
  show ?thesis using low_nibble_cases [of f] straight diagonal unfolding low by auto
qed

end
