(* ===== verification/Tick_Properties.thy ===== *)
theory Tick_Properties
  imports Game_Properties
begin

text \<open>
  What one iteration of the game loop does: the command batch, movement, cached areas of
  interest, the snapshots that clients receive, pacing; and the configuration.
\<close>

section \<open>Lemmas\<close>

lemma ProcessGameCommand_tick:
  "m_tickNumber (fst (ProcessGameCommand enc env gm net c)) = m_tickNumber gm"
  by (simp add: ProcessGameCommand_def HandlePlayerInput_def HandleEnterZone_def HandlePlayerDisconnect_def
      SendEnterZoneResponse_fst Let_def split_beta split: GameCommandPayload.split option.split)

lemma ProcessGameCommands_tick:
  "m_tickNumber (fst (fold (\<lambda>(i, c) (gm, net). ProcessGameCommand enc (env i) gm net c) ics s)) = m_tickNumber (fst s)"
  by (induction ics arbitrary: s) (simp_all add: split_beta ProcessGameCommand_tick)

lemma ProcessPendingCommands_tick:
  "ProcessPendingCommands enc te gm net = Some (gm', net') \<Longrightarrow> m_tickNumber gm' = m_tickNumber gm"
  using ProcessGameCommands_tick [of enc "te_cmd te" _ "(gm, _)"]
  by (auto simp: ProcessPendingCommands_def split_beta split: if_splits)

lemma UpdateWorld_tick: "m_tickNumber (UpdateWorld dt gm) = m_tickNumber gm"
  unfolding UpdateWorld_fold by (rule fold_keeps) (simp_all add: update_player_def split_beta)

lemma snapshot_player_tick: "m_tickNumber (snapshot_player enc time kp gm) = m_tickNumber gm"
  using snapshot_player_frame by blast

lemma SendWorldSnapshots_tick: "m_tickNumber (SendWorldSnapshots enc now gm) = m_tickNumber gm + 1"
  unfolding SendWorldSnapshots_fold by (rule fold_keeps) (simp_all add: snapshot_player_tick)

lemma batch_out_body: "body_ok x \<Longrightarrow> batch_out [x] = [frame x]"
  using batch_size_iff [of "[x]" 0] by (simp add: batch_out_def body_ok_def framed_size_def)

lemma ReadLoop_single: "body_ok x \<Longrightarrow> fst (ReadLoop (frame x)) = [x]"
  using ReadLoop_frame [of x "[]"] by (simp add: ReadLoop.simps [of "[]"])

section \<open>Properties\<close>

text \<open>
  C23: a tick moves each active player by its velocity times the elapsed time, unless that would
  leave the map, in which case it stays; inactive players stay; nothing else about a player
  changes; and the spatial index follows.
\<close>

theorem UpdateWorld_movement:
  assumes "gm_ok gm"
  shows "GetPlayer (m_world (UpdateWorld dt gm)) k = map_option (\<lambda>p.
      let newPos = vec3_add (m_position p) (vec3_scale (m_velocity p) dt)
      in if m_isActive p \<and> IsValidPosition gm newPos then p\<lparr>m_position := newPos\<rparr> else p) (GetPlayer (m_world gm) k) \<and>
    qt_at (m_quadTree (UpdateWorld dt gm)) = indexed (m_world (UpdateWorld dt gm))"
proof -
  have "moved gm dt = (\<lambda>p. let newPos = vec3_add (m_position p) (vec3_scale (m_velocity p) dt)
      in if m_isActive p \<and> IsValidPosition gm newPos then p\<lparr>m_position := newPos\<rparr> else p)"
    by (simp add: moved_def SetPosition_def fun_eq_iff Let_def)
  then show ?thesis using UpdateWorld_ok [OF assms, of dt] by (simp add: gm_ok_def sim_ok_def)
qed

theorem UpdateWorld_movement_witness:
  "qt_at (m_quadTree (UpdateWorld (Fin (1 / 2)) demo_gm1)) = indexed (m_world (UpdateWorld (Fin (1 / 2)) demo_gm1))"
  using UpdateWorld_movement [of demo_gm1] demo_gm1_ok by blast

text \<open>
  C36: the visible list of a player is never older than the refresh interval.  Either it was
  computed in this tick and is exact, or it is the cached one, the cache is younger than
  \<open>m_aoiUpdateInterval\<close> ticks and the player has not moved by the threshold since.
\<close>

theorem cached_aoi_fresh:
  assumes "gm_ok gm" "IsValidPosition gm pos" "GetCachedPlayersInAOI gm k pos = (vis, gm')"
  shows "(\<exists>cache. um_find (m_aoiCache gm') k = Some cache \<and> visiblePlayers cache = vis \<and>
      lastUpdateTick cache = m_tickNumber gm \<and> lastPosition cache = pos \<and>
      distinct vis \<and> set vis = {j. \<exists>p. GetPlayer (m_world gm) j = Some p \<and> m_isActive p \<and> in_radius pos (m_aoiRange gm) (m_position p)})
   \<or> (\<exists>cache. um_find (m_aoiCache gm) k = Some cache \<and> m_aoiCache gm' = m_aoiCache gm \<and> visiblePlayers cache = vis \<and>
      m_tickNumber gm - lastUpdateTick cache < word_of_int (m_aoiUpdateInterval gm) \<and>
      \<not> fp_le (m_aoiPositionThreshold gm) (distanceMoved (vec3_sub pos (lastPosition cache))))"
proof (cases "ShouldUpdateAOI gm k pos")
  case True
  then have "vis = GetPlayersInAOI gm pos" "gm' = count_executed (UpdateAOICache gm k pos vis)"
    using assms(3) by (auto simp: GetCachedPlayersInAOI_def Let_def)
  moreover have "um_find (m_aoiCache (count_executed (UpdateAOICache gm k pos v))) k = Some
      \<lparr>visiblePlayers = v, lastUpdateTick = m_tickNumber gm, lastPosition = pos\<rparr>" for v
    by (simp add: count_executed_def UpdateAOICache_def um_index_def default_AOICache_def split: option.split)
  ultimately show ?thesis using GetPlayersInAOI_exact [OF assms(1), of pos] valid_fin [OF assms(2)] by simp
next
  case False
  then obtain cache where c: "um_find (m_aoiCache gm) k = Some cache"
    "m_tickNumber gm - lastUpdateTick cache < word_of_int (m_aoiUpdateInterval gm)"
    "\<not> fp_le (m_aoiPositionThreshold gm) (distanceMoved (vec3_sub pos (lastPosition cache)))"
    by (auto simp: ShouldUpdateAOI_def not_le split: option.splits if_splits)
  then have "vis = visiblePlayers cache" "m_aoiCache gm' = m_aoiCache gm"
    using assms(3) False by (auto simp: GetCachedPlayersInAOI_def count_skipped_def)
  then show ?thesis using c by blast
qed

theorem cached_aoi_fresh_witness:
  "fst (GetCachedPlayersInAOI demo_gm1 7 (From2D (Fin 20) (Fin 20))) = [7] \<and>
   (\<exists>cache. um_find (m_aoiCache demo_gm1) 7 = Some cache \<and> visiblePlayers cache = [7] \<and>
     m_tickNumber demo_gm1 - lastUpdateTick cache < 3)"
proof -
  let ?pos = "From2D (Fin 20) (Fin 20)"
  let ?r = "GetCachedPlayersInAOI demo_gm1 7 ?pos"
  have r: "fst ?r = [7]" by code_simp
  have "\<not> ShouldUpdateAOI demo_gm1 7 ?pos" by code_simp
  then have "m_aoiCache (snd ?r) = m_aoiCache demo_gm1"
    by (auto simp: GetCachedPlayersInAOI_def count_skipped_def ShouldUpdateAOI_def split: option.splits)
  moreover have "IsValidPosition demo_gm1 ?pos" "m_aoiUpdateInterval demo_gm1 = 3" by code_simp+
  moreover have "0 < (3 :: uint64)" by simp
  ultimately show ?thesis
    using cached_aoi_fresh [of demo_gm1 ?pos 7 "[7]" "snd ?r"] demo_gm1_ok r prod.collapse [of ?r]
    by (simp only: r) auto
qed



text \<open>
  A snapshot describes each visible player that is in the world with its position and
  velocity; but the field \<open>rotation\<close> carries the connection state (1 or 0), and hit points,
  mana and the last acknowledged input number are always 0.
\<close>

theorem snapshot_contents:
  assumes "\<forall>k \<in> set vis. GetPlayer (m_world gm) k \<noteq> None"
  shows "\<exists>states. snapshot_packet gm vis time = CreateUnifiedPacket PacketId_S_WorldSnapshot (Packet_S_WorldSnapshot
      \<lparr>snap_tick_number = m_tickNumber gm, snap_server_time = time, snap_player_states = states, snap_events = []\<rparr>) \<and>
    map st_player_id states = vis \<and>
    (\<forall>st \<in> set states. \<exists>p. GetPlayer (m_world gm) (st_player_id st) = Some p \<and> st_position st = Some (m_position p) \<and>
      st_velocity st = Some (m_velocity p) \<and> st_rotation st = (if m_isActive p then Fin 1 else Fin 0) \<and>
      st_hp st = 0 \<and> st_mp st = 0 \<and> st_last_input_sequence st = 0)"
proof -
  let ?states = "concat (map (player_state gm) vis)"
  have "map st_player_id ?states = vis"
    using assms by (induction vis) (auto simp: player_state_def CreatePlayerState_def)
  moreover have "\<exists>p. GetPlayer (m_world gm) (st_player_id st) = Some p \<and> st_position st = Some (m_position p) \<and>
      st_velocity st = Some (m_velocity p) \<and> st_rotation st = (if m_isActive p then Fin 1 else Fin 0) \<and>
      st_hp st = 0 \<and> st_mp st = 0 \<and> st_last_input_sequence st = 0" if st: "st \<in> set ?states" for st
  proof -
    obtain k where "st \<in> set (player_state gm k)" using st by auto
    then show ?thesis by (cases "GetPlayer (m_world gm) k") (simp_all add: player_state_def CreatePlayerState_def)
  qed
  ultimately show ?thesis by (intro exI [of _ ?states]) (simp add: snapshot_packet_def)
qed

theorem snapshot_contents_witness:
  "\<exists>states. up_data (snapshot_packet demo_gm1 [7] 0) = Some (Packet_S_WorldSnapshot
     \<lparr>snap_tick_number = m_tickNumber demo_gm1, snap_server_time = 0, snap_player_states = states, snap_events = []\<rparr>) \<and>
   map st_player_id states = [7]"
proof -
  have "\<forall>k \<in> set [7]. GetPlayer (m_world demo_gm1) k \<noteq> None" using demo_player by auto
  from snapshot_contents [OF this, of 0] show ?thesis by (auto simp: CreateUnifiedPacket_def)
qed

text \<open>
  C37: the commands of a tick are a prefix of the queue, in order, and at most
  \<open>m_commandBatchSize\<close> of them; what stays in the queue is the rest, except for one command
  that is popped and lost when the server is found stopped after the pop.
\<close>

theorem command_batch_fifo:
  assumes "collect_commands expired running limit [] q = (batch, q')"
  shows "length batch \<le> limit \<and> (\<exists>n d. batch = take n (q_items q) \<and> q' = q\<lparr>q_items := drop (n + d) (q_items q)\<rparr> \<and>
    (d = 0 \<or> d = 1 \<and> \<not> running (length batch)))"
  using collect_commands_prefix [OF assms] by auto

definition demo_queue :: "GameCommand shut_queue" where
  "demo_queue = \<lparr>q_items = [enter_zone_command 1 1, enter_zone_command 2 2, enter_zone_command 3 3], m_shuttingDown = False\<rparr>"

theorem command_batch_fifo_witness:
  "\<exists>n d. [enter_zone_command 1 1] = take n (q_items demo_queue) \<and>
     [enter_zone_command 3 3] = drop (n + d) (q_items demo_queue) \<and> (d = 0 \<or> d = 1)"
proof -
  have "collect_commands (\<lambda>_. False) (\<lambda>i. i < 1) 5 [] demo_queue =
      ([enter_zone_command 1 1], demo_queue\<lparr>q_items := [enter_zone_command 3 3]\<rparr>)"
    by (simp add: collect_commands.simps TryPopGameCommand_def try_dequeue_def demo_queue_def)
  from command_batch_fifo [OF this] show ?thesis
    by (auto simp: demo_queue_def)
qed

text \<open>
  An iteration of the loop in which less than the tick duration has passed changes nothing;
  otherwise, if the batch size is not negative, the tick number grows by one and the time of
  the last tick becomes the current time, so ticks are at least one tick duration apart.
\<close>

theorem loop_pacing:
  assumes "0 < m_tickDuration gm"
  shows "if t + m_tickDuration gm * 1000000 \<le> te_now te
    then (0 \<le> m_commandBatchSize gm \<longrightarrow> (\<exists>gm' net'. GameLoop_iteration enc te t gm net = (te_now te, gm', net') \<and>
      m_tickNumber gm' = m_tickNumber gm + 1))
    else GameLoop_iteration enc te t gm net = (t, gm, net)"
proof -
  have due: "m_tickDuration gm \<le> duration_cast ns_per_ms (te_now te - t) \<longleftrightarrow> t + m_tickDuration gm * 1000000 \<le> te_now te"
    using duration_cast_ge [of ns_per_ms "m_tickDuration gm" "te_now te - t"] assms by (auto simp: ns_per_ms_def)
  have keep: "m_tickNumber (report_if_due (add_times te (fst (FlushAllBatches g n)))) = m_tickNumber g" for g n
    by (simp add: report_if_due_def add_times_def ReportPerformanceStats_def FlushAllBatches_def Let_def)
  show ?thesis
  proof (cases "t + m_tickDuration gm * 1000000 \<le> te_now te")
    case True
    show ?thesis
    proof (cases "0 \<le> m_commandBatchSize gm")
      case size: True
      then obtain g n where P: "ProcessPendingCommands enc te gm net = Some (g, n)"
        by (auto simp: ProcessPendingCommands_def split_beta)
      have "m_tickNumber g = m_tickNumber gm" by (rule ProcessPendingCommands_tick [OF P])
      then show ?thesis using True due
        by (simp add: GameLoop_iteration_def P Let_def split_beta keep SendWorldSnapshots_tick UpdateWorld_tick)
    qed (use True in simp)
  next
    case False
    then show ?thesis using due by (simp add: GameLoop_iteration_def Let_def)
  qed
qed

theorem loop_pacing_witness:
  "GameLoop_iteration demo_enc (demo_tick 20000000) 0 demo_gm demo_net = (0, demo_gm, demo_net) \<and>
   (\<exists>gm' net'. GameLoop_iteration demo_enc (demo_tick 33000000) 0 demo_gm demo_net = (33000000, gm', net') \<and>
     m_tickNumber gm' = m_tickNumber demo_gm + 1)"
proof -
  have "m_tickDuration demo_gm = 33" "m_commandBatchSize demo_gm = 100" by code_simp+
  then show ?thesis
    using loop_pacing [of demo_gm 0 "demo_tick 20000000"] loop_pacing [of demo_gm 0 "demo_tick 33000000"]
    by (simp add: demo_tick_def)
qed

text \<open>
  Loading the configuration succeeds exactly when every member can be read and the tick
  rate is not zero, and then every parameter has the configured value and the tick duration is
  \<open>1000 / tick_rate\<close>; with a tick rate of zero the process divides by zero.
\<close>

theorem config_load_outcomes:
  assumes "LoadGameConfig (Parsed c) gm = (gm', r)"
  shows "(r = Loaded \<longleftrightarrow> cfg_aoi_range c \<noteq> None \<and> cfg_chat_range c \<noteq> None \<and> cfg_move_speed c \<noteq> None \<and>
      (\<exists>n. cfg_tick_rate c = Some n \<and> n \<noteq> 0) \<and> cfg_width c \<noteq> None \<and> cfg_height c \<noteq> None \<and> cfg_batch c \<noteq> None) \<and>
    (r = Loaded \<longrightarrow> cfg_aoi_range c = Some (m_aoiRange gm') \<and> cfg_chat_range c = Some (m_chatRange gm') \<and>
      cfg_move_speed c = Some (gm_moveSpeed gm') \<and> cfg_tick_rate c = Some (m_tickRate gm') \<and>
      m_tickDuration gm' = cpp_div 1000 (m_tickRate gm') \<and> cfg_width c = Some (m_mapWidth gm') \<and>
      cfg_height c = Some (m_mapHeight gm') \<and> cfg_batch c = Some (m_commandBatchSize gm')) \<and>
    (r = DivisionByZero \<longleftrightarrow> cfg_aoi_range c \<noteq> None \<and> cfg_chat_range c \<noteq> None \<and> cfg_move_speed c \<noteq> None \<and>
      cfg_tick_rate c = Some 0)"
  using assms by (auto simp: LoadGameConfig_def Let_def split: option.splits if_splits)

definition demo_config :: game_config where
  "demo_config = \<lparr>cfg_aoi_range = Some (Fin 30), cfg_chat_range = Some (Fin 25), cfg_move_speed = Some (Fin 5),
     cfg_tick_rate = Some 30, cfg_width = Some (Fin 200), cfg_height = Some (Fin 200), cfg_batch = Some 100\<rparr>"

theorem config_load_outcomes_witness:
  "\<exists>gm'. LoadGameConfig (Parsed demo_config) demo_gm = (gm', Loaded) \<and> m_tickDuration gm' = cpp_div 1000 30"
proof -
  obtain gm' r where g: "LoadGameConfig (Parsed demo_config) demo_gm = (gm', r)" by fastforce
  from config_load_outcomes [OF g] have "r = Loaded" by (simp add: demo_config_def)
  with config_load_outcomes [OF g] g show ?thesis by (auto simp: demo_config_def)
qed

text \<open>
  A configuration file that fails half way is not ignored.  Without the \<open>map\<close> section the
  load is aborted, yet the area of interest, the speed and the tick rate already have the
  values of the file.
\<close>

theorem config_partial_load:
  "LoadGameConfig (Parsed (demo_config\<lparr>cfg_width := None, cfg_tick_rate := Some 60\<rparr>)) (initial_GameManager True []) =
   ((initial_GameManager True [])\<lparr>m_aoiRange := Fin 30, m_chatRange := Fin 25, gm_moveSpeed := Fin 5,
      m_tickRate := 60, m_tickDuration := 16\<rparr>, Aborted)"
  by (simp add: LoadGameConfig_def demo_config_def initial_GameManager_def cpp_div_def)

end
