(* ===== verification/Stream_Properties.thy ===== *)
theory Stream_Properties
  imports Sessions
begin

text \<open>
  The properties of the queues between threads and of the byte stream between server and
  client.
\<close>

section \<open>Queues\<close>

text \<open>
  Both queues are first in, first out under every interleaving of pushes and blocking pops:
  what the pops returned, followed by what is still queued, is what was queued before, followed
  by what was pushed.
\<close>

theorem queues_fifo:
  assumes "\<not> m_shuttingDown q" "run_queue PushJob PopJob ops q = (out, q')"
    and "\<not> m_shuttingDown c" "run_queue PushGameCommand PopGameCommand cops c = (cout, c')"
  shows "out @ q_items q' = q_items q @ pushed ops \<and> cout @ q_items c' = q_items c @ pushed cops"
  using jq.history_fifo [OF assms(1,2)] glq.history_fifo [OF assms(3,4)] by blast

theorem queues_fifo_witness:
  "run_queue PushJob PopJob [Push (mk_Job 1 [5]), Pop, Pop, Push (mk_Job 2 [6]), Push (mk_Job 3 [7]), Pop] empty_queue =
     ([mk_Job 1 [5], mk_Job 2 [6]], empty_queue\<lparr>q_items := [mk_Job 3 [7]]\<rparr>) \<and>
   [mk_Job 1 [5], mk_Job 2 [6]] @ [mk_Job 3 [7]] = pushed [Push (mk_Job 1 [5]), Pop, Pop, Push (mk_Job 2 [6]), Push (mk_Job 3 [7]), Pop]"
proof -
  have "run_queue PushJob PopJob [Push (mk_Job 1 [5]), Pop, Pop, Push (mk_Job 2 [6]), Push (mk_Job 3 [7]), Pop] empty_queue =
      ([mk_Job 1 [5], mk_Job 2 [6]], empty_queue\<lparr>q_items := [mk_Job 3 [7]]\<rparr>)"
    by (simp add: empty_queue_def PushJob_def PopJob_def blocking_pop_open)
  moreover have "run_queue PushGameCommand PopGameCommand [] empty_queue = ([], empty_queue)" by simp
  ultimately show ?thesis using queues_fifo [of empty_queue _ _ _ empty_queue "[]" "[]" empty_queue]
    by (fastforce simp: empty_queue_def)
qed

text \<open>
  C28: once a queue is shut down, pushes are ignored and a pop never blocks, but every pop takes
  two elements out and returns the second: the first one is lost, and so is a single remaining
  element, for which the default job is returned, which is not a shutdown signal.
\<close>

theorem shutdown_pop_loses_one:
  "PushJob (JQ_Shutdown q) j = JQ_Shutdown q \<and>
   PopJob (JQ_Shutdown q) = Some (if 2 \<le> length (q_items q) then q_items q ! 1 else default_Job,
     (JQ_Shutdown q)\<lparr>q_items := drop 2 (q_items q)\<rparr>) \<and>
   \<not> isShutdownSignal default_Job \<and>
   PopGameCommand (GLQ_Shutdown c) = Some (if 2 \<le> length (q_items c) then q_items c ! 1 else default_GameCommand,
     (GLQ_Shutdown c)\<lparr>q_items := drop 2 (q_items c)\<rparr>)"
proof -
  have pop: "blocking_pop d (qu\<lparr>m_shuttingDown := True\<rparr>) = Some (if 2 \<le> length (q_items qu) then q_items qu ! 1 else d,
      (qu\<lparr>m_shuttingDown := True\<rparr>)\<lparr>q_items := drop 2 (q_items qu)\<rparr>)" for d :: 'b and qu :: "'b shut_queue"
    by (simp add: blocking_pop_shutdown split: list.split)
  show ?thesis unfolding PopJob_def PopGameCommand_def JQ_Shutdown_def GLQ_Shutdown_def pop
    by (simp add: PushJob_def default_Job_def)
qed

section \<open>Framing\<close>



text \<open>
  C26: on any byte stream whatsoever the read loop ends, and what it hands to the packet manager
  is exactly what the stream contains as a sequence of well-formed frames; it leaves at the
  first truncated header, the first length of 0 or above 100,000, or the first truncated body.
\<close>

theorem ReadLoop_complete:
  "\<exists>ps e rest. ReadLoop input = (ps, e) \<and> input = concat (map frame ps) @ rest \<and>
     list_all (\<lambda>p. 0 < length p \<and> length p \<le> 100000) ps \<and>
     (case e of
        HeaderError \<Rightarrow> length rest < 4
      | InvalidHeader n \<Rightarrow> 4 \<le> length rest \<and> n = memcpy_uint32 (take 4 rest) \<and> (n = 0 \<or> 100000 < n)
      | BodyError \<Rightarrow> 4 \<le> length rest \<and> length rest - 4 < unat (memcpy_uint32 (take 4 rest)))"
proof -
  obtain ps e where r: "ReadLoop input = (ps, e)" by fastforce
  obtain rest where rest: "input = concat (map frame ps) @ rest" "list_all body_ok ps"
    using ReadLoop_sound [of input] r by auto
  have body: "body_ok = (\<lambda>p. 0 < length p \<and> length p \<le> 100000)" by (simp add: body_ok_def fun_eq_iff)
  have "(ps, e) = (ps @ fst (ReadLoop rest), snd (ReadLoop rest))"
    using ReadLoop_frames [OF rest(2), of rest] r rest(1) by simp
  then have stop: "ReadLoop rest = ([], e)" by (cases "ReadLoop rest") simp
  have "case e of HeaderError \<Rightarrow> length rest < 4
      | InvalidHeader n \<Rightarrow> 4 \<le> length rest \<and> n = memcpy_uint32 (take 4 rest) \<and> (n = 0 \<or> 100000 < n)
      | BodyError \<Rightarrow> 4 \<le> length rest \<and> length rest - 4 < unat (memcpy_uint32 (take 4 rest))"
    using stop [unfolded ReadLoop.simps [of rest]] by (auto simp: Let_def MAX_BODY_def split: if_splits prod.splits)
  then show ?thesis using r rest(1) rest(2) [unfolded body] by blast
qed

text \<open>
  C27: a batch is queued as one buffer exactly when it is not empty and needs at most 64 MiB with
  its headers, in 64-bit arithmetic that never wraps for spans below \<open>2 ^ 63\<close> bytes; the bytes
  are those of the separate sends, and a batch over the limit is dropped whole.
\<close>

theorem SendBatch_bounds:
  assumes "\<forall>p \<in> set packets. length p < 2 ^ 63"
  shows "if packets \<noteq> [] \<and> sum_list (map (\<lambda>p. 4 + length p) packets) \<le> 64 * 1024 * 1024
    then m_writeQueue (SendBatch s packets) = m_writeQueue s @ [concat (map frame packets)] \<and>
      concat (m_writeQueue (SendBatch s packets)) = concat (m_writeQueue (fold (\<lambda>p s. Send s p) packets s))
    else SendBatch s packets = s"
proof -
  have "m_writeQueue (fold (\<lambda>p s. Send s p) ps s) = m_writeQueue s @ map frame ps" for ps
    by (induction ps arbitrary: s) (simp_all add: Send_def)
  then show ?thesis by (simp add: SendBatch_iff [OF assms] framed_size_def)
qed

theorem SendBatch_bounds_witness:
  "m_writeQueue (SendBatch (mk_Session 1) [[1], [2]]) = [[1, 0, 0, 0, 1, 1, 0, 0, 0, 2]]"
  using SendBatch_bounds [of "[[1], [2]]" "mk_Session 1"] by (simp add: frame_def uint32_bytes_def mk_Session_def)

end
