(* ===== verification/Pool_Properties.thy ===== *)
theory Pool_Properties
  imports MemoryPools
begin

text \<open>
  The properties of the pools: any history of handle operations keeps the pool within its
  size, hands out only cleared objects and gives every object back; and the name cache is
  transparent.
\<close>

section \<open>Histories of handles\<close>

text \<open>
  The handles of a program, by position.  \<open>HMove\<close> is move construction, \<open>HAssign i j\<close> is
  \<open>h_i = std::move(h_j)\<close>, which the source skips on self-assignment; \<open>HUse\<close> writes to the
  object of a valid handle; a destroyed handle is left empty.
\<close>

datatype 'a handle_op = HNew | HUse nat 'a | HMove nat | HAssign nat nat | HDestroy nat

definition on_handle :: "nat \<Rightarrow> ('a handle \<Rightarrow> 'a handle) \<Rightarrow> 'a handle list \<Rightarrow> 'a handle list" where
  "on_handle i f hs = (if i < length hs then hs[i := f (hs ! i)] else hs)"

fun run_handle :: "('a \<Rightarrow> 'a) \<Rightarrow> 'a \<Rightarrow> 'a handle_op \<Rightarrow> 'a pool \<times> 'a handle list \<Rightarrow> 'a pool \<times> 'a handle list" where
  "run_handle clear fresh HNew (p, hs) = (case mk_handle clear fresh p of (h, p') \<Rightarrow> (p', hs @ [h]))"
| "run_handle clear fresh (HUse i x) (p, hs) = (p, on_handle i (\<lambda>h. h\<lparr>h_obj := map_option (\<lambda>_. x) (h_obj h)\<rparr>) hs)"
| "run_handle clear fresh (HMove i) (p, hs) = (if i < length hs
     then (case move_handle (hs ! i) of (h, left) \<Rightarrow> (p, hs[i := left] @ [h])) else (p, hs))"
| "run_handle clear fresh (HAssign i j) (p, hs) = (if i < length hs \<and> j < length hs \<and> i \<noteq> j
     then (case move_assign clear (hs ! i) (hs ! j) p of (h, left, p') \<Rightarrow> (p', hs[i := h, j := left])) else (p, hs))"
| "run_handle clear fresh (HDestroy i) (p, hs) = (if i < length hs
     then (destroy_handle clear (hs ! i) p, hs[i := moved_from]) else (p, hs))"

definition live :: "'a handle list \<Rightarrow> nat" where
  "live hs = length (filter IsValid hs)"

definition handles_ok :: "('a \<Rightarrow> 'a) \<Rightarrow> 'a pool \<times> 'a handle list \<Rightarrow> bool" where
  "handles_ok clear s \<longleftrightarrow> pool_ok clear (fst s) \<and> list_all (\<lambda>h. h_pool h = IsValid h) (snd s) \<and>
     m_poolSize (fst s) \<le> length (m_available (fst s)) + live (snd s)"

lemma live_Cons [simp]: "live (h # hs) = (if IsValid h then Suc (live hs) else live hs)"
  and live_Nil [simp]: "live [] = 0" and live_append [simp]: "live (hs @ hs') = live hs + live hs'"
  by (simp_all add: live_def)

lemma live_update: "i < length hs \<Longrightarrow> live (hs[i := h]) + (if IsValid (hs ! i) then 1 else 0) = live hs + (if IsValid h then 1 else 0)"
proof (induction hs arbitrary: i)
  case (Cons a hs)
  then show ?case by (cases i) auto
qed simp

lemma IsValid_moved_from [simp]: "\<not> IsValid moved_from" "h_pool moved_from = False"
  by (simp_all add: IsValid_def moved_from_def)

lemma Release_length: "m_poolSize (Release clear (Some x) p) = m_poolSize p \<and>
    length (m_available (Release clear (Some x) p)) = (if length (m_available p) < m_poolSize p then Suc (length (m_available p)) else length (m_available p))"
  by (simp add: Release_def)

lemma Acquire_length: "m_poolSize (snd (Acquire clear fresh p)) = m_poolSize p \<and>
    length (m_available (snd (Acquire clear fresh p))) = length (m_available p) - 1"
  by (simp add: Acquire_def split: list.split)

lemma all_update: "list_all P hs \<Longrightarrow> P h \<Longrightarrow> list_all P (hs[i := h])"
  by (auto simp: list_all_iff dest!: set_update_subset_insert [THEN subsetD])

lemma move_simps: "move_handle h = (h, moved_from)" "move_assign clear h h' p = (h', moved_from, destroy_handle clear h p)"
  by (simp_all add: move_handle_def move_assign_def destroy_handle_def)

text \<open>Every operation but \<open>HNew\<close> gives back the object of at most one handle.\<close>

lemma give_back_ok:
  assumes "\<And>x. clear (clear x) = clear x" "handles_ok clear (p, hs)" "h_pool h = IsValid h"
    and "live hs' + (if IsValid h then 1 else 0) = live hs" "list_all (\<lambda>h. h_pool h = IsValid h) hs'"
  shows "handles_ok clear (destroy_handle clear h p, hs') \<and> m_poolSize (destroy_handle clear h p) = m_poolSize p \<and>
    length (m_available (destroy_handle clear h p)) + live hs' \<le> length (m_available p) + live hs"
proof (cases "h_obj h")
  case None
  then show ?thesis using assms by (simp add: handles_ok_def IsValid_def destroy_handle_def)
next
  case (Some x)
  then show ?thesis
    using assms Release_ok [OF assms(1), of p "Some x"] Release_length [of clear x p]
    by (auto simp: handles_ok_def IsValid_def destroy_handle_def)
qed

lemma use_keeps:
  assumes "list_all (\<lambda>h. h_pool h = IsValid h) hs" "i < length hs"
  shows "live (hs[i := (hs ! i)\<lparr>h_obj := map_option (\<lambda>_. x) (h_obj (hs ! i))\<rparr>]) = live hs \<and>
    list_all (\<lambda>h. h_pool h = IsValid h) (hs[i := (hs ! i)\<lparr>h_obj := map_option (\<lambda>_. x) (h_obj (hs ! i))\<rparr>])"
proof -
  let ?h = "(hs ! i)\<lparr>h_obj := map_option (\<lambda>_. x) (h_obj (hs ! i))\<rparr>"
  have "IsValid ?h = IsValid (hs ! i)" "h_pool (hs ! i) = IsValid (hs ! i)" using assms by (simp_all add: IsValid_def list_all_length)
  then show ?thesis using live_update [OF assms(2), of ?h] all_update [OF assms(1), of ?h i] by (simp split: if_splits)
qed

lemma assign_moves:
  assumes "list_all (\<lambda>h. h_pool h = IsValid h) hs" "i < length hs" "j < length hs" "i \<noteq> j"
  shows "live (hs[i := hs ! j, j := moved_from]) + (if IsValid (hs ! i) then 1 else 0) = live hs \<and>
    list_all (\<lambda>h. h_pool h = IsValid h) (hs[i := hs ! j, j := moved_from])"
proof -
  have "h_pool (hs ! j) = IsValid (hs ! j)" using assms by (simp add: list_all_length)
  then show ?thesis
    using live_update [of i hs "hs ! j"] live_update [of j "hs[i := hs ! j]" moved_from] assms(2-)
      all_update [OF all_update [OF assms(1), of "hs ! j" i], of moved_from j] by (auto split: if_splits)
qed

lemma run_handle_ok:
  assumes idem: "\<And>x. clear (clear x) = clear x" and ok: "handles_ok clear (p, hs)"
    and run: "run_handle clear fresh op (p, hs) = (p', hs')"
  shows "handles_ok clear (p', hs') \<and> m_poolSize p' = m_poolSize p \<and>
    (live hs < m_poolSize p \<or> op \<noteq> HNew \<longrightarrow> length (m_available p') + live hs' \<le> length (m_available p) + live hs)"
proof -
  have P: "pool_ok clear p" "list_all (\<lambda>h. h_pool h = IsValid h) hs" "m_poolSize p \<le> length (m_available p) + live hs"
    using ok by (simp_all add: handles_ok_def)
  have H: "h_pool (hs ! i) = IsValid (hs ! i)" if "i < length hs" for i
    using P(2) that by (simp add: list_all_length)
  have none: "destroy_handle clear moved_from p = p" by (simp add: destroy_handle_def)
  note keep = give_back_ok [OF idem ok, of moved_from, unfolded none, simplified]
  note empty = all_update [OF P(2), of moved_from]
  show ?thesis
  proof (cases op)
    case HNew
    then have n: "p' = snd (Acquire clear fresh p)" "hs' = hs @ [\<lparr>h_pool = True, h_obj = Some (fst (Acquire clear fresh p))\<rparr>]"
      using run by (auto simp: mk_handle_def split_beta)
    show ?thesis using P Acquire_length [of clear fresh p] Acquire_ok [OF P(1), of fresh] HNew
      unfolding n by (auto simp: handles_ok_def IsValid_def)
  next
    case (HUse i x)
    let ?h = "(hs ! i)\<lparr>h_obj := map_option (\<lambda>_. x) (h_obj (hs ! i))\<rparr>"
    show ?thesis using use_keeps [OF P(2), of i x] run HUse ok keep [of "hs[i := ?h]"] by (auto simp: on_handle_def split: if_splits)
  next
    case (HMove i)
    have "live (hs[i := moved_from] @ [hs ! i]) = live hs" if "i < length hs"
      using live_update [OF that, of moved_from] by (simp split: if_splits)
    then show ?thesis using run HMove ok keep [of "hs[i := moved_from] @ [hs ! i]"] empty [of i] H [of i]
      by (auto simp: move_simps split: if_splits)
  next
    case (HAssign i j)
    let ?hs = "hs[i := hs ! j, j := moved_from]"
    show ?thesis using assign_moves [OF P(2), of i j] run HAssign ok give_back_ok [OF idem ok, of "hs ! i" ?hs] H [of i]
      by (auto simp: move_simps split: if_splits)
  next
    case (HDestroy i)
    then show ?thesis using run ok give_back_ok [OF idem ok, of "hs ! i" "hs[i := moved_from]"] H [of i] empty [of i]
        live_update [of i hs moved_from] by (auto split: if_splits)
  qed
qed

definition handle_history :: "('a \<Rightarrow> 'a) \<Rightarrow> 'a \<Rightarrow> nat \<Rightarrow> 'a handle_op list \<Rightarrow> 'a pool \<times> 'a handle list" where
  "handle_history clear fresh n ops = fold (run_handle clear fresh) ops (mk_pool n fresh, [])"

lemma handle_history_ok:
  "handles_ok (\<lambda>_. fresh) (handle_history (\<lambda>_. fresh) fresh n ops) \<and> m_poolSize (fst (handle_history (\<lambda>_. fresh) fresh n ops)) = n"
proof (induction ops rule: rev_induct)
  case Nil
  show ?case by (simp add: handle_history_def handles_ok_def mk_pool_def pool_ok_def list_all_length)
next
  case (snoc op ops)
  obtain p hs where s: "handle_history (\<lambda>_. fresh) fresh n ops = (p, hs)" by fastforce
  obtain p' hs' where r: "run_handle (\<lambda>_. fresh) fresh op (p, hs) = (p', hs')" by fastforce
  show ?case using snoc run_handle_ok [OF _ _ r] by (simp add: handle_history_def s [unfolded handle_history_def] r)
qed

lemma handle_history_exact:
  assumes "\<And>k. live (snd (handle_history (\<lambda>_. fresh) fresh n (take k ops))) \<le> n"
  shows "length (m_available (fst (handle_history (\<lambda>_. fresh) fresh n ops))) + live (snd (handle_history (\<lambda>_. fresh) fresh n ops)) = n"
  using assms
proof (induction ops rule: rev_induct)
  case Nil
  show ?case by (simp add: handle_history_def mk_pool_def)
next
  case (snoc op ops)
  obtain p hs where s: "handle_history (\<lambda>_. fresh) fresh n ops = (p, hs)" by fastforce
  obtain p' hs' where r: "run_handle (\<lambda>_. fresh) fresh op (p, hs) = (p', hs')" by fastforce
  have s': "handle_history (\<lambda>_. fresh) fresh n (ops @ [op]) = (p', hs')" using s r by (simp add: handle_history_def)
  have IH: "length (m_available p) + live hs = n"
  proof -
    have "live (snd (handle_history (\<lambda>_. fresh) fresh n (take k ops))) \<le> n" for k
      using snoc.prems [of "min k (length ops)"] by (cases "k \<le> length ops") (simp_all add: min_def)
    then show ?thesis using snoc.IH s by simp
  qed
  have ok: "handles_ok (\<lambda>_. fresh) (p, hs)" "m_poolSize p = n" "handles_ok (\<lambda>_. fresh) (p', hs')" "m_poolSize p' = n"
    using handle_history_ok [of fresh n ops] handle_history_ok [of fresh n "ops @ [op]"] s s' by simp_all
  have bound: "live hs' \<le> n" using snoc.prems [of "length (ops @ [op])"] s' by simp
  have "live hs < n \<or> op \<noteq> HNew"
    using r bound IH by (cases op) (auto simp: mk_handle_def IsValid_def split_beta)
  then show ?case using run_handle_ok [OF _ ok(1) r] ok IH by (simp add: handles_ok_def s')
qed

section \<open>Properties\<close>

text \<open>
  C38: whatever the program does with pooled handles (creating, using, moving, assigning and
  destroying them in any order), the pool never holds more than its size, every object it hands
  out next is as good as new, and no object leaks: pool and handles together own at least as
  many objects as the pool was built with, exactly as many if no more handles than that were
  ever alive at once.
\<close>

theorem pool_history:
  assumes "\<And>x. clear x = fresh" "handle_history clear fresh n ops = (p, hs)"
  shows "GetAvailableCount p \<le> n \<and> n \<le> GetAvailableCount p + live hs \<and>
    h_obj (fst (mk_handle clear fresh p)) = Some fresh \<and>
    ((\<forall>k. live (snd (handle_history clear fresh n (take k ops))) \<le> n) \<longrightarrow> GetAvailableCount p + live hs = n)"
proof -
  have c: "clear = (\<lambda>_. fresh)" using assms(1) by (simp add: fun_eq_iff)
  have "handles_ok clear (p, hs)" "m_poolSize p = n"
    using handle_history_ok [of fresh n ops] assms(2) by (simp_all add: c)
  then show ?thesis using handle_history_exact [of fresh n ops] assms(2)
    by (auto simp: c handles_ok_def pool_ok_def GetAvailableCount_def mk_handle_def Acquire_def split: list.split)
qed

definition demo_handles :: "byte list handle_op list" where
  "demo_handles = [HNew, HUse 0 [1, 2], HNew, HMove 0, HAssign 1 2, HDestroy 1, HNew, HNew]"

theorem pool_history_witness:
  "\<exists>p hs. handle_history (\<lambda>_. []) [] 2 demo_handles = (p, hs) \<and> GetAvailableCount p \<le> 2 \<and> 2 \<le> GetAvailableCount p + live hs \<and>
     live hs = 2 \<and> GetAvailableCount p = 0"
proof -
  obtain p hs where s: "handle_history (\<lambda>_. []) [] 2 demo_handles = (p, hs)" by fastforce
  have "live (snd (handle_history (\<lambda>_. []) [] 2 demo_handles)) = 2"
    "GetAvailableCount (fst (handle_history (\<lambda>_. []) [] 2 demo_handles)) = 0" by code_simp+
  then show ?thesis using pool_history [OF _ s] s by simp
qed

lemma prewarm_find:
  "um_find (fold (\<lambda>i c. um_set c (of_nat i :: uint64) (player_label (of_nat i))) xs c) k =
   (if k \<in> of_nat ` set xs then Some (player_label k) else um_find c k)"
  by (induction xs arbitrary: c) auto

lemma prewarm_ok: "um_ok c \<Longrightarrow> um_ok (fold (\<lambda>i c. um_set c (of_nat i :: uint64) (player_label (of_nat i))) xs c)"
  by (induction xs arbitrary: c) simp_all

lemma PrewarmCache_cache_ok: "cache_ok (PrewarmCache [] n)"
proof -
  let ?xs = "[1..<Suc (min n MAX_CACHE_SIZE)]"
  have "{k. um_find (PrewarmCache [] n) k \<noteq> None} = of_nat ` set ?xs"
    by (auto simp: PrewarmCache_def prewarm_find simp del: upt_Suc)
  then have "length (PrewarmCache [] n) \<le> card (set ?xs)"
    using um.size_eq_card [of "PrewarmCache [] n"] prewarm_ok [of "[]" ?xs] card_image_le [of "set ?xs" "of_nat :: nat \<Rightarrow> uint64"]
    by (simp add: PrewarmCache_def del: upt_Suc)
  moreover have "card (set ?xs) \<le> MAX_CACHE_SIZE" by (simp del: upt_Suc)
  ultimately show ?thesis using prewarm_ok [of "[]" ?xs]
    by (auto simp: cache_ok_def PrewarmCache_def prewarm_find simp del: upt_Suc split: if_splits)
qed

text \<open>
  The name cache is transparent and bounded.  Starting from the cache that the pool manager
  prewarms, every sequence of requests is answered with \<open>Player_\<close> and the decimal id, different
  players get different names, and the cache never has more than 10,000 entries.
\<close>

theorem player_names:
  "fst (GetPlayerName (fold (\<lambda>j c. snd (GetPlayerName c j)) js (m_stringCache mk_MemoryPoolManager)) k) = ''Player_'' @ to_string (unat k) \<and>
   (to_string (unat k) = to_string (unat l)) = (k = l) \<and>
   length (fold (\<lambda>j c. snd (GetPlayerName c j)) js (m_stringCache mk_MemoryPoolManager)) \<le> 10000"
proof -
  let ?c = "fold (\<lambda>j c. snd (GetPlayerName c j)) js (m_stringCache mk_MemoryPoolManager)"
  have "cache_ok (m_stringCache mk_MemoryPoolManager)"
    by (simp only: mk_MemoryPoolManager_def MemoryPoolManager.simps PrewarmCache_cache_ok)
  then have "cache_ok ?c" by (rule fold_keeps [rotated]) (simp add: GetPlayerName_ok)
  then have "fst (GetPlayerName ?c k) = player_label k" "length ?c \<le> MAX_CACHE_SIZE"
    using GetPlayerName_ok [of ?c k] by (simp_all add: cache_ok_def)
  moreover have "unat k = unat l \<longleftrightarrow> k = l" using unsigned_word_eqI by blast
  ultimately show ?thesis by (simp add: player_label_def MAX_CACHE_SIZE_def)
qed

end
