(* ===== verification/Jobs.thy ===== *)
theory Jobs
  imports Sessions
begin

text \<open>
  \<open>src/Network/PacketManager.cpp\<close> and \<open>src/Utils/JobProcessor.cpp\<close>: the path of a received
  packet from the session to a handler or to the game logic queue.

  A handler is a function on the network state and the state \<open>'r\<close> of the services it calls.
  FlatBuffers is a parameter: the verifier, the root accessor, and what the two unchecked casts
  of \<open>ProcessJobPacket\<close> read from a table of any type.
\<close>

section \<open>The packet manager\<close>

text \<open>How a call ends: normally, with an exception, or in undefined behaviour.\<close>

datatype 's outcome = Returned 's | Thrown 's | Crashed

type_synonym 'r handler = "nat option \<Rightarrow> UnifiedPacket \<Rightarrow> Net \<times> 'r \<Rightarrow> (Net \<times> 'r) outcome"

record 'r PacketManager =
  m_handlers :: "(PacketId, 'r handler) umap"
  pm_jobQueue :: bool \<comment> \<open>the pointer \<open>m_jobQueue\<close> is not null\<close>

definition mk_PacketManager :: "bool \<Rightarrow> 'r PacketManager" where
  "mk_PacketManager jobQueue = \<lparr>m_handlers = [], pm_jobQueue = jobQueue\<rparr>"

text \<open>A null \<open>std::function\<close> is rejected with \<open>invalid_argument\<close>; an existing handler stays.\<close>

definition RegisterHandler :: "'r PacketManager \<Rightarrow> PacketId \<Rightarrow> 'r handler option \<Rightarrow> 'r PacketManager outcome" where
  "RegisterHandler pm i handler = (case handler of
      None \<Rightarrow> Thrown pm
    | Some h \<Rightarrow> Returned (pm\<lparr>m_handlers := um_emplace (m_handlers pm) i h\<rparr>))"

definition UnregisterHandler :: "'r PacketManager \<Rightarrow> PacketId \<Rightarrow> 'r PacketManager" where
  "UnregisterHandler pm i = pm\<lparr>m_handlers := um_erase (m_handlers pm) i\<rparr>"

definition HandlePacket :: "'r PacketManager \<Rightarrow> Job shut_queue \<Rightarrow> nat \<Rightarrow> byte list \<Rightarrow> Job shut_queue" where
  "HandlePacket pm jq session packet = (if pm_jobQueue pm then PushJob jq (mk_Job session packet) else jq)"

definition DispatchPacket :: "'r PacketManager \<Rightarrow> PacketId \<Rightarrow> nat option \<Rightarrow> UnifiedPacket \<Rightarrow> Net \<times> 'r \<Rightarrow> (Net \<times> 'r) outcome" where
  "DispatchPacket pm i session packet s = (case um_find (m_handlers pm) i of
      Some h \<Rightarrow> h session packet s
    | None \<Rightarrow> Returned s)"

section \<open>The job processor\<close>

record codec =
  fb_verify :: "byte list \<Rightarrow> bool"
  fb_root :: "byte list \<Rightarrow> UnifiedPacket"
  fb_as_input :: "Packet \<Rightarrow> C_PlayerInput"
  fb_as_zone :: "Packet \<Rightarrow> int" \<comment> \<open>\<open>zone_id\<close> of the cast table\<close>

record JobProcessor =
  jp_packetManager :: bool \<comment> \<open>the pointers are not null\<close>
  jp_gameLogicQueue :: bool
  jp_running :: bool
  jp_workers :: nat \<comment> \<open>the threads of \<open>m_workerThreads\<close>\<close>

definition mk_JobProcessor :: "bool \<Rightarrow> bool \<Rightarrow> JobProcessor" where
  "mk_JobProcessor pm gq = \<lparr>jp_packetManager = pm, jp_gameLogicQueue = gq, jp_running = False, jp_workers = 0\<rparr>"

definition JP_Start :: "JobProcessor \<Rightarrow> int \<Rightarrow> JobProcessor" where
  "JP_Start jp numThreads = (if jp_running jp then jp
     else jp\<lparr>jp_running := True, jp_workers := jp_workers jp + nat numThreads\<rparr>)"

definition shutdown_job :: Job where
  "shutdown_job = default_Job\<lparr>isShutdownSignal := True\<rparr>"

text \<open>
  \<open>Stop\<close> pushes one signal per thread and then joins the threads; the flag stays set.  Its two
  halves are separate, because the workers run between them.
\<close>

definition JP_Stop_signal :: "JobProcessor \<Rightarrow> Job shut_queue \<Rightarrow> Job shut_queue" where
  "JP_Stop_signal jp jq = (if \<not> jp_running jp then jq else fold (\<lambda>j q. PushJob q j) (replicate (jp_workers jp) shutdown_job) jq)"

definition JP_Stop_join :: "JobProcessor \<Rightarrow> JobProcessor" where
  "JP_Stop_join jp = (if \<not> jp_running jp then jp else jp\<lparr>jp_workers := 0\<rparr>)"

definition isNonGamePacket :: "PacketId \<Rightarrow> bool" where
  "isNonGamePacket i \<longleftrightarrow> i = PacketId_C_Login \<or> i = PacketId_S_LoginSuccess \<or> i = PacketId_S_LoginFailure \<or>
     i = PacketId_C_Chat \<or> i = PacketId_S_Chat"

definition push_command :: "Net \<Rightarrow> GameCommand \<Rightarrow> Net" where
  "push_command net c = net\<lparr>gameLogicQueue := PushGameCommand (gameLogicQueue net) c\<rparr>"

text \<open>The null session of a default job would be dereferenced.\<close>

definition ProcessJobPacket ::
  "codec \<Rightarrow> JobProcessor \<Rightarrow> 'r PacketManager \<Rightarrow> Job \<Rightarrow> UnifiedPacket \<Rightarrow> Net \<times> 'r \<Rightarrow> (Net \<times> 'r) outcome" where
  "ProcessJobPacket fb jp pm job packet s = (case job_session job of
      None \<Rightarrow> Crashed
    | Some a \<Rightarrow>
        let packetId = up_id packet; net = fst s; sess = store net a in
        if isNonGamePacket packetId then
          (if jp_packetManager jp then DispatchPacket pm packetId (Some a) packet s else Returned s)
        else if jp_gameLogicQueue jp then
          (let gameCommand = default_GameCommand\<lparr>commandId := 0, senderSessionId := s_sessionId sess\<rparr> in
           if packetId = PacketId_C_PlayerInput then
             (case up_data packet of
                None \<Rightarrow> Returned s
              | Some d \<Rightarrow> let input = fb_as_input fb d in
                  Returned (push_command net (gameCommand\<lparr>payload := PlayerInputPayload (default_PlayerInput
                    \<lparr>pi_playerId := s_playerId sess, pi_inputFlags := input_flags input,
                     pi_sequenceNumber := input_sequence_number input\<rparr>)\<rparr>), snd s))
           else if packetId = PacketId_C_EnterZone then
             (case up_data packet of
                None \<Rightarrow> Returned s
              | Some d \<Rightarrow> Returned (push_command net (gameCommand\<lparr>payload := EnterZonePayload
                    \<lparr>ez_playerId = s_playerId sess, ez_zoneId = fb_as_zone fb d, ez_sessionId = s_sessionId sess\<rparr>\<rparr>), snd s))
           else Returned s)
        else Returned s)"

text \<open>
  What a worker does with one job: leave, go on with the next state, or take the process down.
  The logging of an invalid buffer also reads the session.
\<close>

datatype 's worker_result = Exit | Next 's | Abort

definition WorkerLoop_job ::
  "codec \<Rightarrow> JobProcessor \<Rightarrow> 'r PacketManager \<Rightarrow> Job \<Rightarrow> Net \<times> 'r \<Rightarrow> (Net \<times> 'r) worker_result" where
  "WorkerLoop_job fb jp pm job s =
     (if isShutdownSignal job then Exit
      else if packetBuffer job = [] then Next s
      else if job_session job = None then Abort
      else if \<not> fb_verify fb (packetBuffer job) then Next s
      else case ProcessJobPacket fb jp pm job (fb_root fb (packetBuffer job)) s of
          Returned s' \<Rightarrow> Next s'
        | Thrown s' \<Rightarrow> Next s'
        | Crashed \<Rightarrow> Abort)"

text \<open>
  The worker threads: each step is one thread taking one job.  The threads are alike, so their
  number is their state; a job is one atomic step.
\<close>

inductive workers_step :: "codec \<Rightarrow> JobProcessor \<Rightarrow> 'r PacketManager \<Rightarrow>
    Job shut_queue \<times> nat \<times> Net \<times> 'r \<Rightarrow> Job shut_queue \<times> nat \<times> Net \<times> 'r \<Rightarrow> bool"
  for fb jp pm where
  work: "PopJob jq = Some (job, jq') \<Longrightarrow> WorkerLoop_job fb jp pm job s = Next s' \<Longrightarrow>
    workers_step fb jp pm (jq, Suc n, s) (jq', Suc n, s')"
| leave: "PopJob jq = Some (job, jq') \<Longrightarrow> WorkerLoop_job fb jp pm job s = Exit \<Longrightarrow>
    workers_step fb jp pm (jq, Suc n, s) (jq', n, s)"

inductive_simps workers_step_none: "workers_step fb jp pm (jq, 0, s) c"
inductive_cases workers_stepE: "workers_step fb jp pm (jq, n, s) c"

section \<open>Lemmas\<close>

lemma PopJob_open: "\<not> m_shuttingDown jq \<Longrightarrow> PopJob jq = (case q_items jq of [] \<Rightarrow> None | j # js \<Rightarrow> Some (j, jq\<lparr>q_items := js\<rparr>))"
  by (simp add: PopJob_def blocking_pop_open)

lemma WorkerLoop_job_exit: "WorkerLoop_job fb jp pm job s = Exit \<longleftrightarrow> isShutdownSignal job"
  by (auto simp: WorkerLoop_job_def split: outcome.splits)

text \<open>The jobs of a list, one after the other.\<close>

fun run_jobs :: "codec \<Rightarrow> JobProcessor \<Rightarrow> 'r PacketManager \<Rightarrow> Job list \<Rightarrow> Net \<times> 'r \<Rightarrow> Net \<times> 'r" where
  "run_jobs fb jp pm [] s = s"
| "run_jobs fb jp pm (j # js) s = (case WorkerLoop_job fb jp pm j s of Next s' \<Rightarrow> run_jobs fb jp pm js s' | _ \<Rightarrow> s)"

text \<open>The states between the signals and the joins.\<close>

definition draining :: "Job shut_queue \<times> nat \<times> Net \<times> 'r \<Rightarrow> Job list \<Rightarrow> bool" where
  "draining c js \<longleftrightarrow> (case c of (jq, n, s) \<Rightarrow> \<not> m_shuttingDown jq \<and> q_items jq = js @ replicate n shutdown_job \<and>
     (n = 0 \<longrightarrow> js = []))"

lemma draining_step:
  assumes "draining (jq, n, s) js" "\<And>j s. j \<in> set js \<Longrightarrow> \<exists>s'. WorkerLoop_job fb jp pm j s = Next s'"
    and "workers_step fb jp pm (jq, n, s) (jq', n', s')"
  shows "\<exists>js'. draining (jq', n', s') js' \<and> set js' \<subseteq> set js \<and> run_jobs fb jp pm js' s' = run_jobs fb jp pm js s \<and>
    length js' + n' < length js + n"
proof (cases js)
  case Nil
  then show ?thesis using assms(1,3)
    by (auto simp: draining_def PopJob_open shutdown_job_def WorkerLoop_job_def elim!: workers_stepE split: list.splits)
next
  case (Cons j rest)
  obtain s1 where "WorkerLoop_job fb jp pm j s = Next s1" using assms(2) Cons by fastforce
  then show ?thesis using assms(1,3) Cons
    by (intro exI [of _ rest]) (auto simp: draining_def PopJob_open elim!: workers_stepE)
qed

lemma draining_progress:
  assumes "draining (jq, n, s) js" "\<And>j s. j \<in> set js \<Longrightarrow> \<exists>s'. WorkerLoop_job fb jp pm j s = Next s'" "0 < n"
  shows "\<exists>c. workers_step fb jp pm (jq, n, s) c"
proof -
  obtain m where n: "n = Suc m" using assms(3) by (cases n) auto
  show ?thesis
  proof (cases js)
    case Nil
    then show ?thesis using assms(1) workers_step.leave [of jq shutdown_job]
      by (fastforce simp: n draining_def PopJob_open WorkerLoop_job_def shutdown_job_def)
  next
    case (Cons j rest)
    then obtain s1 where "WorkerLoop_job fb jp pm j s = Next s1" using assms(2) by fastforce
    then show ?thesis using assms(1) Cons workers_step.work [of jq j] by (fastforce simp: n draining_def PopJob_open)
  qed
qed

end
