(* ===== verification/Job_Properties.thy ===== *)
theory Job_Properties
  imports Jobs
begin

text \<open>The properties of the path from a received packet to a handler or a game command.\<close>

section \<open>Lemmas\<close>

lemma draining_run:
  assumes "draining (jq, n, s) js" "\<And>j s. j \<in> set js \<Longrightarrow> \<exists>s'. WorkerLoop_job fb jp pm j s = Next s'"
    and "(workers_step fb jp pm ^^ k) (jq, n, s) (jq', n', s')"
  shows "\<exists>js'. draining (jq', n', s') js' \<and> set js' \<subseteq> set js \<and> run_jobs fb jp pm js' s' = run_jobs fb jp pm js s \<and>
    k + length js' + n' \<le> length js + n"
  using assms(3)
proof (induction k arbitrary: jq' n' s')
  case 0
  then show ?case using assms(1) by auto
next
  case (Suc k)
  obtain jq1 n1 s1 where r: "(workers_step fb jp pm ^^ k) (jq, n, s) (jq1, n1, s1)" "workers_step fb jp pm (jq1, n1, s1) (jq', n', s')"
    using Suc.prems by (auto elim!: relcomppE)
  from Suc.IH [OF r(1)] obtain js1 where js1: "draining (jq1, n1, s1) js1" "set js1 \<subseteq> set js"
    "run_jobs fb jp pm js1 s1 = run_jobs fb jp pm js s" "k + length js1 + n1 \<le> length js + n" by blast
  from draining_step [OF js1(1) _ r(2)] assms(2) js1 obtain js' where "draining (jq', n', s') js'" "set js' \<subseteq> set js1"
    "run_jobs fb jp pm js' s' = run_jobs fb jp pm js1 s1" "length js' + n' < length js1 + n1" by blast
  then show ?case using js1 by (intro exI [of _ js']) auto
qed

lemma push_signals: "\<not> m_shuttingDown jq \<Longrightarrow>
    fold (\<lambda>j q. PushJob q j) js jq = jq\<lparr>q_items := q_items jq @ js\<rparr>"
  by (induction js arbitrary: jq) (simp_all add: PushJob_def)

section \<open>Properties\<close>


definition demo_codec :: codec where
  "demo_codec = \<lparr>fb_verify = (\<lambda>bs. length bs = 2), fb_root = (\<lambda>bs. \<lparr>up_id = ucast (bs ! 0), up_data = Some (Packet_C_PlayerInput
       \<lparr>input_tick_number = 0, input_client_time = 0, input_flags = bs ! 1, input_mouse_position = None,
        input_sequence_number = 5, input_command_id = 0\<rparr>)\<rparr>),
     fb_as_input = (\<lambda>d. case d of Packet_C_PlayerInput i \<Rightarrow> i | _ \<Rightarrow> undefined), fb_as_zone = (\<lambda>_. 1)\<rparr>"

definition demo_jp :: JobProcessor where
  "demo_jp = JP_Start (mk_JobProcessor True True) 1"

definition demo_jobs :: "Job shut_queue" where
  "demo_jobs = fold (\<lambda>b q. HandlePacket (mk_PacketManager True :: nat PacketManager) q 0 b) [[10, 1], [9]] empty_queue"


text \<open>
  C32: a game packet becomes at most one command, and the command speaks for the player and the
  session of the connection it arrived on, whatever the packet says; no service and no session
  is touched.  A verified input packet becomes exactly the command with its flags and sequence
  number.
\<close>

theorem game_packet_command:
  assumes "\<not> isNonGamePacket (up_id packet)" "job_session job = Some a"
    and "ProcessJobPacket fb jp pm job packet (net, r) = Returned (net', r')"
  shows "r' = r \<and> (net' = net \<or> (\<exists>c. net' = push_command net c \<and> commandId c = 0 \<and>
      senderSessionId c = s_sessionId (store net a) \<and>
      (case payload c of PlayerInputPayload d \<Rightarrow> pi_playerId d = s_playerId (store net a)
       | EnterZonePayload d \<Rightarrow> ez_playerId d = s_playerId (store net a) \<and> ez_sessionId d = s_sessionId (store net a)
       | _ \<Rightarrow> False))) \<and>
    (jp_gameLogicQueue jp \<and> up_id packet = PacketId_C_PlayerInput \<and> up_data packet = Some (Packet_C_PlayerInput i) \<and>
       fb_as_input fb (Packet_C_PlayerInput i) = i \<longrightarrow>
     net' = push_command net \<lparr>commandId = 0, payload = PlayerInputPayload (default_PlayerInput
       \<lparr>pi_playerId := s_playerId (store net a), pi_inputFlags := input_flags i, pi_sequenceNumber := input_sequence_number i\<rparr>),
       senderSessionId = s_sessionId (store net a), timestamp = 0\<rparr>)"
  using assms
  by (auto simp: ProcessJobPacket_def Let_def default_GameCommand_def PacketId_defs split: if_splits option.splits)

theorem game_packet_command_witness:
  "\<exists>net'. ProcessJobPacket demo_codec demo_jp (mk_PacketManager True) (mk_Job 0 [10, 1]) (fb_root demo_codec [10, 1]) (empty_Net, 0 :: nat) =
      Returned (net', 0) \<and> net' = push_command empty_Net \<lparr>commandId = 0, payload = PlayerInputPayload (default_PlayerInput
       \<lparr>pi_playerId := 0, pi_inputFlags := 1, pi_sequenceNumber := 5\<rparr>), senderSessionId = 0, timestamp = 0\<rparr>"
proof -
  let ?job = "mk_Job 0 [10, 1]" and ?p = "fb_root demo_codec [10, 1]" and ?pm = "mk_PacketManager True :: nat PacketManager"
  have p: "up_id ?p = 10" "\<exists>i. up_data ?p = Some (Packet_C_PlayerInput i) \<and> fb_as_input demo_codec (Packet_C_PlayerInput i) = i \<and>
      input_flags i = 1 \<and> input_sequence_number i = 5"
    by (simp_all add: demo_codec_def)
  then have g: "\<not> isNonGamePacket (up_id ?p)" by (simp add: isNonGamePacket_def PacketId_defs)
  have jp: "jp_gameLogicQueue demo_jp" by (simp add: demo_jp_def JP_Start_def mk_JobProcessor_def)
  obtain net' where r: "ProcessJobPacket demo_codec demo_jp ?pm ?job ?p (empty_Net, 0) = Returned (net', 0)"
    using p g jp by (auto simp: ProcessJobPacket_def mk_Job_def PacketId_defs Let_def)
  from game_packet_command [OF g _ r] p jp r show ?thesis
    by (auto simp: mk_Job_def PacketId_defs empty_Net_def mk_Session_def)
qed

text \<open>
  C33: the packets of the login and chat protocols reach exactly the handler registered for their
  id, the first one registered; an exception in it does not stop the worker; and no buffer that
  fails verification reaches any handler.
\<close>

theorem dispatch_registered:
  assumes "jp_packetManager jp" "isNonGamePacket (up_id (fb_root fb buf))" "buf \<noteq> []" "fb_verify fb buf"
    and "um_find (m_handlers pm) (up_id (fb_root fb buf)) = None"
    and "RegisterHandler pm (up_id (fb_root fb buf)) (Some h) = Returned pm1"
    and "RegisterHandler pm1 (up_id (fb_root fb buf)) (Some h') = Returned pm2"
  shows "WorkerLoop_job fb jp pm2 (mk_Job a buf) s = (case h (Some a) (fb_root fb buf) s of
      Returned s' \<Rightarrow> Next s' | Thrown s' \<Rightarrow> Next s' | Crashed \<Rightarrow> Abort) \<and>
    WorkerLoop_job (fb\<lparr>fb_verify := \<lambda>_. False\<rparr>) jp pm2 (mk_Job a buf) s = Next s"
  using assms
  by (auto simp: WorkerLoop_job_def ProcessJobPacket_def DispatchPacket_def RegisterHandler_def um_emplace_def mk_Job_def Let_def
      split: outcome.split)

definition demo_handler :: "nat handler" where
  "demo_handler = (\<lambda>_ _ (net, n). Thrown (net, n + 1))"

theorem dispatch_registered_witness:
  "\<exists>pm1 pm2. RegisterHandler (mk_PacketManager True) 1 (Some demo_handler) = Returned pm1 \<and>
     RegisterHandler pm1 1 (Some (\<lambda>_ _ s. Crashed)) = Returned pm2 \<and>
     WorkerLoop_job demo_codec demo_jp pm2 (mk_Job 0 [1, 7]) (empty_Net, 3) = Next (empty_Net, 4)"
proof -
  let ?pm = "mk_PacketManager True :: nat PacketManager"
  have i: "up_id (fb_root demo_codec [1, 7]) = 1" "fb_verify demo_codec [1, 7]" by (simp_all add: demo_codec_def)
  obtain pm1 where r1: "RegisterHandler ?pm 1 (Some demo_handler) = Returned pm1" by (simp add: RegisterHandler_def)
  obtain pm2 where r2: "RegisterHandler pm1 1 (Some (\<lambda>_ _ s. Crashed)) = Returned pm2" by (simp add: RegisterHandler_def)
  have "um_find (m_handlers ?pm) 1 = None" "jp_packetManager demo_jp" "isNonGamePacket 1"
    by (simp_all add: mk_PacketManager_def demo_jp_def JP_Start_def mk_JobProcessor_def isNonGamePacket_def PacketId_defs)
  then have "WorkerLoop_job demo_codec demo_jp pm2 (mk_Job 0 [1, 7]) (empty_Net, 3) = Next (empty_Net, 4)"
    using dispatch_registered [of demo_jp demo_codec "[1, 7]" ?pm demo_handler pm1 "\<lambda>_ _ s. Crashed" pm2 0 "(empty_Net, 3)"] i r1 r2
    by (simp add: demo_handler_def)
  then show ?thesis using r1 r2 by blast
qed

text \<open>
  A stopped job processor cannot be started again: \<open>Stop\<close> leaves the running flag set, so the
  second \<open>Start\<close> returns without creating a thread, and nobody consumes the queue.
\<close>

theorem stopped_processor_stays_stopped:
  "jp_workers (JP_Start (JP_Stop_join (JP_Start (mk_JobProcessor True True) n)) m) = 0"
  by (simp add: JP_Start_def JP_Stop_join_def mk_JobProcessor_def)

end
