(* ===== verification/Chat.thy ===== *)
theory Chat
  imports Jobs Decimal "HOL-Library.Char_ord" "HOL-Library.List_Lexorder"
begin

text \<open>
  \<open>src/Game/Services/RedisChatService.cpp\<close>, \<open>src/Game/PacketHandlers/ChatPacketHandler.cpp\<close> and
  \<open>src/Game/Managers/ChatManager.cpp\<close>: chat lines go from a handler through a Redis channel to
  every connected session.  What the Redis client and server do (connecting, accepting a
  message, delivering one, failing) is a parameter of each call.
\<close>

section \<open>Ordered maps\<close>

text \<open>\<open>std::map\<close>: entries in increasing order of their keys.\<close>

fun map_set :: "('k :: linorder \<times> 'v) list \<Rightarrow> 'k \<Rightarrow> 'v \<Rightarrow> ('k \<times> 'v) list" where
  "map_set [] k v = [(k, v)]"
| "map_set ((k', v') # m) k v = (if k < k' then (k, v) # (k', v') # m
     else if k = k' then (k, v) # m else (k', v') # map_set m k v)"

definition map_erase :: "('k :: linorder \<times> 'v) list \<Rightarrow> 'k \<Rightarrow> ('k \<times> 'v) list" where
  "map_erase m k = filter (\<lambda>e. fst e \<noteq> k) m"

definition map_ok :: "('k :: linorder \<times> 'v) list \<Rightarrow> bool" where
  "map_ok m \<longleftrightarrow> sorted_wrt (<) (map fst m)"

lemma set_map_set: "fst ` set (map_set m k v) = insert k (fst ` set m)"
  by (induction m k v rule: map_set.induct) auto

lemma map_ok_set: "map_ok m \<Longrightarrow> map_ok (map_set m k v)"
proof (induction m)
  case (Cons e m)
  obtain k' v' where e: "e = (k', v')" by fastforce
  have "map_ok m" "\<forall>x \<in> fst ` set m. k' < x" using Cons.prems by (auto simp: map_ok_def e)
  then show ?case using Cons.IH set_map_set [of m k v] by (auto simp: map_ok_def e)
qed (simp add: map_ok_def)

interpretation om: unordered_map map_of map_set map_erase "\<lambda>m. m" map_ok
proof (unfold_locales, goal_cases)
  case (1 m k v k')
  show ?case by (induction m k v rule: map_set.induct) auto
next
  case (2 m k k')
  show ?case by (induction m) (auto simp: map_erase_def)
next
  case (4 m k)
  then show ?case by (auto simp: map_ok_def map_erase_def sorted_wrt_map intro: sorted_wrt_filter)
next
  case (5 m)
  then show ?case by (simp add: map_ok_def strict_sorted_iff)
qed (simp_all add: map_ok_set)

section \<open>The Redis service\<close>

record RedisChatService =
  r_redis :: bool \<comment> \<open>\<open>m_redis\<close> is not null\<close>
  r_subscriber :: bool \<comment> \<open>\<open>m_subscriber\<close> is not null\<close>
  r_running :: bool
  r_thread :: bool \<comment> \<open>\<open>m_subscribeThread\<close> is joinable\<close>
  r_channels :: "string list" \<comment> \<open>what the subscriber is subscribed to\<close>
  r_published :: "(string \<times> string) list" \<comment> \<open>the messages the Redis server has accepted\<close>

definition mk_RedisChatService :: RedisChatService where
  "mk_RedisChatService = \<lparr>r_redis = False, r_subscriber = False, r_running = False, r_thread = False,
     r_channels = [], r_published = []\<rparr>"

text \<open>Either of the two client objects may throw; the first stays when the second does.\<close>

definition Redis_Connect :: "bool \<Rightarrow> bool \<Rightarrow> RedisChatService \<Rightarrow> bool \<times> RedisChatService" where
  "Redis_Connect redis_ok subscriber_ok r =
     (if \<not> redis_ok then (False, r)
      else let r = r\<lparr>r_redis := True\<rparr> in
        if \<not> subscriber_ok then (False, r)
        else (True, r\<lparr>r_subscriber := True, r_channels := [], r_running := True\<rparr>))"

text \<open>
  The join waits for the thread, which leaves only after its blocking \<open>consume\<close> returns:
  \<open>None\<close> if that never happens.
\<close>

definition Redis_Disconnect :: "bool \<Rightarrow> RedisChatService \<Rightarrow> RedisChatService option" where
  "Redis_Disconnect consume_returns r =
     (if \<not> r_running r then Some r
      else if r_thread r \<and> \<not> consume_returns then None
      else let r = r\<lparr>r_running := False, r_thread := False\<rparr> in
        Some (if r_subscriber r then r\<lparr>r_channels := removeAll ''chat_channel'' (r_channels r)\<rparr> else r))"

definition Publish :: "bool \<Rightarrow> string \<Rightarrow> string \<Rightarrow> RedisChatService \<Rightarrow> bool \<times> RedisChatService" where
  "Publish server_ok channel message r =
     (if \<not> r_redis r then (False, r)
      else if server_ok then (True, r\<lparr>r_published := r_published r @ [(channel, message)]\<rparr>)
      else (False, r))"

text \<open>Assigning to a joinable \<open>std::thread\<close> ends the process.\<close>

definition Redis_Subscribe :: "string \<Rightarrow> RedisChatService \<Rightarrow> RedisChatService outcome" where
  "Redis_Subscribe channel r =
     (if \<not> r_subscriber r then Returned r
      else let r = r\<lparr>r_channels := r_channels r @ [channel]\<rparr> in
        if r_thread r then Crashed else Returned (r\<lparr>r_thread := True\<rparr>))"

definition Redis_Unsubscribe :: "string \<Rightarrow> RedisChatService \<Rightarrow> RedisChatService" where
  "Redis_Unsubscribe channel r =
     (if r_subscriber r then r\<lparr>r_channels := removeAll channel (r_channels r)\<rparr> else r)"

text \<open>
  The subscriber thread: what \<open>consume\<close> yields in each turn, after the flag was read.  The
  thread ends when the flag is down or \<open>consume\<close> throws; with no more events it waits.
\<close>

datatype consumed = Message string string | ConsumeError

fun subscribe_loop :: "(string \<Rightarrow> string \<Rightarrow> 's \<Rightarrow> 's) \<Rightarrow> (bool \<times> consumed) list \<Rightarrow> 's \<Rightarrow> 's" where
  "subscribe_loop callback [] s = s"
| "subscribe_loop callback ((running, ev) # evs) s = (if \<not> running then s
     else case ev of ConsumeError \<Rightarrow> s
       | Message channel msg \<Rightarrow> subscribe_loop callback evs (callback channel msg s))"

section \<open>The chat handler\<close>

definition data_as_C_Chat :: "UnifiedPacket \<Rightarrow> (string option \<times> int64) option" where
  "data_as_C_Chat packet = (case up_data packet of Some (Packet_C_Chat message cid) \<Rightarrow> Some (message, cid) | _ \<Rightarrow> None)"

text \<open>A log line that names the peer: it throws when there is none.\<close>

definition log_endpoint :: "(uint64 \<Rightarrow> string option) \<Rightarrow> Session \<Rightarrow> 's \<Rightarrow> 's outcome" where
  "log_endpoint peer s st = (case GetRemoteEndpoint peer s of None \<Rightarrow> Thrown st | Some _ \<Rightarrow> Returned st)"

definition chat_line :: "uint64 \<Rightarrow> string \<Rightarrow> string" where
  "chat_line playerId message = to_string_int (sint playerId) @ ''|'' @ message"

definition ChatPacketHandler ::
  "(uint64 \<Rightarrow> string option) \<Rightarrow> bool \<Rightarrow> nat option \<Rightarrow> UnifiedPacket \<Rightarrow> Net \<Rightarrow> RedisChatService \<Rightarrow> RedisChatService outcome" where
  "ChatPacketHandler peer server_ok session packet net r = (case session of
      None \<Rightarrow> Returned r
    | Some a \<Rightarrow>
        let sess = store net a in
        if up_id packet \<noteq> PacketId_C_Chat then log_endpoint peer sess r
        else case data_as_C_Chat packet of
            Some (Some chat_message, _) \<Rightarrow>
              (case log_endpoint peer sess r of
                 Returned r \<Rightarrow> Returned (snd (Publish server_ok ''chat_channel'' (chat_line (s_playerId sess) chat_message) r))
               | out \<Rightarrow> out)
          | _ \<Rightarrow> log_endpoint peer sess r)"

section \<open>The chat manager\<close>

record ChatManager =
  m_connectedSessions :: "(string \<times> nat) list"
  cm_redis :: RedisChatService

definition mk_ChatManager :: ChatManager where
  "mk_ChatManager = \<lparr>m_connectedSessions = [], cm_redis = mk_RedisChatService\<rparr>"

text \<open>The broadcast, once the message is parsed.\<close>

definition chat_broadcast :: "(UnifiedPacket \<Rightarrow> byte list) \<Rightarrow> int64 \<Rightarrow> string \<Rightarrow> ChatManager \<Rightarrow> Net \<Rightarrow> Net" where
  "chat_broadcast enc player_id chat_message cm net =
     (let send_buffer = enc (CreateUnifiedPacket PacketId_S_Chat (Packet_S_Chat player_id chat_message 0))
      in fold (\<lambda>(_, a) net. upd_session net a (\<lambda>s. Send s send_buffer)) (m_connectedSessions cm) net)"

definition HandleRedisChatMessage ::
  "(UnifiedPacket \<Rightarrow> byte list) \<Rightarrow> string \<Rightarrow> string \<Rightarrow> ChatManager \<Rightarrow> Net \<Rightarrow> Net" where
  "HandleRedisChatMessage enc channel message cm net = (case find_char (CHR ''|'') message of
      None \<Rightarrow> net
    | Some delimiter_pos \<Rightarrow>
        (case stoll (take delimiter_pos message) of
           Inl _ \<Rightarrow> net
         | Inr player_id \<Rightarrow> chat_broadcast enc player_id (drop (delimiter_pos + 1) message) cm net))"

definition session_key :: "Session \<Rightarrow> string" where
  "session_key s = to_string (unat (s_sessionId s))"

text \<open>Both callbacks change the map before they log the peer's address.\<close>

definition OnSessionConnected :: "(uint64 \<Rightarrow> string option) \<Rightarrow> Net \<Rightarrow> nat \<Rightarrow> ChatManager \<Rightarrow> ChatManager outcome" where
  "OnSessionConnected peer net a cm = log_endpoint peer (store net a)
     (cm\<lparr>m_connectedSessions := map_set (m_connectedSessions cm) (session_key (store net a)) a\<rparr>)"

definition CM_OnSessionDisconnected :: "(uint64 \<Rightarrow> string option) \<Rightarrow> Net \<Rightarrow> nat \<Rightarrow> ChatManager \<Rightarrow> ChatManager outcome" where
  "CM_OnSessionDisconnected peer net a cm = log_endpoint peer (store net a)
     (cm\<lparr>m_connectedSessions := map_erase (m_connectedSessions cm) (session_key (store net a))\<rparr>)"

text \<open>\<open>Initialize\<close> after the callbacks are set: connect and subscribe, or give up on chat.\<close>

definition redis_url :: "string option \<Rightarrow> string option \<Rightarrow> string" where
  "redis_url host port = ''tcp://'' @ (case host of Some h \<Rightarrow> h | None \<Rightarrow> ''127.0.0.1'') @ '':'' @
     (case port of Some p \<Rightarrow> p | None \<Rightarrow> ''6379'')"

definition CM_Initialize :: "(string \<Rightarrow> bool) \<Rightarrow> (string \<Rightarrow> bool) \<Rightarrow> string option \<Rightarrow> string option \<Rightarrow> ChatManager \<Rightarrow> ChatManager outcome" where
  "CM_Initialize redis_ok subscriber_ok host port cm =
     (let url = redis_url host port in
      case Redis_Connect (redis_ok url) (subscriber_ok url) (cm_redis cm) of
        (False, r) \<Rightarrow> Returned (cm\<lparr>cm_redis := r\<rparr>)
      | (True, r) \<Rightarrow> (case Redis_Subscribe ''chat_channel'' r of
            Returned r \<Rightarrow> Returned (cm\<lparr>cm_redis := r\<rparr>)
          | Thrown r \<Rightarrow> Thrown (cm\<lparr>cm_redis := r\<rparr>)
          | Crashed \<Rightarrow> Crashed))"

definition CM_Shutdown :: "bool \<Rightarrow> ChatManager \<Rightarrow> ChatManager option" where
  "CM_Shutdown consume_returns cm = map_option (\<lambda>r. cm\<lparr>cm_redis := r\<rparr>) (Redis_Disconnect consume_returns (cm_redis cm))"

section \<open>Lemmas\<close>

text \<open>The chat map holds each session under the decimal string of its id.\<close>

definition chat_ok :: "Net \<Rightarrow> ChatManager \<Rightarrow> bool" where
  "chat_ok net cm \<longleftrightarrow> map_ok (m_connectedSessions cm) \<and>
     (\<forall>(k, a) \<in> set (m_connectedSessions cm). k = session_key (store net a))"

lemma map_set_cases: "x \<in> set (map_set m k v) \<Longrightarrow> x = (k, v) \<or> x \<in> set m"
  by (induction m k v rule: map_set.induct) (auto split: if_splits)

lemma chat_ok_addresses: "chat_ok net cm \<Longrightarrow> distinct (map snd (m_connectedSessions cm))"
proof -
  assume ok: "chat_ok net cm"
  then have "map fst (m_connectedSessions cm) = map (\<lambda>a. session_key (store net a)) (map snd (m_connectedSessions cm))"
    by (auto simp: chat_ok_def)
  moreover have "distinct (map fst (m_connectedSessions cm))"
    using ok om.ok_entries by (auto simp: chat_ok_def)
  ultimately show ?thesis by (metis distinct_map)
qed

lemma broadcast_all:
  "distinct as \<Longrightarrow> m_writeQueue (store (fold (\<lambda>a net. upd_session net a (\<lambda>s. Send s bytes)) as net) b) =
     m_writeQueue (store net b) @ (if b \<in> set as then [frame bytes] else [])"
  by (induction as arbitrary: net) (auto simp: upd_session_def Send_def)

lemma chat_broadcast_queue:
  assumes "chat_ok net cm"
  shows "m_writeQueue (store (chat_broadcast enc i msg cm net) b) = m_writeQueue (store net b) @
    (if b \<in> snd ` set (m_connectedSessions cm)
     then [frame (enc (CreateUnifiedPacket PacketId_S_Chat (Packet_S_Chat i msg 0)))] else [])"
proof -
  have "fold (\<lambda>(_, a) net. upd_session net a (\<lambda>s. Send s bytes)) m n = fold (\<lambda>a net. upd_session net a (\<lambda>s. Send s bytes)) (map snd m) n"
    for bytes n and m :: "(string \<times> nat) list"
    by (induction m arbitrary: n) auto
  then show ?thesis using broadcast_all [OF chat_ok_addresses [OF assms]] by (simp add: chat_broadcast_def)
qed

lemma parse_chat_line:
  "HandleRedisChatMessage enc channel (chat_line i msg) cm net = chat_broadcast enc i msg cm net"
  using find_char_append [OF to_string_int_no_bar, of "sint i" msg] stoll_to_string [of "[]" i]
  by (simp add: HandleRedisChatMessage_def chat_line_def)

end
