(* ===== verification/Chat_Properties.thy ===== *)
theory Chat_Properties
  imports Chat
begin

text \<open>The properties of chat: the way of a line through Redis, and the ways in which it is lost.\<close>

text \<open>
  C21: a chat packet of a connected player is published as one line, and when the subscriber
  thread receives that line, every session of the chat manager is sent exactly one packet with
  the sender's player id and the text unchanged, also when the text contains the delimiter or
  the id is above \<open>2 ^ 63\<close>; no other session receives anything.
\<close>

theorem chat_roundtrip:
  assumes "chat_ok net cm" "up_id packet = PacketId_C_Chat" "up_data packet = Some (Packet_C_Chat (Some text) cid)"
    and "GetRemoteEndpoint peer (store net a) \<noteq> None" "r_redis r"
  shows "\<exists>line. ChatPacketHandler peer True (Some a) packet net r =
      Returned (r\<lparr>r_published := r_published r @ [(''chat_channel'', line)]\<rparr>) \<and>
    (\<forall>b. m_writeQueue (store (subscribe_loop (\<lambda>ch m. HandleRedisChatMessage enc ch m cm) [(True, Message ''chat_channel'' line)] net) b) =
      m_writeQueue (store net b) @ (if b \<in> snd ` set (m_connectedSessions cm)
        then [frame (enc (CreateUnifiedPacket PacketId_S_Chat (Packet_S_Chat (s_playerId (store net a)) text 0)))] else []))"
  using assms
  by (intro exI [of _ "chat_line (s_playerId (store net a)) text"])
    (auto simp: ChatPacketHandler_def data_as_C_Chat_def log_endpoint_def Publish_def parse_chat_line chat_broadcast_queue Let_def)

definition chat_net :: Net where
  "chat_net = upd_session (snd (new_session (snd (new_session empty_Net)))) 0 (\<lambda>s. SetPlayerId s (- 3))"

definition chat_cm :: ChatManager where
  "chat_cm = mk_ChatManager\<lparr>m_connectedSessions := [(''0'', 0), (''1'', 1)]\<rparr>"

definition chat_peer :: "uint64 \<Rightarrow> string option" where
  "chat_peer i = Some ''10.0.0.1''"

lemma chat_demo_ok: "chat_ok chat_net chat_cm"
  by code_simp

theorem chat_roundtrip_witness:
  "\<exists>line. ChatPacketHandler chat_peer True (Some 0) (CreateUnifiedPacket PacketId_C_Chat (Packet_C_Chat (Some ''a|b'') 0)) chat_net
        (mk_RedisChatService\<lparr>r_redis := True\<rparr>) =
      Returned (mk_RedisChatService\<lparr>r_redis := True, r_published := [(''chat_channel'', line)]\<rparr>) \<and>
    m_writeQueue (store (HandleRedisChatMessage (\<lambda>_. [5]) ''chat_channel'' line chat_cm chat_net) 1) = [frame [5]]"
proof -
  let ?p = "CreateUnifiedPacket PacketId_C_Chat (Packet_C_Chat (Some ''a|b'') 0)"
  have "GetRemoteEndpoint chat_peer (store chat_net 0) \<noteq> None" "m_writeQueue (store chat_net 1) = []"
    by (simp_all add: GetRemoteEndpoint_def chat_peer_def chat_net_def upd_session_def new_session_def empty_Net_def
        mk_Session_def SetPlayerId_def)
  moreover have "1 \<in> snd ` set (m_connectedSessions chat_cm)" by (simp add: chat_cm_def)
  moreover obtain line where "ChatPacketHandler chat_peer True (Some 0) ?p chat_net (mk_RedisChatService\<lparr>r_redis := True\<rparr>) =
      Returned (mk_RedisChatService\<lparr>r_redis := True, r_published := [(''chat_channel'', line)]\<rparr>)"
    "\<And>b. m_writeQueue (store (subscribe_loop (\<lambda>ch m. HandleRedisChatMessage (\<lambda>_. [5]) ch m chat_cm)
        [(True, Message ''chat_channel'' line)] chat_net) b) =
      m_writeQueue (store chat_net b) @ (if b \<in> snd ` set (m_connectedSessions chat_cm) then [frame [5]] else [])"
    using chat_roundtrip [OF chat_demo_ok, of ?p "''a|b''" 0 chat_peer 0 "mk_RedisChatService\<lparr>r_redis := True\<rparr>" "\<lambda>_. [5]"] calculation(1)
    by (auto simp: CreateUnifiedPacket_def mk_RedisChatService_def)
  ultimately show ?thesis by (intro exI [of _ line]) simp
qed

text \<open>
  The line of a sender whose connection is closed before a worker reaches its packet is lost:
  the handler throws while it composes a log message, before it publishes.
\<close>

theorem chat_lost_after_disconnect:
  assumes "up_id packet = PacketId_C_Chat"
  shows "ChatPacketHandler peer ok (Some a) packet (upd_session net a close_session) r = Thrown r"
  using assms by (auto simp: ChatPacketHandler_def log_endpoint_def GetRemoteEndpoint_def upd_session_def close_session_def Let_def
      split: option.split)

text \<open>
  \<open>std::stoll\<close>, on which the parsing of chat lines rests, accepts exactly blanks, an optional
  sign and a non-empty run of digits whose value fits 64 bits, and returns that value; whatever
  follows the digits is ignored.
\<close>

theorem stoll_accepts:
  "stoll s = Inr w \<longleftrightarrow> (\<exists>sp sg ds rest. s = sp @ sg @ ds @ rest \<and> list_all is_space sp \<and> sg \<in> {[], ''+'', ''-''} \<and>
     ds \<noteq> [] \<and> list_all is_digit ds \<and> (rest = [] \<or> \<not> is_digit (hd rest)) \<and>
     (let v = (if sg = ''-'' then - int (digits_value ds) else int (digits_value ds))
      in - (2 ^ 63) \<le> v \<and> v < 2 ^ 63 \<and> w = word_of_int v))"
  (is "?l = ?r")
proof
  assume ?l
  let ?sp = "takeWhile is_space s" and ?t = "dropWhile is_space s"
  obtain neg body where b: "stoll_sign ?t = (neg, body)" by fastforce
  obtain sg where sg: "?t = sg @ body" "sg \<in> {[], ''+'', ''-''}" "neg = (sg = ''-'')"
    using b by (auto simp: stoll_sign_def split: list.splits if_splits)
  let ?ds = "takeWhile is_digit body" and ?rest = "dropWhile is_digit body"
  have "s = ?sp @ sg @ ?ds @ ?rest" using sg(1) by (metis takeWhile_dropWhile_id)
  moreover have "list_all is_space ?sp" "list_all is_digit ?ds" by (auto simp: list_all_iff dest: set_takeWhileD)
  moreover have "?rest = [] \<or> \<not> is_digit (hd ?rest)" using hd_dropWhile [of is_digit body] by blast
  moreover have "?ds \<noteq> []" "let v = (if sg = ''-'' then - int (digits_value ?ds) else int (digits_value ?ds))
      in - (2 ^ 63) \<le> v \<and> v < 2 ^ 63 \<and> w = word_of_int v"
    using \<open>?l\<close> by (simp_all add: stoll_def b sg(3) Let_def not_le not_less split: if_splits)
  ultimately show ?r using sg(2) by blast
next
  assume ?r
  then obtain sp sg ds rest where r: "s = sp @ sg @ ds @ rest" "list_all is_space sp" "sg \<in> {[], ''+'', ''-''}"
    "ds \<noteq> []" "list_all is_digit ds" "rest = [] \<or> \<not> is_digit (hd rest)"
    and v: "let v = (if sg = ''-'' then - int (digits_value ds) else int (digits_value ds))
      in - (2 ^ 63) \<le> v \<and> v < 2 ^ 63 \<and> w = word_of_int v" by blast
  obtain d ds' where d: "ds = d # ds'" "is_digit d" using r(4,5) by (cases ds) auto
  have "takeWhile is_digit rest = []" using r(6) by (cases rest) auto
  then have tw: "takeWhile is_digit (ds @ rest) = ds" using r(5) by (simp add: takeWhile_append2 list_all_iff)
  have "\<not> is_space (CHR ''+'')" "\<not> is_space (CHR ''-'')" by (simp_all add: is_space_def)
  then have "dropWhile is_space (sg @ ds @ rest) = sg @ ds @ rest" using r(3) digit_facts [OF d(2)] by (auto simp: d(1))
  then have dw: "dropWhile is_space s = sg @ ds @ rest" using r(1,2) by (simp add: dropWhile_append2 list_all_iff)
  have "stoll_sign (sg @ ds @ rest) = (sg = ''-'', ds @ rest)"
    using r(3) digit_facts [OF d(2)] by (auto simp: stoll_sign_def d(1))
  then show ?l using tw r(4) v by (simp add: stoll_def dw Let_def not_le not_less split: if_splits)
qed

theorem stoll_accepts_witness: "stoll '' -12x'' = Inr (- 12)"
  by (rule iffD2 [OF stoll_accepts], intro exI [of _ "'' ''"] exI [of _ "''-''"] exI [of _ "''12''"] exI [of _ "''x''"])
    (simp add: is_space_def is_digit_def digits_value_def)

end
