(* ===== verification/Server.thy ===== *)
theory Server
  imports Chat
begin

text \<open>
  \<open>src/Network/TcpServer.cpp\<close> together with the callbacks that \<open>ChatManager::Initialize\<close>
  installs, \<open>Session::Disconnect\<close> and the ways in which the loops of a session leave.

  A session is started before it is added to the session manager, and its loops run on other
  threads, so the accept loop has two steps here between which a disconnect can happen.
\<close>

section \<open>State\<close>

record Server =
  sv_net :: Net
  sv_chat :: ChatManager
  sv_sessionManager :: bool \<comment> \<open>the pointer \<open>m_sessionManager\<close> is not null\<close>
  sv_onConnected :: bool \<comment> \<open>the callbacks of the chat manager are set\<close>
  sv_onDisconnected :: bool
  sv_accepting :: bool \<comment> \<open>the coroutine \<open>AcceptLoop\<close> is alive\<close>
  sv_pending :: "nat option" \<comment> \<open>a session that is started and not yet added\<close>
  sv_stopped :: bool \<comment> \<open>\<open>m_ioContext.stopped()\<close>\<close>
  sv_workers :: nat

definition mk_TcpServer :: "Net \<Rightarrow> bool \<Rightarrow> ChatManager \<Rightarrow> Server" where
  "mk_TcpServer net sm chat = \<lparr>sv_net = net, sv_chat = chat, sv_sessionManager = sm, sv_onConnected = False,
     sv_onDisconnected = False, sv_accepting = False, sv_pending = None, sv_stopped = False, sv_workers = 0\<rparr>"

definition SetOnSessionConnected :: "Server \<Rightarrow> Server" where
  "SetOnSessionConnected sv = sv\<lparr>sv_onConnected := True\<rparr>"

definition SetOnSessionDisconnected :: "Server \<Rightarrow> Server" where
  "SetOnSessionDisconnected sv = sv\<lparr>sv_onDisconnected := True\<rparr>"

text \<open>\<open>listen\<close> may throw; then nothing was spawned.\<close>

definition Tcp_Start :: "bool \<Rightarrow> int \<Rightarrow> Server \<Rightarrow> bool \<times> Server" where
  "Tcp_Start listen_ok worker_threads sv =
     (if worker_threads \<le> 0 then (False, sv)
      else if \<not> listen_ok then (False, sv)
      else (True, sv\<lparr>sv_accepting := True, sv_workers := sv_workers sv + nat worker_threads\<rparr>))"

text \<open>The signal handler of the constructor.\<close>

definition Tcp_signal :: "Server \<Rightarrow> Server" where
  "Tcp_signal sv = sv\<lparr>sv_stopped := True\<rparr>"

text \<open>An \<open>io_context\<close> that is not stopped is stopped and at once reset; the threads are joined.\<close>

definition Tcp_Stop :: "Server \<Rightarrow> Server" where
  "Tcp_Stop sv = (let sv = (if \<not> sv_stopped sv then sv\<lparr>sv_stopped := False\<rparr> else sv) in sv\<lparr>sv_workers := 0\<rparr>)"

definition MAX_CONCURRENT_CONNECTIONS :: nat where "MAX_CONCURRENT_CONNECTIONS = 600"

section \<open>Disconnecting\<close>

definition OnSessionDisconnectedInternal ::
  "time_point \<Rightarrow> (uint64 \<Rightarrow> string option) \<Rightarrow> nat \<Rightarrow> Server \<Rightarrow> Server outcome" where
  "OnSessionDisconnectedInternal now peer a sv =
     (let sv = (if sv_sessionManager sv
          then sv\<lparr>sv_net := RemoveSession now (sv_net sv) (s_sessionId (store (sv_net sv) a))\<rparr> else sv)
      in if sv_onDisconnected sv then
           (case CM_OnSessionDisconnected peer (sv_net sv) a (sv_chat sv) of
              Returned cm \<Rightarrow> Returned (sv\<lparr>sv_chat := cm\<rparr>)
            | Thrown cm \<Rightarrow> Thrown (sv\<lparr>sv_chat := cm\<rparr>)
            | Crashed \<Rightarrow> Crashed)
         else Returned sv)"

definition Session_Disconnect :: "time_point \<Rightarrow> (uint64 \<Rightarrow> string option) \<Rightarrow> nat \<Rightarrow> Server \<Rightarrow> Server outcome" where
  "Session_Disconnect now peer a sv =
     OnSessionDisconnectedInternal now peer a (sv\<lparr>sv_net := upd_session (sv_net sv) a close_session\<rparr>)"

text \<open>
  Every exit of \<open>ReadLoop\<close> calls \<open>Disconnect\<close> inside the \<open>try\<close> block; if that throws, the
  handler calls it once more, and an exception from there ends the detached coroutine silently.
  \<open>WriteLoop\<close> calls it from its handler only.
\<close>

definition settle :: "Server \<Rightarrow> Server outcome \<Rightarrow> Server" where
  "settle sv out = (case out of Returned sv' \<Rightarrow> sv' | Thrown sv' \<Rightarrow> sv' | Crashed \<Rightarrow> sv)"

definition leave_WriteLoop :: "time_point \<Rightarrow> (uint64 \<Rightarrow> string option) \<Rightarrow> nat \<Rightarrow> Server \<Rightarrow> Server" where
  "leave_WriteLoop now peer a sv = settle sv (Session_Disconnect now peer a sv)"

definition leave_ReadLoop :: "time_point \<Rightarrow> time_point \<Rightarrow> (uint64 \<Rightarrow> string option) \<Rightarrow> nat \<Rightarrow> Server \<Rightarrow> Server" where
  "leave_ReadLoop now now' peer a sv = (case Session_Disconnect now peer a sv of
      Thrown sv' \<Rightarrow> settle sv' (Session_Disconnect now' peer a sv')
    | out \<Rightarrow> settle sv out)"

section \<open>Accepting\<close>

text \<open>
  What \<open>async_accept\<close> brings: an error; a socket on which a later call of the body throws
  because the peer is already gone (\<open>remote_endpoint\<close> or \<open>set_option\<close>; the flag says whether the
  session constructor had already taken an id); or a good connection.  Any exception leaves
  the \<open>while\<close> loop for good.
\<close>

datatype accept_event = AcceptError | PeerGone bool | Connected

definition at_limit :: "Server \<Rightarrow> bool" where
  "at_limit sv \<longleftrightarrow> sv_sessionManager sv \<and> MAX_CONCURRENT_CONNECTIONS \<le> GetActiveSessionCount (sv_net sv)"

definition accept_begin :: "accept_event \<Rightarrow> Server \<Rightarrow> Server" where
  "accept_begin ev sv =
     (if \<not> sv_accepting sv \<or> sv_pending sv \<noteq> None then sv
      else case ev of
          AcceptError \<Rightarrow> sv\<lparr>sv_accepting := False\<rparr>
        | PeerGone id_taken \<Rightarrow>
            (if at_limit sv \<or> \<not> id_taken then sv\<lparr>sv_accepting := False\<rparr>
             else sv\<lparr>sv_accepting := False, sv_net := (sv_net sv)\<lparr>s_nextSessionId := s_nextSessionId (sv_net sv) + 1\<rparr>\<rparr>)
        | Connected \<Rightarrow>
            (if at_limit sv then sv
             else case new_session (sv_net sv) of (a, net) \<Rightarrow> sv\<lparr>sv_net := net, sv_pending := Some a\<rparr>))"

definition accept_finish :: "(uint64 \<Rightarrow> string option) \<Rightarrow> Server \<Rightarrow> Server" where
  "accept_finish peer sv = (case sv_pending sv of
      None \<Rightarrow> sv
    | Some a \<Rightarrow>
        let sv = (if sv_sessionManager sv then sv\<lparr>sv_net := AddSession (sv_net sv) a\<rparr> else sv);
            sv = sv\<lparr>sv_pending := None\<rparr>
        in if sv_onConnected sv then
             (case OnSessionConnected peer (sv_net sv) a (sv_chat sv) of
                Returned cm \<Rightarrow> sv\<lparr>sv_chat := cm\<rparr>
              | Thrown cm \<Rightarrow> sv\<lparr>sv_chat := cm, sv_accepting := False\<rparr>
              | Crashed \<Rightarrow> sv)
           else sv)"

section \<open>Runs\<close>

text \<open>
  The server between its start and its stop.  \<open>traffic\<close> stands for everything the other
  components do to the network state: they send, log in, and use the queue, but never touch the
  session table, nor the id and the socket of a session.
\<close>

definition same_sessions :: "Net \<Rightarrow> Net \<Rightarrow> bool" where
  "same_sessions net net' \<longleftrightarrow> m_activeSessions net' = m_activeSessions net \<and> next_addr net' = next_addr net \<and>
     s_nextSessionId net' = s_nextSessionId net \<and>
     (\<forall>a. s_sessionId (store net' a) = s_sessionId (store net a) \<and> s_open (store net' a) = s_open (store net a))"

inductive server_step :: "Server \<Rightarrow> Server \<Rightarrow> bool" where
  accepting: "server_step sv (accept_begin ev sv)"
| accepted: "server_step sv (accept_finish peer sv)"
| read_exit: "a < next_addr (sv_net sv) \<Longrightarrow> server_step sv (leave_ReadLoop now now' peer a sv)"
| write_exit: "a < next_addr (sv_net sv) \<Longrightarrow> server_step sv (leave_WriteLoop now peer a sv)"
| traffic: "same_sessions (sv_net sv) net' \<Longrightarrow> server_step sv (sv\<lparr>sv_net := net'\<rparr>)"

inductive_cases server_stepE: "server_step sv sv'"

text \<open>The server as \<open>main\<close> starts it: a fresh network and both callbacks set.\<close>

definition booted :: "int \<Rightarrow> ChatManager \<Rightarrow> Server" where
  "booted threads cm = snd (Tcp_Start True threads (SetOnSessionDisconnected (SetOnSessionConnected (mk_TcpServer empty_Net True cm))))"

section \<open>The invariant\<close>

definition chat_matches :: "Net \<Rightarrow> ChatManager \<Rightarrow> bool" where
  "chat_matches net cm \<longleftrightarrow> map_ok (m_connectedSessions cm) \<and>
     (\<forall>k a. map_of (m_connectedSessions cm) k = Some a \<longleftrightarrow>
       (\<exists>i. k = to_string (unat i) \<and> um_find (m_activeSessions net) i = Some a))"

definition server_ok :: "Server \<Rightarrow> bool" where
  "server_ok sv \<longleftrightarrow> sv_sessionManager sv \<and> sv_onConnected sv \<and> sv_onDisconnected sv \<and>
     um_ok (m_activeSessions (sv_net sv)) \<and>
     (\<forall>i a. um_find (m_activeSessions (sv_net sv)) i = Some a \<longrightarrow> s_sessionId (store (sv_net sv) a) = i \<and> a < next_addr (sv_net sv)) \<and>
     (case sv_pending sv of None \<Rightarrow> length (m_activeSessions (sv_net sv)) \<le> 600
      | Some a \<Rightarrow> a < next_addr (sv_net sv) \<and> length (m_activeSessions (sv_net sv)) < 600) \<and>
     chat_matches (sv_net sv) (sv_chat sv)"

lemma unat_inj [simp]: "unat i = unat j \<longleftrightarrow> i = j" for i j :: uint64
  using unsigned_word_eqI by blast

lemma RemoveSession_sessions [simp]:
  "m_activeSessions (RemoveSession now net i) = um_erase (m_activeSessions net) i"
  "next_addr (RemoveSession now net i) = next_addr net" "store (RemoveSession now net i) = store net"
proof -
  have "um_find m i = None \<Longrightarrow> um_erase m i = m" for m :: "(uint64, nat) umap"
    by (simp add: um_find_def um_erase_def map_of_eq_None_iff delete_id)
  then show "m_activeSessions (RemoveSession now net i) = um_erase (m_activeSessions net) i"
    by (auto simp: RemoveSession_def OnSessionDisconnected_def Let_def split: option.split)
qed (auto simp: RemoveSession_def OnSessionDisconnected_def Let_def split: option.split)

lemma chat_matches_add:
  assumes "chat_matches net cm" "m_activeSessions net' = um_set (m_activeSessions net) i a"
  shows "chat_matches net' (cm\<lparr>m_connectedSessions := map_set (m_connectedSessions cm) (to_string (unat i)) a\<rparr>)"
  using assms om.find_insert [of "m_connectedSessions cm" "to_string (unat i)" a]
  by (auto simp: chat_matches_def map_ok_set)

lemma chat_matches_remove:
  assumes "chat_matches net cm" "m_activeSessions net' = um_erase (m_activeSessions net) i"
  shows "chat_matches net' (cm\<lparr>m_connectedSessions := map_erase (m_connectedSessions cm) (to_string (unat i))\<rparr>)"
  using assms om.find_erase [of "m_connectedSessions cm" "to_string (unat i)"] om.ok_erase [of "m_connectedSessions cm"]
  by (auto simp: chat_matches_def)

text \<open>The effect of a disconnect in any state: the callback of the chat manager always throws.\<close>

lemma Session_Disconnect_eq:
  assumes "sv_sessionManager sv" "sv_onDisconnected sv"
  shows "Session_Disconnect now peer a sv = Thrown (sv\<lparr>
    sv_net := RemoveSession now (upd_session (sv_net sv) a close_session) (s_sessionId (store (sv_net sv) a)),
    sv_chat := (sv_chat sv)\<lparr>m_connectedSessions := map_erase (m_connectedSessions (sv_chat sv)) (to_string (unat (s_sessionId (store (sv_net sv) a))))\<rparr>\<rparr>)"
  using assms by (simp add: Session_Disconnect_def OnSessionDisconnectedInternal_def CM_OnSessionDisconnected_def log_endpoint_def
      GetRemoteEndpoint_def session_key_def upd_session_def close_session_def Let_def)

definition gone :: "time_point \<Rightarrow> nat \<Rightarrow> Server \<Rightarrow> Server" where
  "gone now a sv = sv\<lparr>
    sv_net := RemoveSession now (upd_session (sv_net sv) a close_session) (s_sessionId (store (sv_net sv) a)),
    sv_chat := (sv_chat sv)\<lparr>m_connectedSessions := map_erase (m_connectedSessions (sv_chat sv)) (to_string (unat (s_sessionId (store (sv_net sv) a))))\<rparr>\<rparr>"

lemma leave_eq:
  assumes "sv_sessionManager sv" "sv_onDisconnected sv"
  shows "leave_WriteLoop now peer a sv = gone now a sv" "leave_ReadLoop now now' peer a sv = gone now' a (gone now a sv)"
  using assms by (simp_all add: leave_WriteLoop_def leave_ReadLoop_def Session_Disconnect_eq gone_def settle_def)

lemma gone_ok: "server_ok sv \<Longrightarrow> server_ok (gone now a sv)"
proof -
  assume ok: "server_ok sv"
  let ?i = "s_sessionId (store (sv_net sv) a)"
  have "length (um_erase (m_activeSessions (sv_net sv)) ?i) \<le> length (m_activeSessions (sv_net sv))"
    using ok um.size_erase [of "m_activeSessions (sv_net sv)" ?i] by (simp add: server_ok_def)
  moreover have "chat_matches (sv_net (gone now a sv)) (sv_chat (gone now a sv))"
    using ok chat_matches_remove [of "sv_net sv" "sv_chat sv" _ ?i] by (simp add: server_ok_def gone_def upd_session_def)
  ultimately show ?thesis using ok
    by (auto simp: server_ok_def gone_def upd_session_def close_session_def split: option.splits if_splits)
qed

lemma accept_begin_ok: "server_ok sv \<Longrightarrow> server_ok (accept_begin ev sv)"
  by (cases ev) (auto simp: accept_begin_def server_ok_def chat_matches_def at_limit_def MAX_CONCURRENT_CONNECTIONS_def
      GetActiveSessionCount_def new_session_def less_Suc_eq split: option.splits)

lemma accept_finish_ok: "server_ok sv \<Longrightarrow> server_ok (accept_finish peer sv)"
proof (cases "sv_pending sv")
  case (Some a)
  assume ok: "server_ok sv"
  let ?i = "s_sessionId (store (sv_net sv) a)" and ?net = "AddSession (sv_net sv) a"
  let ?cm = "(sv_chat sv)\<lparr>m_connectedSessions := map_set (m_connectedSessions (sv_chat sv)) (to_string (unat ?i)) a\<rparr>"
  have "chat_matches ?net ?cm"
    using ok chat_matches_add [of "sv_net sv" "sv_chat sv" ?net ?i a] by (simp add: server_ok_def AddSession_def)
  moreover have "length (m_activeSessions ?net) \<le> 600"
    using ok Some um.size_insert [of "m_activeSessions (sv_net sv)" ?i a] by (simp add: server_ok_def AddSession_def)
  moreover have "accept_finish peer sv \<in> {sv\<lparr>sv_net := ?net, sv_pending := None, sv_chat := ?cm\<rparr>,
      sv\<lparr>sv_net := ?net, sv_pending := None, sv_chat := ?cm, sv_accepting := False\<rparr>}"
    using ok Some by (simp add: accept_finish_def OnSessionConnected_def log_endpoint_def server_ok_def session_key_def AddSession_def Let_def
        split: option.split)
  ultimately show ?thesis using ok Some by (auto simp: server_ok_def AddSession_def split: if_splits)
qed (simp add: accept_finish_def)

lemma same_sessions_ok: "server_ok sv \<Longrightarrow> same_sessions (sv_net sv) net' \<Longrightarrow> server_ok (sv\<lparr>sv_net := net'\<rparr>)"
  by (auto simp: server_ok_def same_sessions_def chat_matches_def split: option.splits)

lemma server_step_ok: "server_step sv sv' \<Longrightarrow> server_ok sv \<Longrightarrow> server_ok sv'"
proof (induction rule: server_step.induct)
  case (read_exit a sv now now' peer)
  then show ?case using gone_ok [OF gone_ok] by (simp add: server_ok_def [of sv] leave_eq(2))
next
  case (write_exit a sv now peer)
  then show ?case using gone_ok by (simp add: server_ok_def [of sv] leave_eq(1))
qed (auto intro: accept_begin_ok accept_finish_ok same_sessions_ok)

lemma booted_ok: "m_connectedSessions cm = [] \<Longrightarrow> server_ok (booted threads cm)"
  by (simp add: booted_def Tcp_Start_def SetOnSessionDisconnected_def SetOnSessionConnected_def mk_TcpServer_def server_ok_def
      empty_Net_def chat_matches_def map_ok_def)

lemma reachable_ok: "server_step\<^sup>*\<^sup>* sv sv' \<Longrightarrow> server_ok sv \<Longrightarrow> server_ok sv'"
  by (induction rule: rtranclp_induct) (auto intro: server_step_ok)

text \<open>What the invariant says about the sessions.\<close>

lemma server_ok_sessions:
  assumes ok: "server_ok sv"
  shows "GetActiveSessionCount (sv_net sv) \<le> 600" "distinct (map fst (m_activeSessions (sv_net sv)))"
    "GetSession (sv_net sv) i = Some a \<Longrightarrow> s_sessionId (store (sv_net sv) a) = i"
    "chat_ok (sv_net sv) (sv_chat sv)" "snd ` set (m_connectedSessions (sv_chat sv)) = set (GetAllSessions (sv_net sv))"
proof -
  let ?m = "m_connectedSessions (sv_chat sv)" and ?s = "m_activeSessions (sv_net sv)"
  have m: "map_ok ?m" "\<And>k a. map_of ?m k = Some a \<longleftrightarrow> (\<exists>i. k = to_string (unat i) \<and> um_find ?s i = Some a)"
    using ok by (auto simp: server_ok_def chat_matches_def)
  have e: "(k, a) \<in> set ?m \<longleftrightarrow> (\<exists>i. k = to_string (unat i) \<and> um_find ?s i = Some a)" for k a
    using om.in_entries_iff [OF m(1)] m(2) by simp
  have s: "(i, a) \<in> set ?s \<longleftrightarrow> um_find ?s i = Some a" for i a
    using um.in_entries_iff [of ?s] ok by (simp add: server_ok_def)
  have id: "um_find ?s i = Some a \<Longrightarrow> s_sessionId (store (sv_net sv) a) = i" for i a
    using ok by (simp add: server_ok_def)
  show "snd ` set ?m = set (GetAllSessions (sv_net sv))" using e s by (force simp: GetAllSessions_def image_iff)
  show "chat_ok (sv_net sv) (sv_chat sv)" using m(1) e id by (auto simp: chat_ok_def session_key_def)
  show "GetSession (sv_net sv) i = Some a \<Longrightarrow> s_sessionId (store (sv_net sv) a) = i" using id by (simp add: GetSession_def)
  show "GetActiveSessionCount (sv_net sv) \<le> 600" "distinct (map fst ?s)"
    using ok by (auto simp: server_ok_def GetActiveSessionCount_def um_ok_def split: option.splits)
qed

end
