(* ===== verification/Server_Properties.thy ===== *)
theory Server_Properties
  imports Server
begin

text \<open>The properties of the connection life cycle.\<close>

section \<open>Lemmas\<close>

lemma Session_Disconnect_frame:
  "\<exists>sv'. Session_Disconnect now peer a sv \<in> {Returned sv', Thrown sv'} \<and> next_addr (sv_net sv') = next_addr (sv_net sv) \<and>
     sv_accepting sv' = sv_accepting sv \<and> sv_pending sv' = sv_pending sv"
  by (simp add: Session_Disconnect_def OnSessionDisconnectedInternal_def CM_OnSessionDisconnected_def log_endpoint_def
      upd_session_def Let_def split: option.split)

lemma leave_frame:
  "next_addr (sv_net (leave_WriteLoop now peer a sv)) = next_addr (sv_net sv) \<and>
     sv_accepting (leave_WriteLoop now peer a sv) = sv_accepting sv \<and> sv_pending (leave_WriteLoop now peer a sv) = sv_pending sv"
  "next_addr (sv_net (leave_ReadLoop now now' peer a sv)) = next_addr (sv_net sv) \<and>
     sv_accepting (leave_ReadLoop now now' peer a sv) = sv_accepting sv \<and> sv_pending (leave_ReadLoop now now' peer a sv) = sv_pending sv"
proof -
  obtain s1 where s1: "Session_Disconnect now peer a sv \<in> {Returned s1, Thrown s1}" "next_addr (sv_net s1) = next_addr (sv_net sv)"
    "sv_accepting s1 = sv_accepting sv" "sv_pending s1 = sv_pending sv"
    using Session_Disconnect_frame [of now peer a sv] by blast
  obtain s2 where s2: "Session_Disconnect now' peer a s1 \<in> {Returned s2, Thrown s2}" "next_addr (sv_net s2) = next_addr (sv_net s1)"
    "sv_accepting s2 = sv_accepting s1" "sv_pending s2 = sv_pending s1"
    using Session_Disconnect_frame [of now' peer a s1] by blast
  show "next_addr (sv_net (leave_WriteLoop now peer a sv)) = next_addr (sv_net sv) \<and>
      sv_accepting (leave_WriteLoop now peer a sv) = sv_accepting sv \<and> sv_pending (leave_WriteLoop now peer a sv) = sv_pending sv"
    using s1 by (elim insertE emptyE) (simp_all add: leave_WriteLoop_def settle_def)
  show "next_addr (sv_net (leave_ReadLoop now now' peer a sv)) = next_addr (sv_net sv) \<and>
      sv_accepting (leave_ReadLoop now now' peer a sv) = sv_accepting sv \<and> sv_pending (leave_ReadLoop now now' peer a sv) = sv_pending sv"
    using s1 s2 by (elim insertE emptyE) (simp_all add: leave_ReadLoop_def settle_def)
qed

lemma no_more_sessions:
  assumes "server_step\<^sup>*\<^sup>* sv sv'" "\<not> sv_accepting sv" "sv_pending sv = None"
  shows "next_addr (sv_net sv') = next_addr (sv_net sv) \<and> \<not> sv_accepting sv' \<and> sv_pending sv' = None"
  using assms
proof (induction rule: rtranclp_induct)
  case (step y z)
  have "server_step y z \<Longrightarrow> \<not> sv_accepting y \<Longrightarrow> sv_pending y = None \<Longrightarrow>
      next_addr (sv_net z) = next_addr (sv_net y) \<and> \<not> sv_accepting z \<and> sv_pending z = None"
    by (induction rule: server_step.induct)
      (simp_all add: leave_frame accept_begin_def accept_finish_def same_sessions_def)
  then show ?case using step by simp
qed simp

section \<open>Properties\<close>

definition demo_peer :: "uint64 \<Rightarrow> string option" where
  "demo_peer i = Some ''127.0.0.1''"

definition demo_server :: Server where
  "demo_server = accept_finish demo_peer (accept_begin Connected (booted 2 mk_ChatManager))"

lemma demo_server_run: "server_step\<^sup>*\<^sup>* (booted 2 mk_ChatManager) demo_server"
  unfolding demo_server_def
  by (rule rtranclp_trans [OF r_into_rtranclp r_into_rtranclp]) (rule server_step.accepting, rule server_step.accepted)

text \<open>
  C4: when a listed session ends, however often its loops call \<open>Disconnect\<close>, it is closed with
  its buffers empty, it disappears from the table and from chat, no other entry changes, and
  the game is told exactly once if the session had a player, never otherwise.
\<close>

theorem disconnect_once:
  assumes "m_connectedSessions cm = []" "server_step\<^sup>*\<^sup>* (booted threads cm) sv"
    and "GetSession (sv_net sv) i = Some a" "\<not> m_shuttingDown (gameLogicQueue (sv_net sv))" "sm_gameLogicQueue (sv_net sv)"
    and "sv' = leave_WriteLoop now3 peer a (leave_ReadLoop now1 now2 peer a sv)"
  shows "GetSession (sv_net sv') = (GetSession (sv_net sv))(i := None) \<and>
    map_of (m_connectedSessions (sv_chat sv')) (to_string (unat i)) = None \<and>
    \<not> IsConnected (store (sv_net sv') a) \<and> m_writeQueue (store (sv_net sv') a) = [] \<and>
    q_items (gameLogicQueue (sv_net sv')) = q_items (gameLogicQueue (sv_net sv)) @
      (if s_playerId (store (sv_net sv) a) = 0 then []
       else [\<lparr>commandId = 0, payload = PlayerDisconnectPayload \<lparr>pd_playerId = s_playerId (store (sv_net sv) a)\<rparr>,
              senderSessionId = i, timestamp = GetCurrentTimestamp now1\<rparr>])"
proof -
  have ok: "server_ok sv" using reachable_ok [OF assms(2) booted_ok [OF assms(1)]] .
  then have i: "s_sessionId (store (sv_net sv) a) = i" and flags: "sv_sessionManager sv" "sv_onDisconnected sv"
    using assms(3) by (auto simp: server_ok_def GetSession_def)
  have sv': "sv' = gone now3 a (gone now2 a (gone now1 a sv))"
    using flags unfolding assms(6) by (simp add: leave_eq) (simp add: leave_eq gone_def)
  let ?g = "gone now1 a sv"
  have g: "s_sessionId (store (sv_net ?g) a) = i" "GetSession (sv_net ?g) = (GetSession (sv_net sv))(i := None)"
    "map_of (m_connectedSessions (sv_chat ?g)) (to_string (unat i)) = None" "store (sv_net ?g) a = close_session (store (sv_net sv) a)"
    using i by (auto simp: gone_def GetSession_def upd_session_def close_session_def om.find_erase fun_eq_iff)
  have q: "q_items (gameLogicQueue (sv_net ?g)) = q_items (gameLogicQueue (sv_net sv)) @
      (if s_playerId (store (sv_net sv) a) = 0 then []
       else [\<lparr>commandId = 0, payload = PlayerDisconnectPayload \<lparr>pd_playerId = s_playerId (store (sv_net sv) a)\<rparr>,
              senderSessionId = i, timestamp = GetCurrentTimestamp now1\<rparr>])"
    using i assms(3-5) by (simp add: gone_def RemoveSession_def GetSession_def OnSessionDisconnected_def PushGameCommand_def
        upd_session_def close_session_def Let_def)
  have again: "GetSession (sv_net (gone now a s)) = GetSession (sv_net s) \<and> gameLogicQueue (sv_net (gone now a s)) = gameLogicQueue (sv_net s) \<and>
      map_of (m_connectedSessions (sv_chat (gone now a s))) (to_string (unat i)) = None \<and> s_sessionId (store (sv_net (gone now a s)) a) = i \<and>
      store (sv_net (gone now a s)) a = close_session (store (sv_net s) a)"
    if "s_sessionId (store (sv_net s) a) = i" "GetSession (sv_net s) i = None" for now s
    using that by (auto simp: gone_def RemoveSession_def GetSession_def upd_session_def close_session_def om.find_erase fun_eq_iff)
  show ?thesis using again [of "gone now2 a ?g" now3] again [of ?g now2] g q unfolding sv'
    by (simp add: close_session_def IsConnected_def)
qed

definition demo_server1 :: Server where
  "demo_server1 = demo_server\<lparr>sv_net := upd_session (sv_net demo_server) 0 (\<lambda>s. SetPlayerId s 7)\<rparr>"

lemma demo_server1_run: "server_step\<^sup>*\<^sup>* (booted 2 mk_ChatManager) demo_server1"
  unfolding demo_server1_def
  by (rule rtranclp.rtrancl_into_rtrancl [OF demo_server_run], rule server_step.traffic)
    (simp add: same_sessions_def upd_session_def SetPlayerId_def)

theorem disconnect_once_witness:
  "q_items (gameLogicQueue (sv_net (leave_WriteLoop 9 demo_peer 0 (leave_ReadLoop 1000000 8 demo_peer 0 demo_server1)))) =
   [\<lparr>commandId = 0, payload = PlayerDisconnectPayload \<lparr>pd_playerId = 7\<rparr>, senderSessionId = 0, timestamp = GetCurrentTimestamp 1000000\<rparr>]"
proof -
  have "GetSession (sv_net demo_server1) 0 = Some 0" "\<not> m_shuttingDown (gameLogicQueue (sv_net demo_server1))"
    "sm_gameLogicQueue (sv_net demo_server1)" "s_playerId (store (sv_net demo_server1) 0) = 7"
    "q_items (gameLogicQueue (sv_net demo_server1)) = []" by code_simp+
  then show ?thesis using disconnect_once [OF _ demo_server1_run _ _ _ refl, of 0 0 9 demo_peer 1000000 8]
    by (simp add: mk_ChatManager_def)
qed

text \<open>
  C34: one bad connection ends the service.  If a peer resets its connection before the accept
  loop has logged its address, or if its read loop ends before the session is added, the accept
  loop leaves its \<open>while\<close> for good: no later event of any kind brings a new session.  In the
  second case the closed session also stays in the table of active sessions.
\<close>

theorem accept_loop_ends:
  assumes "m_connectedSessions cm = []" "server_step\<^sup>*\<^sup>* (booted threads cm) sv" "sv_pending sv = None" "\<not> at_limit sv"
    and "early = accept_begin (PeerGone b) sv"
    and "late = accept_finish peer (leave_ReadLoop now now' peer (next_addr (sv_net sv)) (accept_begin Connected sv))"
    and "sv_accepting sv" "z = early \<or> z = late" "server_step\<^sup>*\<^sup>* z sv'"
  shows "\<not> sv_accepting sv' \<and> next_addr (sv_net sv') = next_addr (sv_net z) \<and>
    GetSession (sv_net late) (s_nextSessionId (sv_net sv)) = Some (next_addr (sv_net sv)) \<and>
    \<not> IsConnected (store (sv_net late) (next_addr (sv_net sv)))"
proof -
  have ok: "server_ok sv" using reachable_ok [OF assms(2) booted_ok [OF assms(1)]] .
  let ?n = "next_addr (sv_net sv)" and ?net = "snd (new_session (sv_net sv))"
  define p where "p = sv\<lparr>sv_net := ?net, sv_pending := Some ?n\<rparr>"
  have p: "accept_begin Connected sv = p"
    using assms(3,4,7) by (simp add: accept_begin_def p_def new_session_def)
  define g where "g = gone now' ?n (gone now ?n p)"
  have "late = accept_finish peer g"
    using ok unfolding assms(6) p g_def by (subst leave_eq) (simp_all add: p_def server_ok_def)
  moreover have g: "sv_pending g = Some ?n" "sv_sessionManager g" "sv_onConnected g" "s_open (store (sv_net g) ?n) = False"
    "s_sessionId (store (sv_net g) ?n) = s_nextSessionId (sv_net sv)"
    using ok by (simp_all add: g_def gone_def p_def server_ok_def new_session_def mk_Session_def upd_session_def close_session_def)
  ultimately have late: "\<not> sv_accepting late" "sv_pending late = None"
    "GetSession (sv_net late) (s_nextSessionId (sv_net sv)) = Some ?n" "\<not> IsConnected (store (sv_net late) ?n)"
    by (simp_all add: accept_finish_def OnSessionConnected_def log_endpoint_def GetRemoteEndpoint_def AddSession_def GetSession_def
        IsConnected_def Let_def)
  moreover have "\<not> sv_accepting early" "sv_pending early = None"
    using assms(3,7) by (simp_all add: assms(5) accept_begin_def)
  ultimately have "\<not> sv_accepting z" "sv_pending z = None" using assms(8) by auto
  then show ?thesis using no_more_sessions [OF assms(9)] late by simp
qed

theorem accept_loop_ends_witness:
  "\<not> sv_accepting (accept_begin Connected (accept_begin (PeerGone True) demo_server)) \<and>
   GetSession (sv_net (accept_finish demo_peer (leave_ReadLoop 1 2 demo_peer 1 (accept_begin Connected demo_server)))) 1 = Some 1"
proof -
  let ?z = "accept_begin (PeerGone True) demo_server"
  have pre: "m_connectedSessions mk_ChatManager = []" "sv_pending demo_server = None" "\<not> at_limit demo_server" "sv_accepting demo_server"
    and n: "next_addr (sv_net demo_server) = 1" "s_nextSessionId (sv_net demo_server) = 1" by code_simp+
  have step: "server_step\<^sup>*\<^sup>* ?z (accept_begin Connected ?z)"
    by (rule r_into_rtranclp) (rule server_step.accepting)
  show ?thesis
    using accept_loop_ends [OF pre(1) demo_server_run pre(2,3) refl refl pre(4) disjI1 [OF refl] step, of demo_peer 1 2]
    by (simp only: n) blast
qed

end
