(* ===== verification/Auth.thy ===== *)
theory Auth
  imports Decimal
begin

text \<open>
  \<open>src/Game/Services/AuthService.h\<close> and \<open>AuthService.cpp\<close>: the verification of a session ticket
  by an HTTP request to the authentication server, a chain of completion handlers that ends
  with one call of the callback.  The JSON library is a parameter (its parser and its printer);
  its values and the accessors that the code uses on them are modelled.
\<close>

section \<open>JSON values\<close>

datatype json =
    JNull
  | JBool bool
  | JInt int64
  | JUint uint64
  | JFloat fp
  | JString string
  | JArray "json list"
  | JObject "(string \<times> json) list"

text \<open>
  How \<open>json::parse\<close> ends: a value, \<open>json::parse_error\<close>, or another exception of the library
  (a number that overflows).
\<close>

datatype parsed = Json json | Parse_error string | Other_error string

text \<open>\<open>contains\<close> is false on anything but an object; \<open>json_member\<close> is \<open>contains\<close> and \<open>operator[]\<close>.\<close>

definition json_member :: "json \<Rightarrow> string \<Rightarrow> json option" where
  "json_member j k = (case j of JObject members \<Rightarrow> map_of members k | _ \<Rightarrow> None)"

definition bool_member :: "json \<Rightarrow> string \<Rightarrow> bool option" where
  "bool_member j k = (case json_member j k of Some (JBool b) \<Rightarrow> Some b | _ \<Rightarrow> None)"

definition string_member :: "json \<Rightarrow> string \<Rightarrow> string option" where
  "string_member j k = (case json_member j k of Some (JString s) \<Rightarrow> Some s | _ \<Rightarrow> None)"

definition unsigned_member :: "json \<Rightarrow> string \<Rightarrow> uint64 option" where
  "unsigned_member j k = (case json_member j k of Some (JUint u) \<Rightarrow> Some u | _ \<Rightarrow> None)"

text \<open>\<open>get<int>\<close> truncates to 32 bits; \<open>get<float>\<close> rounds.\<close>

definition to_int :: "64 word \<Rightarrow> int" where
  "to_int w = sint (ucast w :: 32 word)"

definition int_member :: "json \<Rightarrow> string \<Rightarrow> int option" where
  "int_member j k = (case json_member j k of Some (JInt i) \<Rightarrow> Some (to_int i) | Some (JUint u) \<Rightarrow> Some (to_int u) | _ \<Rightarrow> None)"

definition float_member :: "json \<Rightarrow> string \<Rightarrow> fp option" where
  "float_member j k = (case json_member j k of
      Some (JFloat x) \<Rightarrow> Some (fp_conv binary32 x)
    | Some (JInt i) \<Rightarrow> Some (fp_of binary32 (of_int (sint i)))
    | Some (JUint u) \<Rightarrow> Some (fp_of binary32 (of_int (uint u)))
    | _ \<Rightarrow> None)"

definition or_keep :: "'a option \<Rightarrow> 'a \<Rightarrow> 'a" where
  "or_keep new old = (case new of Some x \<Rightarrow> x | None \<Rightarrow> old)"

section \<open>The request\<close>

record VerifyTicketResponse =
  vr_success :: bool
  vr_playerId :: uint64
  vr_username :: string
  vr_posX :: fp
  vr_posY :: fp
  vr_hp :: int
  vr_maxHp :: int
  vr_errorMessage :: string
  vr_errorCode :: int

definition default_response :: VerifyTicketResponse where
  "default_response = \<lparr>vr_success = False, vr_playerId = 0, vr_username = [], vr_posX = Fin 0, vr_posY = Fin 0,
     vr_hp = 0, vr_maxHp = 0, vr_errorMessage = [], vr_errorCode = 0\<rparr>"

record http_request =
  rq_target :: string
  rq_host :: string
  rq_content_type :: string
  rq_body :: string

text \<open>\<open>Run\<close>: the request that is sent; JSON objects keep their keys in order.\<close>

definition Run :: "(json \<Rightarrow> string) \<Rightarrow> string \<Rightarrow> string \<Rightarrow> uint64 \<Rightarrow> http_request" where
  "Run dump host sessionTicket playerId = \<lparr>rq_target = ''/api/auth/verify'', rq_host = host,
     rq_content_type = ''application/json'',
     rq_body = dump (JObject [(''PlayerId'', JUint playerId), (''SessionTicket'', JString sessionTicket)])\<rparr>"

record http_response =
  res_status :: nat
  res_reason :: string
  res_body :: string

datatype read_error = NoError | EndOfStream | ReadError string

text \<open>The handlers before the response: a failure answers the callback and ends the chain.\<close>

definition failure :: "int \<Rightarrow> string \<Rightarrow> VerifyTicketResponse" where
  "failure code message = default_response\<lparr>vr_success := False, vr_errorCode := code, vr_errorMessage := message\<rparr>"

definition OnResolve :: "string option \<Rightarrow> VerifyTicketResponse option" where
  "OnResolve ec = map_option (\<lambda>msg. failure (- 1) (''AuthServer DNS resolution failed: '' @ msg)) ec"

definition OnConnect :: "string option \<Rightarrow> VerifyTicketResponse option" where
  "OnConnect ec = map_option (\<lambda>msg. failure (- 2) (''AuthServer connection failed: '' @ msg)) ec"

definition OnWrite :: "string option \<Rightarrow> VerifyTicketResponse option" where
  "OnWrite ec = map_option (\<lambda>msg. failure (- 4) (''AuthServer request write failed: '' @ msg)) ec"

text \<open>The body of a response with status 200.\<close>

definition read_player_info :: "json \<Rightarrow> VerifyTicketResponse \<Rightarrow> VerifyTicketResponse" where
  "read_player_info j response = (case json_member j ''playerInfo'' of
      Some (JObject members) \<Rightarrow> let info = JObject members in
        response\<lparr>vr_playerId := or_keep (unsigned_member info ''playerId'') (vr_playerId response),
          vr_username := or_keep (string_member info ''name'') (vr_username response),
          vr_posX := or_keep (float_member info ''posX'') (vr_posX response),
          vr_posY := or_keep (float_member info ''posY'') (vr_posY response),
          vr_hp := or_keep (int_member info ''hp'') (vr_hp response),
          vr_maxHp := or_keep (int_member info ''maxHp'') (vr_maxHp response)\<rparr>
    | _ \<Rightarrow> response)"

definition read_verdict :: "json \<Rightarrow> VerifyTicketResponse \<Rightarrow> VerifyTicketResponse" where
  "read_verdict j response = (case bool_member j ''success'' of
      Some True \<Rightarrow> read_player_info j (response\<lparr>vr_success := True\<rparr>)
    | Some False \<Rightarrow> response\<lparr>vr_success := False,
        vr_errorMessage := or_keep (string_member j ''errorMessage'') (vr_errorMessage response),
        vr_errorCode := or_keep (int_member j ''errorCode'') (vr_errorCode response)\<rparr>
    | None \<Rightarrow> response\<lparr>vr_success := False, vr_errorCode := - 6,
        vr_errorMessage := ''Invalid JSON response from AuthServer: Missing 'success' field.''\<rparr>)"

text \<open>
  \<open>OnRead\<close>.  A graceful end of the stream is not an error: the code goes on with whatever
  response it has.  \<open>parse\<close> is \<open>json::parse\<close>; only \<open>parse_error\<close> is caught where the body of an
  error response is read.
\<close>

definition http_error :: "http_response \<Rightarrow> string" where
  "http_error res = ''AuthServer returned HTTP error: '' @ to_string (res_status res) @ '' '' @ res_reason res"

definition parse_failed :: "string \<Rightarrow> VerifyTicketResponse \<Rightarrow> VerifyTicketResponse" where
  "parse_failed what response = response\<lparr>vr_success := False, vr_errorCode := - 7,
     vr_errorMessage := ''Failed to parse AuthServer JSON response: '' @ what\<rparr>"

definition unknown_failure :: "string \<Rightarrow> VerifyTicketResponse \<Rightarrow> VerifyTicketResponse" where
  "unknown_failure what response = response\<lparr>vr_success := False, vr_errorCode := - 8,
     vr_errorMessage := ''Unknown error during AuthServer response processing: '' @ what\<rparr>"

definition OnRead :: "(string \<Rightarrow> parsed) \<Rightarrow> read_error \<Rightarrow> http_response \<Rightarrow> VerifyTicketResponse" where
  "OnRead parse ec res = (case ec of
      ReadError msg \<Rightarrow> failure (- 5) (''AuthServer response read failed: '' @ msg)
    | _ \<Rightarrow>
        let response = default_response\<lparr>vr_success := False\<rparr> in
        if res_status res = 200 then
          (case parse (res_body res) of
             Json j \<Rightarrow> read_verdict j response
           | Parse_error what \<Rightarrow> parse_failed what response
           | Other_error what \<Rightarrow> unknown_failure what response)
        else
          let response = response\<lparr>vr_success := False, vr_errorCode := int (res_status res), vr_errorMessage := http_error res\<rparr>
          in (case parse (res_body res) of
                Json j \<Rightarrow> (case string_member j ''message'' of
                    Some m \<Rightarrow> response\<lparr>vr_errorMessage := vr_errorMessage response @ '' - '' @ m\<rparr>
                  | None \<Rightarrow> response)
              | Parse_error _ \<Rightarrow> response
              | Other_error what \<Rightarrow> unknown_failure what response))"

section \<open>The chain of handlers\<close>

text \<open>
  The operation a request is waiting for, and how that operation completes.  The library
  completes each started operation once; a completion of another kind cannot occur and changes
  nothing.  Each step lists the calls of the callback.
\<close>

datatype request = Resolving | Connecting | Writing | Reading | Finished

datatype completion =
    Resolved "string option"
  | Connect_done "string option"
  | Written "string option"
  | Read_done read_error http_response

definition go_on :: "VerifyTicketResponse option \<Rightarrow> request \<Rightarrow> request \<times> VerifyTicketResponse list" where
  "go_on answer next = (case answer of Some r \<Rightarrow> (Finished, [r]) | None \<Rightarrow> (next, []))"

fun request_step :: "(string \<Rightarrow> parsed) \<Rightarrow> request \<Rightarrow> completion \<Rightarrow> request \<times> VerifyTicketResponse list" where
  "request_step parse Resolving (Resolved ec) = go_on (OnResolve ec) Connecting"
| "request_step parse Connecting (Connect_done ec) = go_on (OnConnect ec) Writing"
| "request_step parse Writing (Written ec) = go_on (OnWrite ec) Reading"
| "request_step parse Reading (Read_done ec res) = (Finished, [OnRead parse ec res])"
| "request_step parse q c = (q, [])"

fun run_request :: "(string \<Rightarrow> parsed) \<Rightarrow> request \<Rightarrow> completion list \<Rightarrow> request \<times> VerifyTicketResponse list" where
  "run_request parse q [] = (q, [])"
| "run_request parse q (c # cs) = (case request_step parse q c of (q', rs) \<Rightarrow>
     case run_request parse q' cs of (q'', rs') \<Rightarrow> (q'', rs @ rs'))"

text \<open>\<open>VerifySessionTicketAsync\<close>: what a fresh request does with the completions it gets.\<close>

definition VerifySessionTicketAsync :: "(string \<Rightarrow> parsed) \<Rightarrow> completion list \<Rightarrow> request \<times> VerifyTicketResponse list" where
  "VerifySessionTicketAsync parse cs = run_request parse Resolving cs"

section \<open>Lemmas\<close>

fun_cases request_step_FinishedE: "request_step parse Finished c = r"

lemma run_finished: "run_request parse Finished cs = (Finished, [])"
  by (induction cs) simp_all

lemma request_step_answers:
  "request_step parse q c = (q', rs) \<Longrightarrow> q \<noteq> Finished \<Longrightarrow> (q' = Finished \<and> (\<exists>r. rs = [r])) \<or> (q' \<noteq> Finished \<and> rs = [])"
  by (cases "(parse, q, c)" rule: request_step.cases) (auto simp: go_on_def split: option.splits)

lemma run_request_answers:
  "run_request parse q cs = (q', rs) \<Longrightarrow> q \<noteq> Finished \<Longrightarrow> (q' = Finished \<and> (\<exists>r. rs = [r])) \<or> (q' \<noteq> Finished \<and> rs = [])"
proof (induction cs arbitrary: q rs)
  case (Cons c cs)
  obtain q1 rs1 where s: "request_step parse q c = (q1, rs1)" by fastforce
  obtain q2 rs2 where t: "run_request parse q1 cs = (q2, rs2)" by fastforce
  have r: "q' = q2" "rs = rs1 @ rs2" using Cons.prems s t by simp_all
  from request_step_answers [OF s Cons.prems(2)] Cons.IH [OF t [folded r(1)]] t show ?case
    by (auto simp: r run_finished)
qed simp

text \<open>The body by which the authentication server confirms a ticket.\<close>

definition confirmed :: "(string \<Rightarrow> parsed) \<Rightarrow> http_response \<Rightarrow> bool" where
  "confirmed parse res \<longleftrightarrow> res_status res = 200 \<and>
     (case parse (res_body res) of Json (JObject members) \<Rightarrow> map_of members ''success'' = Some (JBool True) | _ \<Rightarrow> False)"

lemma read_player_info_success [simp]: "vr_success (read_player_info j r) = vr_success r"
  by (simp add: read_player_info_def Let_def split: option.split json.split)

lemma read_verdict_success: "vr_success (read_verdict j r) \<longleftrightarrow> bool_member j ''success'' = Some True"
  by (simp add: read_verdict_def split: option.split bool.split)

lemma OnRead_success: "vr_success (OnRead parse ec res) \<longleftrightarrow> (\<forall>msg. ec \<noteq> ReadError msg) \<and> confirmed parse res"
proof -
  have "bool_member j ''success'' = Some True \<longleftrightarrow> (case j of JObject members \<Rightarrow> map_of members ''success'' = Some (JBool True) | _ \<Rightarrow> False)" for j
    by (auto simp: bool_member_def json_member_def split: json.splits option.splits)
  then show ?thesis
    by (auto simp: OnRead_def confirmed_def failure_def default_response_def read_verdict_success parse_failed_def unknown_failure_def Let_def
        split: read_error.split parsed.split option.split)
qed

lemma handlers_fail: "OnResolve ec = Some r \<Longrightarrow> \<not> vr_success r" "OnConnect ec = Some r \<Longrightarrow> \<not> vr_success r"
  "OnWrite ec = Some r \<Longrightarrow> \<not> vr_success r"
  by (auto simp: OnResolve_def OnConnect_def OnWrite_def failure_def)

lemma request_step_success:
  "request_step parse q c = (q', rs) \<Longrightarrow> r \<in> set rs \<Longrightarrow> vr_success r \<Longrightarrow>
   \<exists>ec res. c = Read_done ec res \<and> r = OnRead parse ec res \<and> confirmed parse res"
  by (cases "(parse, q, c)" rule: request_step.cases)
    (auto simp: go_on_def OnRead_success dest: handlers_fail split: option.splits)

lemma run_request_success:
  "run_request parse q cs = (q', rs) \<Longrightarrow> r \<in> set rs \<Longrightarrow> vr_success r \<Longrightarrow>
   \<exists>ec res. Read_done ec res \<in> set cs \<and> r = OnRead parse ec res \<and> confirmed parse res"
proof (induction cs arbitrary: q rs)
  case (Cons c cs)
  obtain q1 rs1 where s: "request_step parse q c = (q1, rs1)" by fastforce
  obtain q2 rs2 where t: "run_request parse q1 cs = (q2, rs2)" by fastforce
  have r: "q' = q2" "rs = rs1 @ rs2" using Cons.prems s t by simp_all
  then have "r \<in> set rs1 \<or> r \<in> set rs2" using Cons.prems by auto
  then show ?case using request_step_success [OF s] Cons.IH [OF t [folded r(1)]] Cons.prems(3) by fastforce
qed simp

end
