(* ===== verification/Login.thy ===== *)
theory Login
  imports Auth Chat
begin

text \<open>
  \<open>src/Game/PacketHandlers/LoginPacketHandler.cpp\<close>: a login packet starts a ticket verification;
  its answer is posted to the network threads and turns into one reply on the session.
\<close>

section \<open>The handler\<close>

text \<open>What the callback of a started verification has captured.\<close>

record login_request =
  lr_session :: nat
  lr_commandId :: int64
  lr_ticket :: string
  lr_playerId :: uint64

definition data_as_C_Login :: "UnifiedPacket \<Rightarrow> C_Login option" where
  "data_as_C_Login packet = (case up_data packet of Some (Packet_C_Login d) \<Rightarrow> Some d | _ \<Rightarrow> None)"

definition login_failure :: "int \<Rightarrow> string \<Rightarrow> int64 \<Rightarrow> UnifiedPacket" where
  "login_failure errorCode errorMessage cmd_id =
     CreateUnifiedPacket PacketId_S_LoginFailure (Packet_S_LoginFailure errorCode errorMessage cmd_id)"

definition SendLoginFailure :: "(UnifiedPacket \<Rightarrow> byte list) \<Rightarrow> Net \<Rightarrow> nat \<Rightarrow> int \<Rightarrow> string \<Rightarrow> int64 \<Rightarrow> Net" where
  "SendLoginFailure enc net a errorCode errorMessage cmd_id =
     upd_session net a (\<lambda>s. Send s (enc (login_failure errorCode errorMessage cmd_id)))"

text \<open>
  The ticket is an optional field and is dereferenced unchecked.  \<open>auth\<close> says that the service
  is not null; a started verification is appended to the list of open requests.
\<close>

definition LoginPacketHandler ::
  "(UnifiedPacket \<Rightarrow> byte list) \<Rightarrow> (uint64 \<Rightarrow> string option) \<Rightarrow> bool \<Rightarrow> nat option \<Rightarrow> UnifiedPacket \<Rightarrow> Net \<Rightarrow> login_request list
   \<Rightarrow> (Net \<times> login_request list) outcome" where
  "LoginPacketHandler enc peer auth session packet net open_requests = (case session of
      None \<Rightarrow> Returned (net, open_requests)
    | Some a \<Rightarrow>
        let sess = store net a in
        if up_id packet \<noteq> PacketId_C_Login then log_endpoint peer sess (net, open_requests)
        else case data_as_C_Login packet of
            None \<Rightarrow> (case log_endpoint peer sess (net, open_requests) of
                Returned _ \<Rightarrow> Returned (SendLoginFailure enc net a (- 1) ''Invalid C_Login packet data.'' 0, open_requests)
              | out \<Rightarrow> out)
          | Some d \<Rightarrow>
              (case login_session_ticket d of
                 None \<Rightarrow> Crashed
               | Some ticket \<Rightarrow>
                   (case log_endpoint peer sess (net, open_requests) of
                      Returned _ \<Rightarrow>
                        if \<not> auth then Returned (SendLoginFailure enc net a (- 99)
                            ''Server internal error: Auth service unavailable.'' (login_command_id d), open_requests)
                        else Returned (net, open_requests @ [\<lparr>lr_session = a, lr_commandId = login_command_id d,
                            lr_ticket = ticket, lr_playerId = login_player_id d\<rparr>])
                    | out \<Rightarrow> out)))"

text \<open>
  The posted callback.  \<open>alive\<close>: the weak reference to the session can still be locked.  The
  log line of a failure names the peer; an exception there leaves \<open>io_context::run\<close>.
\<close>

definition login_success :: "VerifyTicketResponse \<Rightarrow> int64 \<Rightarrow> UnifiedPacket" where
  "login_success r cmd_id = CreateUnifiedPacket PacketId_S_LoginSuccess (Packet_S_LoginSuccess
     (CreatePlayerInfo (vr_playerId r) (Some (vr_username r)) None 100 100) cmd_id)"

definition login_answer ::
  "(UnifiedPacket \<Rightarrow> byte list) \<Rightarrow> (uint64 \<Rightarrow> string option) \<Rightarrow> bool \<Rightarrow> login_request \<Rightarrow> VerifyTicketResponse \<Rightarrow> Net \<Rightarrow> Net outcome" where
  "login_answer enc peer alive q r net =
     (let a = lr_session q in
      if \<not> alive \<or> \<not> IsConnected (store net a) then Returned net
      else if vr_success r then
        Returned (upd_session (upd_session net a (\<lambda>s. SetPlayerId s (vr_playerId r))) a
          (\<lambda>s. Send s (enc (login_success r (lr_commandId q)))))
      else case log_endpoint peer (store net a) net of
          Returned net \<Rightarrow> Returned (SendLoginFailure enc net a (vr_errorCode r) (vr_errorMessage r) (lr_commandId q))
        | out \<Rightarrow> out)"

section \<open>Properties\<close>

text \<open>
  A started verification calls its callback at most once whatever the network does, exactly
  once as soon as its chain of operations has ended, and the chain ends after at most four
  completions.
\<close>

theorem auth_one_answer:
  "(case VerifySessionTicketAsync parse cs of (q, answers) \<Rightarrow> length answers = (if q = Finished then 1 else 0)) \<and>
   fst (VerifySessionTicketAsync parse (Resolved e1 # Connect_done e2 # Written e3 # Read_done e4 res # cs)) = Finished"
  using run_request_answers [of parse Resolving cs]
  by (auto simp: VerifySessionTicketAsync_def go_on_def run_finished split: prod.splits option.splits)

text \<open>
  C14: only the authentication server makes somebody a player.  If an answer that a verification
  gave changes the player of a session, then a response with status 200 and the member
  \<open>success: true\<close> was received, the session was connected, it now carries the player id of that
  response, whatever id the client had claimed, and it was sent exactly one packet, the success
  with the client's command id; no other session changes.
\<close>

theorem login_needs_confirmation:
  assumes "VerifySessionTicketAsync parse cs = (st, answers)" "r \<in> set answers"
    and "login_answer enc peer alive q r net = Returned net'" "s_playerId (store net' b) \<noteq> s_playerId (store net b)"
  shows "\<exists>ec res. Read_done ec res \<in> set cs \<and> confirmed parse res \<and> r = OnRead parse ec res \<and> b = lr_session q \<and>
    IsConnected (store net b) \<and> s_playerId (store net' b) = vr_playerId r \<and>
    m_writeQueue (store net' b) = m_writeQueue (store net b) @ [frame (enc (login_success r (lr_commandId q)))] \<and>
    (\<forall>c. c \<noteq> b \<longrightarrow> store net' c = store net c)"
proof -
  have conv: "vr_success r" "b = lr_session q" "IsConnected (store net b)" "alive"
    using assms(3,4) by (auto simp: login_answer_def log_endpoint_def SendLoginFailure_def upd_session_def Send_def Let_def
        split: if_splits option.splits)
  obtain ec res where res: "Read_done ec res \<in> set cs" "r = OnRead parse ec res" "confirmed parse res"
    using run_request_success [of parse Resolving cs st answers r] assms(1,2) conv(1) by (auto simp: VerifySessionTicketAsync_def)
  have "net' = upd_session (upd_session net b (\<lambda>s. SetPlayerId s (vr_playerId r))) b (\<lambda>s. Send s (enc (login_success r (lr_commandId q))))"
    using assms(3) conv by (auto simp: login_answer_def Let_def split: if_splits)
  then show ?thesis using res conv by (intro exI [of _ ec] exI [of _ res]) (simp add: upd_session_def SetPlayerId_def Send_def)
qed

definition demo_parse :: "string \<Rightarrow> parsed" where
  "demo_parse s = (if s = ''ok'' then Json (JObject [(''success'', JBool True),
     (''playerInfo'', JObject [(''playerId'', JUint 7), (''name'', JString ''Ann''), (''hp'', JInt 90)])])
   else if s = ''bare'' then Json (JObject [(''success'', JBool True)]) else Parse_error ''bad'')"

definition demo_completions :: "string \<Rightarrow> completion list" where
  "demo_completions body = [Resolved None, Connect_done None, Written None,
     Read_done NoError \<lparr>res_status = 200, res_reason = ''OK'', res_body = body\<rparr>]"

definition demo_login :: login_request where
  "demo_login = \<lparr>lr_session = 0, lr_commandId = 3, lr_ticket = ''t'', lr_playerId = 99\<rparr>"

definition one_session :: Net where "one_session = snd (new_session empty_Net)"

lemma demo_answer:
  "VerifySessionTicketAsync demo_parse (demo_completions ''ok'') = (Finished, [OnRead demo_parse NoError
     \<lparr>res_status = 200, res_reason = ''OK'', res_body = ''ok''\<rparr>])"
  by (simp add: VerifySessionTicketAsync_def demo_completions_def OnResolve_def OnConnect_def OnWrite_def go_on_def)

theorem login_needs_confirmation_witness:
  "\<exists>net'. login_answer (\<lambda>_. [2]) (\<lambda>_. None) True demo_login (OnRead demo_parse NoError
       \<lparr>res_status = 200, res_reason = ''OK'', res_body = ''ok''\<rparr>) one_session = Returned net' \<and>
     s_playerId (store net' 0) = 7 \<and> m_writeQueue (store net' 0) = [frame [2]]"
proof -
  let ?r = "OnRead demo_parse NoError \<lparr>res_status = 200, res_reason = ''OK'', res_body = ''ok''\<rparr>"
  have r: "vr_success ?r" "vr_playerId ?r = 7" by code_simp+
  have s: "store one_session 0 = mk_Session 0" by (simp add: one_session_def new_session_def empty_Net_def)
  obtain net' where n: "login_answer (\<lambda>_. [2]) (\<lambda>_. None) True demo_login ?r one_session = Returned net'" "s_playerId (store net' 0) = 7"
    using r s by (auto simp: login_answer_def demo_login_def IsConnected_def mk_Session_def Let_def upd_session_def SetPlayerId_def Send_def)
  from login_needs_confirmation [OF demo_answer _ n(1), of 0] n(2) s have "m_writeQueue (store net' 0) = [frame [2]]"
    by (auto simp: mk_Session_def)
  then show ?thesis using n by blast
qed


definition demo_login_packet :: UnifiedPacket where
  "demo_login_packet = CreateUnifiedPacket PacketId_C_Login (Packet_C_Login
     \<lparr>login_session_ticket = Some ''t'', login_player_id = 99, login_command_id = 3\<rparr>)"


text \<open>
  A confirmation without player data logs the session in as player 0, the id of a session that
  has not logged in, so the end of that session is never reported to the game.
\<close>

theorem bare_confirmation_is_player_zero:
  "\<exists>r net'. VerifySessionTicketAsync demo_parse (demo_completions ''bare'') = (Finished, [r]) \<and> vr_success r \<and>
     login_answer enc peer True demo_login r one_session = Returned net' \<and> s_playerId (store net' 0) = 0 \<and>
     gameLogicQueue (RemoveSession now (AddSession net' 0) 0) = gameLogicQueue net'"
proof -
  let ?r = "OnRead demo_parse NoError \<lparr>res_status = 200, res_reason = ''OK'', res_body = ''bare''\<rparr>"
  have r: "vr_success ?r" "vr_playerId ?r = 0" by code_simp+
  have s: "store one_session 0 = mk_Session 0" by (simp add: one_session_def new_session_def empty_Net_def)
  have "VerifySessionTicketAsync demo_parse (demo_completions ''bare'') = (Finished, [?r])"
    by (simp add: VerifySessionTicketAsync_def demo_completions_def OnResolve_def OnConnect_def OnWrite_def go_on_def)
  moreover obtain net' where "login_answer enc peer True demo_login ?r one_session = Returned net'" "s_playerId (store net' 0) = 0"
    "s_sessionId (store net' 0) = 0"
    using r s by (auto simp: login_answer_def demo_login_def IsConnected_def mk_Session_def upd_session_def SetPlayerId_def Send_def Let_def)
  moreover from this have "gameLogicQueue (RemoveSession now (AddSession net' 0) 0) = gameLogicQueue net'"
    by (simp add: RemoveSession_def AddSession_def OnSessionDisconnected_def)
  ultimately show ?thesis using r(1) by blast
qed

end
