(* ===== verification/Main_Program.thy ===== *)
theory Main_Program
  imports Server Login Game_Properties
begin

text \<open>
  \<open>src/main.cpp\<close>: the options, the server configuration, and how the components are created,
  connected, started and stopped.
\<close>

section \<open>The server configuration\<close>

text \<open>
  \<open>operator[]\<close> on a mutable value: a missing member, and any member of \<open>null\<close>, is \<open>null\<close>; on
  other values it throws (\<open>None\<close>).  \<open>get<int>\<close> also takes booleans and truncates floats; a
  float outside the range of \<open>int\<close> is undefined and not modelled.
\<close>

definition json_index :: "json \<Rightarrow> string \<Rightarrow> json option" where
  "json_index j k = (case j of
      JObject members \<Rightarrow> Some (case map_of members k of Some v \<Rightarrow> v | None \<Rightarrow> JNull)
    | JNull \<Rightarrow> Some JNull
    | _ \<Rightarrow> None)"

definition get_string :: "json \<Rightarrow> string option" where
  "get_string j = (case j of JString s \<Rightarrow> Some s | _ \<Rightarrow> None)"

definition get_int :: "json \<Rightarrow> int option" where
  "get_int j = (case j of
      JInt i \<Rightarrow> Some (to_int i)
    | JUint u \<Rightarrow> Some (to_int u)
    | JFloat (Fin x) \<Rightarrow> Some (if 0 \<le> x then \<lfloor>x\<rfloor> else \<lceil>x\<rceil>)
    | JBool b \<Rightarrow> Some (if b then 1 else 0)
    | _ \<Rightarrow> None)"

datatype server_config = SC_NotOpen | SC_ParseError | SC_Parsed json

text \<open>The host is assigned before the port is read, so it survives a failure of the second.\<close>

definition load_server_config :: "server_config \<Rightarrow> string \<times> string" where
  "load_server_config file = (let authHost = ''localhost''; authPort = ''5278'' in case file of
      SC_Parsed config \<Rightarrow>
        (case json_index config ''auth_server'' of None \<Rightarrow> (authHost, authPort) | Some section \<Rightarrow>
        (case json_index section ''host'' of None \<Rightarrow> (authHost, authPort) | Some h \<Rightarrow>
        (case get_string h of None \<Rightarrow> (authHost, authPort) | Some authHost \<Rightarrow>
        (case json_index section ''port'' of None \<Rightarrow> (authHost, authPort) | Some p \<Rightarrow>
        (case get_int p of None \<Rightarrow> (authHost, authPort) | Some port \<Rightarrow> (authHost, to_string_int port))))))
    | _ \<Rightarrow> (authHost, authPort))"

section \<open>The registered handlers\<close>

type_synonym Services = "ChatManager \<times> login_request list"

text \<open>The state of the services when a handler runs: chat, and the verifications under way.\<close>

definition login_handler :: "(UnifiedPacket \<Rightarrow> byte list) \<Rightarrow> (uint64 \<Rightarrow> string option) \<Rightarrow> bool \<Rightarrow> Services handler" where
  "login_handler enc peer auth session packet s = (case s of (net, cm, started) \<Rightarrow>
     (case LoginPacketHandler enc peer auth session packet net started of
        Returned (net, started) \<Rightarrow> Returned (net, cm, started)
      | Thrown (net, started) \<Rightarrow> Thrown (net, cm, started)
      | Crashed \<Rightarrow> Crashed))"

definition chat_handler :: "(uint64 \<Rightarrow> string option) \<Rightarrow> bool \<Rightarrow> Services handler" where
  "chat_handler peer redis_up session packet s = (case s of (net, cm, started) \<Rightarrow>
     (case ChatPacketHandler peer redis_up session packet net (cm_redis cm) of
        Returned r \<Rightarrow> Returned (net, cm\<lparr>cm_redis := r\<rparr>, started)
      | Thrown r \<Rightarrow> Thrown (net, cm\<lparr>cm_redis := r\<rparr>, started)
      | Crashed \<Rightarrow> Crashed))"

definition register_handlers ::
  "(UnifiedPacket \<Rightarrow> byte list) \<Rightarrow> (uint64 \<Rightarrow> string option) \<Rightarrow> bool \<Rightarrow> Services PacketManager outcome" where
  "register_handlers enc peer redis_up =
     (case RegisterHandler (mk_PacketManager True) PacketId_C_Login (Some (login_handler enc peer True)) of
        Returned pm \<Rightarrow> RegisterHandler pm PacketId_C_Chat (Some (chat_handler peer redis_up))
      | out \<Rightarrow> out)"

section \<open>Start and stop\<close>

record options =
  opt_help :: bool
  opt_port :: "16 word"
  opt_io_threads :: int
  opt_logic_threads :: int

text \<open>What the outside contributes: options (\<open>None\<close>: a parse error), files, sockets, Redis.\<close>

record main_env =
  me_options :: "options option"
  me_server_config :: server_config
  me_game_config :: config_file
  me_cache :: StringCache \<comment> \<open>the prewarmed name cache\<close>
  me_bind_ok :: bool \<comment> \<open>the acceptor could be opened\<close>
  me_listen_ok :: bool
  me_redis_ok :: "string \<Rightarrow> bool"
  me_subscriber_ok :: "string \<Rightarrow> bool"
  me_redis_host :: "string option"
  me_redis_port :: "string option"

record Program =
  pr_jobQueue :: "Job shut_queue"
  pr_jobProcessor :: JobProcessor
  pr_game :: GameManager
  pr_server :: Server
  pr_logins :: "login_request list"
  pr_auth :: "string \<times> string"

text \<open>\<open>Trapped\<close> is the division by a zero tick rate or the crash of a component.\<close>

datatype boot = Exit_code int | Trapped | Started Program

definition main_start :: "main_env \<Rightarrow> boot" where
  "main_start me = (case me_options me of
      None \<Rightarrow> Exit_code 1
    | Some opts \<Rightarrow>
        if opt_help opts then Exit_code 0
        else if snd (LoadGameConfig (me_game_config me) (initial_GameManager True (me_cache me))) = DivisionByZero then Trapped
        else (case mk_GameManager True (me_cache me) (me_game_config me) of
          None \<Rightarrow> Exit_code 1
        | Some gm \<Rightarrow>
            let jp = JP_Start (mk_JobProcessor True True) (opt_logic_threads opts);
                gm = fst (GM_Start gm)
            in if \<not> me_bind_ok me then Exit_code 1
               else
                 let sv = SetOnSessionDisconnected (SetOnSessionConnected (mk_TcpServer empty_Net True mk_ChatManager))
                 in (case CM_Initialize (me_redis_ok me) (me_subscriber_ok me) (me_redis_host me) (me_redis_port me) (sv_chat sv) of
                       Returned cm \<Rightarrow>
                         (case Tcp_Start (me_listen_ok me) (opt_io_threads opts) (sv\<lparr>sv_chat := cm\<rparr>) of
                            (False, _) \<Rightarrow> Exit_code 1
                          | (True, sv) \<Rightarrow> Started \<lparr>pr_jobQueue = empty_queue, pr_jobProcessor = jp, pr_game = gm,
                              pr_server = sv, pr_logins = [], pr_auth = load_server_config (me_server_config me)\<rparr>)
                     | Thrown _ \<Rightarrow> Exit_code 1
                     | Crashed \<Rightarrow> Trapped)))"

text \<open>After \<open>io_context.run()\<close> returned: the game stops, then the workers are signalled.\<close>

definition main_stop :: "Program \<Rightarrow> Program" where
  "main_stop p = (case GM_Stop (pr_game p) (sv_net (pr_server p)) of (gm, net) \<Rightarrow>
     p\<lparr>pr_game := gm, pr_server := (pr_server p)\<lparr>sv_net := net\<rparr>,
       pr_jobQueue := JP_Stop_signal (pr_jobProcessor p) (pr_jobQueue p)\<rparr>)"

section \<open>Steps of the program\<close>

text \<open>A session's read loop delivers the bodies of what the peer has sent.\<close>

definition receive :: "Services PacketManager \<Rightarrow> nat \<Rightarrow> byte list \<Rightarrow> Program \<Rightarrow> Program" where
  "receive pm a stream p = p\<lparr>pr_jobQueue := fold (\<lambda>body q. HandlePacket pm q a body) (fst (ReadLoop stream)) (pr_jobQueue p)\<rparr>"

text \<open>A worker takes the next job; \<open>None\<close> if it would wait, leave or crash.\<close>

definition work :: "codec \<Rightarrow> Services PacketManager \<Rightarrow> Program \<Rightarrow> Program option" where
  "work fb pm p = (case PopJob (pr_jobQueue p) of
      None \<Rightarrow> None
    | Some (job, jq) \<Rightarrow>
        (case WorkerLoop_job fb (pr_jobProcessor p) pm job (sv_net (pr_server p), sv_chat (pr_server p), pr_logins p) of
           Next (net, cm, started) \<Rightarrow> Some (p\<lparr>pr_jobQueue := jq, pr_server := (pr_server p)\<lparr>sv_net := net, sv_chat := cm\<rparr>,
             pr_logins := started\<rparr>)
         | _ \<Rightarrow> None))"

text \<open>One iteration of the game loop.\<close>

definition tick :: "(UnifiedPacket \<Rightarrow> byte list) \<Rightarrow> tick_env \<Rightarrow> time_point \<Rightarrow> Program \<Rightarrow> time_point \<times> Program" where
  "tick enc te t p = (case GameLoop_iteration enc te t (pr_game p) (sv_net (pr_server p)) of
     (t', gm, net) \<Rightarrow> (t', p\<lparr>pr_game := gm, pr_server := (pr_server p)\<lparr>sv_net := net\<rparr>\<rparr>))"

end
