(* ===== verification/Program_Invariant.thy ===== *)
theory Program_Invariant
  imports Main_Program
begin

text \<open>
  The whole program as one transition system, and its invariant.  The components keep to the
  contracts that the invariants of the server and of the game assume of each other: whatever
  the game loop, the workers, the login callbacks and the chat subscriber do to the network
  state leaves the table of sessions, their ids and their sockets alone.
\<close>

section \<open>Components keep the session table\<close>

text \<open>
  Most of what they do is even quieter: it only appends to write queues.
\<close>

definition quiet :: "Net \<Rightarrow> Net \<Rightarrow> bool" where
  "quiet net net' \<longleftrightarrow> same_sessions net net' \<and> gameLogicQueue net' = gameLogicQueue net \<and>
     sm_gameLogicQueue net' = sm_gameLogicQueue net \<and> (\<forall>a. s_playerId (store net' a) = s_playerId (store net a))"

named_theorems quiet \<open>operations that only append to write queues\<close>
named_theorems same_sessions \<open>operations that leave the session table alone\<close>

lemma quiet_same: "quiet net net' \<Longrightarrow> same_sessions net net'"
  by (simp add: quiet_def)

lemma same_sessions_refl [simp, same_sessions]: "same_sessions net net"
  by (simp add: same_sessions_def)

lemma quiet_refl [simp, quiet]: "quiet net net"
  by (simp add: quiet_def)

lemma same_sessions_trans: "same_sessions a b \<Longrightarrow> same_sessions b c \<Longrightarrow> same_sessions a c"
  by (simp add: same_sessions_def)

lemma quiet_trans: "quiet a b \<Longrightarrow> quiet b c \<Longrightarrow> quiet a c"
  by (auto simp: quiet_def intro: same_sessions_trans)

lemma quiet_upd:
  "(\<And>s. s_sessionId (f s) = s_sessionId s \<and> s_open (f s) = s_open s \<and> s_playerId (f s) = s_playerId s) \<Longrightarrow> quiet net (upd_session net a f)"
  by (simp add: quiet_def same_sessions_def upd_session_def)

lemma quiet_sends [quiet]:
  "quiet net (upd_session net a (\<lambda>s. Send s bytes))" "quiet net (upd_session net a (\<lambda>s. SendBatch s packets))"
  "quiet net (SendLoginFailure enc net a code msg cid)"
  by (auto intro!: quiet_upd simp: Send_def SendBatch_def SendLoginFailure_def split: option.splits if_splits)

lemma quiet_fold: "(\<And>x n. x \<in> set xs \<Longrightarrow> quiet n (f x n)) \<Longrightarrow> quiet net (fold f xs net)"
  by (rule fold_keeps [where P = "quiet net"]) (auto intro: quiet_trans)

lemma quiet_send_to [quiet]: "quiet net (send_to net sid bytes)"
  by (simp add: send_to_def quiet split: option.split)

lemma quiet_broadcast [quiet]:
  "quiet net (BroadcastPlayerJoined enc gm net k)" "quiet net (BroadcastPlayerLeft enc gm net k)"
  by (auto simp: BroadcastPlayerJoined_def BroadcastPlayerLeft_def quiet Let_def intro!: quiet_fold split: option.split)

lemma quiet_response [quiet]: "quiet net (snd (SendEnterZoneResponse enc gm net k s))"
  by (simp add: SendEnterZoneResponse_def quiet Let_def split_beta split: option.split)

lemma quiet_enter: "quiet net (snd (HandleEnterZone enc env gm net d s))"
proof -
  have "quiet net (BroadcastPlayerJoined enc g (snd (SendEnterZoneResponse enc g' net k s)) j)" for g g' k j
    by (rule quiet_trans [OF quiet_response quiet_broadcast(1)])
  then show ?thesis by (simp add: HandleEnterZone_def Let_def split_beta split: option.split)
qed

lemma quiet_command [quiet]: "quiet net (snd (ProcessGameCommand enc env gm net c))"
  by (simp add: ProcessGameCommand_def HandlePlayerDisconnect_def quiet quiet_enter Let_def
      split: GameCommandPayload.split option.split)

lemma quiet_flush [quiet]: "quiet net (snd (FlushAllBatches gm net))"
  by (auto simp: FlushAllBatches_def flush_batch_def quiet intro!: quiet_fold split: option.split)

lemma quiet_chat [quiet]: "quiet net (HandleRedisChatMessage enc ch m cm net)"
  by (auto simp: HandleRedisChatMessage_def chat_broadcast_def quiet Let_def intro!: quiet_fold split: option.split sum.split)

text \<open>The network after a tick: the batch has left the queue, the rest is quiet.\<close>

lemma pending_net:
  assumes "ProcessPendingCommands enc te gm net = Some (gm', net')"
    and "collect_commands (te_expired te) (te_running te) (nat (m_commandBatchSize gm)) [] (gameLogicQueue net) = (batch, q)"
  shows "quiet (net\<lparr>gameLogicQueue := q\<rparr>) net'"
proof -
  have "quiet (net\<lparr>gameLogicQueue := q\<rparr>) (snd (fold (\<lambda>(i, c) (gm, net). ProcessGameCommand enc (te_cmd te i) gm net c)
      (enumerate 0 batch) (gm, net\<lparr>gameLogicQueue := q\<rparr>)))"
    by (rule fold_keeps [where P = "\<lambda>s. quiet (net\<lparr>gameLogicQueue := q\<rparr>) (snd s)"])
      (auto split: prod.splits intro: quiet_trans [OF _ quiet_command])
  then show ?thesis using assms by (auto simp: ProcessPendingCommands_def split_beta split: if_splits)
qed

lemma same_sessions_queue [same_sessions]: "same_sessions net (net\<lparr>gameLogicQueue := q\<rparr>)" "same_sessions net (push_command net c)"
  by (simp_all add: same_sessions_def push_command_def)

lemma same_sessions_quiet [same_sessions]:
  "same_sessions net (upd_session net a (\<lambda>s. Send s bytes))" "same_sessions net (SendLoginFailure enc net a code msg cid)"
  by (rule quiet_same, rule quiet)+

lemma same_sessions_player [same_sessions]: "same_sessions net (upd_session net a (\<lambda>s. SetPlayerId s k))"
  by (simp add: same_sessions_def upd_session_def SetPlayerId_def)

lemma same_sessions_loop: "same_sessions net (snd (snd (GameLoop_iteration enc te t gm net)))"
proof (cases "ProcessPendingCommands enc te gm net")
  case (Some r)
  obtain g n where r: "r = (g, n)" by fastforce
  have "same_sessions net n"
    using quiet_same [OF pending_net [OF Some [unfolded r]]] same_sessions_trans [OF same_sessions_queue(1)] by (metis prod.exhaust)
  then have "same_sessions net (snd (FlushAllBatches g' n))" for g'
    using same_sessions_trans quiet_same [OF quiet_flush] by blast
  then show ?thesis by (simp add: GameLoop_iteration_def Some r Let_def split_beta)
qed (simp add: GameLoop_iteration_def Let_def)

lemma same_sessions_answer:
  assumes "login_answer enc peer alive q r net \<in> {Returned net', Thrown net'}"
  shows "same_sessions net net'"
  using assms same_sessions_trans [OF same_sessions_player same_sessions_quiet(1)]
  by (auto simp: login_answer_def log_endpoint_def same_sessions Let_def split: if_splits option.splits)

lemma same_sessions_handlers:
  "login_handler enc peer auth s packet (net, cm, lg) \<in> {Returned (net', cm', lg'), Thrown (net', cm', lg')} \<Longrightarrow>
     same_sessions net net' \<and> m_connectedSessions cm' = m_connectedSessions cm"
  "chat_handler peer up s packet (net, cm, lg) \<in> {Returned (net', cm', lg'), Thrown (net', cm', lg')} \<Longrightarrow>
     same_sessions net net' \<and> m_connectedSessions cm' = m_connectedSessions cm"
  by (auto simp: login_handler_def LoginPacketHandler_def log_endpoint_def chat_handler_def same_sessions Let_def
      split: option.splits outcome.splits if_splits)

text \<open>The packet manager that \<open>main\<close> builds.\<close>

lemma registered:
  assumes "register_handlers enc peer up = Returned pm"
  shows "um_find (m_handlers pm) = [PacketId_C_Login \<mapsto> login_handler enc peer True, PacketId_C_Chat \<mapsto> chat_handler peer up]"
    "pm_jobQueue pm"
  using assms by (auto simp: register_handlers_def RegisterHandler_def um_emplace_def mk_PacketManager_def PacketId_defs fun_eq_iff)

lemma same_sessions_job:
  assumes "register_handlers enc peer up = Returned pm" "WorkerLoop_job fb jp pm job (net, cm, lg) = Next (net', cm', lg')"
  shows "same_sessions net net' \<and> m_connectedSessions cm' = m_connectedSessions cm"
proof -
  have d: "same_sessions net net' \<and> m_connectedSessions cm' = m_connectedSessions cm"
    if "DispatchPacket pm i s packet (net, cm, lg) \<in> {Returned (net', cm', lg'), Thrown (net', cm', lg')}" for i s packet
    using that same_sessions_handlers(1) [of enc peer True s packet net cm lg net' cm' lg'] same_sessions_handlers(2) [of peer up s packet net cm lg net' cm' lg']
    by (auto simp: DispatchPacket_def registered(1) [OF assms(1)] split: option.splits if_splits)
  have "(net' = net \<and> cm' = cm) \<or> ProcessJobPacket fb jp pm job (fb_root fb (packetBuffer job)) (net, cm, lg) \<in> {Returned (net', cm', lg'), Thrown (net', cm', lg')}"
    using assms(2) by (auto simp: WorkerLoop_job_def split: if_splits outcome.splits)
  then show ?thesis using d by (auto simp: ProcessJobPacket_def same_sessions Let_def split: option.splits if_splits)
qed

section \<open>The program as a transition system\<close>

text \<open>
  The threads of the running program: a session's read loop, the workers, the game loop, the
  accept loop and the exits of the loops of a session, the login callbacks and the chat
  subscriber.  \<open>enc\<close> and \<open>fb\<close> are fixed, the answers of the outside may differ in every step.
  Only the stop clears the flag that a tick reads, so a tick that finds it cleared is the one
  that the stop waits for.
\<close>

definition with_net :: "Program \<Rightarrow> Net \<Rightarrow> Program" where
  "with_net p net = p\<lparr>pr_server := (pr_server p)\<lparr>sv_net := net\<rparr>\<rparr>"

inductive program_step :: "(UnifiedPacket \<Rightarrow> byte list) \<Rightarrow> codec \<Rightarrow> Program \<Rightarrow> Program \<Rightarrow> bool" for enc fb where
  reads: "register_handlers enc peer up = Returned pm \<Longrightarrow> a < next_addr (sv_net (pr_server p)) \<Longrightarrow>
    program_step enc fb p (receive pm a stream p)"
| works: "register_handlers enc peer up = Returned pm \<Longrightarrow> work fb pm p = Some p' \<Longrightarrow> program_step enc fb p p'"
| ticks: "m_running (pr_game p) \<Longrightarrow> (\<And>i. env_ok (te_cmd te i)) \<Longrightarrow> (\<And>i. te_running te i) \<Longrightarrow>
    program_step enc fb p (snd (tick enc te t p))"
| last_tick: "m_running (pr_game p) \<Longrightarrow> (\<And>i. env_ok (te_cmd te i)) \<Longrightarrow>
    program_step enc fb p (main_stop (snd (tick enc te t p)))"
| accepts: "program_step enc fb p (p\<lparr>pr_server := accept_begin ev (pr_server p)\<rparr>)"
| adds: "program_step enc fb p (p\<lparr>pr_server := accept_finish peer (pr_server p)\<rparr>)"
| read_ends: "a < next_addr (sv_net (pr_server p)) \<Longrightarrow>
    program_step enc fb p (p\<lparr>pr_server := leave_ReadLoop now now' peer a (pr_server p)\<rparr>)"
| write_ends: "a < next_addr (sv_net (pr_server p)) \<Longrightarrow>
    program_step enc fb p (p\<lparr>pr_server := leave_WriteLoop now peer a (pr_server p)\<rparr>)"
| answers: "q \<in> set (pr_logins p) \<Longrightarrow> login_answer enc peer alive q r (sv_net (pr_server p)) \<in> {Returned net, Thrown net} \<Longrightarrow>
    program_step enc fb p ((with_net p net)\<lparr>pr_logins := remove1 q (pr_logins p)\<rparr>)"
| hears: "program_step enc fb p (with_net p (HandleRedisChatMessage enc ch m (sv_chat (pr_server p)) (sv_net (pr_server p))))"
| stops: "program_step enc fb p (main_stop p)"

definition program_ok :: "Program \<Rightarrow> bool" where
  "program_ok p \<longleftrightarrow> gm_ok (pr_game p) \<and> roomy (pr_game p) \<and> batches_empty (pr_game p) \<and> server_ok (pr_server p)"

lemma server_ok_net:
  assumes "server_ok sv" "same_sessions (sv_net sv) net" "m_connectedSessions cm = m_connectedSessions (sv_chat sv)"
  shows "server_ok (sv\<lparr>sv_net := net, sv_chat := cm\<rparr>)"
  using same_sessions_ok [OF assms(1,2)] assms(3) by (simp add: server_ok_def chat_matches_def split: option.splits)

lemma program_ok_net: "program_ok p \<Longrightarrow> same_sessions (sv_net (pr_server p)) net \<Longrightarrow> program_ok (with_net p net)"
  using same_sessions_ok by (simp add: program_ok_def with_net_def)

lemma program_ok_server: "program_ok p \<Longrightarrow> server_step (pr_server p) sv \<Longrightarrow> program_ok (p\<lparr>pr_server := sv\<rparr>)"
  using server_step_ok by (simp add: program_ok_def)

lemma tick_ok:
  assumes "program_ok p" "\<And>i. env_ok (te_cmd te i)"
  shows "program_ok (snd (tick enc te t p))"
proof -
  obtain t' gm net where r: "GameLoop_iteration enc te t (pr_game p) (sv_net (pr_server p)) = (t', gm, net)" by (metis prod.exhaust)
  have "same_sessions (sv_net (pr_server p)) net" using same_sessions_loop [of "sv_net (pr_server p)" enc te t "pr_game p"] r by simp
  then have "server_ok ((pr_server p)\<lparr>sv_net := net\<rparr>)" using same_sessions_ok assms(1) by (simp add: program_ok_def)
  moreover have "gm_ok gm \<and> roomy gm" "batches_empty gm"
    using GameLoop_iteration_ok [OF _ _ assms(2) r] GameLoop_iteration_batches [OF _ r] assms(1) by (simp_all add: program_ok_def)
  ultimately show ?thesis by (simp add: tick_def r program_ok_def)
qed

lemma work_ok:
  assumes "program_ok p" "register_handlers enc peer up = Returned pm" "work fb pm p = Some p'"
  shows "program_ok p'"
proof -
  obtain job jq net cm lg where j: "WorkerLoop_job fb (pr_jobProcessor p) pm job (sv_net (pr_server p), sv_chat (pr_server p), pr_logins p) = Next (net, cm, lg)"
    "p' = p\<lparr>pr_jobQueue := jq, pr_server := (pr_server p)\<lparr>sv_net := net, sv_chat := cm\<rparr>, pr_logins := lg\<rparr>"
    using assms(3) by (auto simp: work_def split: option.splits prod.splits worker_result.splits)
  have "server_ok ((pr_server p)\<lparr>sv_net := net, sv_chat := cm\<rparr>)"
    using server_ok_net [of "pr_server p" net cm] same_sessions_job [OF assms(2) j(1)] assms(1) by (simp add: program_ok_def)
  then show ?thesis using assms(1) by (simp add: program_ok_def j(2))
qed

lemma main_stop_ok: "program_ok p \<Longrightarrow> program_ok (main_stop p)"
proof -
  assume ok: "program_ok p"
  obtain gm net where s: "GM_Stop (pr_game p) (sv_net (pr_server p)) = (gm, net)" by fastforce
  have "same_sessions (sv_net (pr_server p)) net" "gm_ok gm \<and> roomy gm \<and> batches_empty gm"
    using s ok by (auto simp: GM_Stop_def same_sessions program_ok_def gm_ok_def roomy_def batches_empty_def split: if_splits)
  then show ?thesis using same_sessions_ok [of "pr_server p" net] ok by (simp add: main_stop_def s program_ok_def)
qed

lemma program_step_ok: "program_step enc fb p p' \<Longrightarrow> program_ok p \<Longrightarrow> program_ok p'"
proof (induction rule: program_step.induct)
  case (reads peer up pm a p stream)
  then show ?case by (simp add: receive_def program_ok_def)
next
  case (answers q p peer alive r net)
  then show ?case using program_ok_net [OF _ same_sessions_answer] by (simp add: program_ok_def)
next
  case (hears p ch m)
  then show ?case by (intro program_ok_net quiet_same [OF quiet_chat])
qed (auto intro: work_ok tick_ok main_stop_ok program_ok_server server_step.intros)

lemma program_run_ok: "(program_step enc fb)\<^sup>*\<^sup>* p p' \<Longrightarrow> program_ok p \<Longrightarrow> program_ok p'"
  by (induction rule: rtranclp_induct) (auto intro: program_step_ok)

text \<open>A program that has started satisfies the invariant.\<close>

lemma main_start_parts:
  assumes "main_start me = Started p"
  obtains opts gm cm sv where "me_options me = Some opts" "\<not> opt_help opts"
    "mk_GameManager True (me_cache me) (me_game_config me) = Some gm" "m_connectedSessions cm = []"
    "Tcp_Start (me_listen_ok me) (opt_io_threads opts)
      ((SetOnSessionDisconnected (SetOnSessionConnected (mk_TcpServer empty_Net True mk_ChatManager)))\<lparr>sv_chat := cm\<rparr>) = (True, sv)"
    "p = \<lparr>pr_jobQueue = empty_queue, pr_jobProcessor = JP_Start (mk_JobProcessor True True) (opt_logic_threads opts),
      pr_game = fst (GM_Start gm), pr_server = sv, pr_logins = [], pr_auth = load_server_config (me_server_config me)\<rparr>"
proof -
  obtain opts gm cm sv where o: "me_options me = Some opts" "\<not> opt_help opts"
    "mk_GameManager True (me_cache me) (me_game_config me) = Some gm"
    "CM_Initialize (me_redis_ok me) (me_subscriber_ok me) (me_redis_host me) (me_redis_port me) mk_ChatManager = Returned cm"
    "Tcp_Start (me_listen_ok me) (opt_io_threads opts)
      ((SetOnSessionDisconnected (SetOnSessionConnected (mk_TcpServer empty_Net True mk_ChatManager)))\<lparr>sv_chat := cm\<rparr>) = (True, sv)"
    "p = \<lparr>pr_jobQueue = empty_queue, pr_jobProcessor = JP_Start (mk_JobProcessor True True) (opt_logic_threads opts),
      pr_game = fst (GM_Start gm), pr_server = sv, pr_logins = [], pr_auth = load_server_config (me_server_config me)\<rparr>"
    using assms by (auto simp: main_start_def Let_def SetOnSessionDisconnected_def SetOnSessionConnected_def mk_TcpServer_def
        split: option.splits if_splits outcome.splits prod.splits bool.splits)
  have "m_connectedSessions cm = []"
    using o(4) by (auto simp: CM_Initialize_def mk_ChatManager_def Let_def split: prod.splits bool.splits outcome.splits)
  then show thesis using that [OF o(1,2,3) _ o(5,6)] by blast
qed

lemma main_start_server:
  assumes "m_connectedSessions cm = []" "Tcp_Start ok threads
    ((SetOnSessionDisconnected (SetOnSessionConnected (mk_TcpServer empty_Net True mk_ChatManager)))\<lparr>sv_chat := cm\<rparr>) = (True, sv)"
  shows "server_ok sv" "sv_accepting sv" "sv_workers sv = nat threads" "0 < threads" "sv_net sv = empty_Net"
  using assms by (auto simp: Tcp_Start_def SetOnSessionDisconnected_def SetOnSessionConnected_def mk_TcpServer_def server_ok_def
      empty_Net_def chat_matches_def map_ok_def split: if_splits)

lemma main_start_ok:
  assumes "main_start me = Started p" "good_config True (me_cache me) (me_game_config me)"
  shows "program_ok p"
  using assms(1)
proof (rule main_start_parts)
  fix opts gm cm sv
  assume gm: "mk_GameManager True (me_cache me) (me_game_config me) = Some gm" and cm: "m_connectedSessions cm = []"
    "Tcp_Start (me_listen_ok me) (opt_io_threads opts)
      ((SetOnSessionDisconnected (SetOnSessionConnected (mk_TcpServer empty_Net True mk_ChatManager)))\<lparr>sv_chat := cm\<rparr>) = (True, sv)"
    and p: "p = \<lparr>pr_jobQueue = empty_queue, pr_jobProcessor = JP_Start (mk_JobProcessor True True) (opt_logic_threads opts),
      pr_game = fst (GM_Start gm), pr_server = sv, pr_logins = [], pr_auth = load_server_config (me_server_config me)\<rparr>"
  show "program_ok p" using boot_ok [OF gm assms(2)] main_start_server [OF cm]
    by (simp add: p program_ok_def GM_Start_def gm_ok_def roomy_def batches_empty_def)
qed

end
