(* ===== verification/Program_Properties.thy ===== *)
theory Program_Properties
  imports Program_Invariant Job_Properties
begin

text \<open>The properties that span the components: the start, and the way of an input.\<close>

section \<open>Lemmas\<close>

lemma ProcessPendingCommands_single:
  assumes "0 < m_commandBatchSize gm" "\<not> te_expired te 0" "\<not> te_expired te 1" "te_running te 0" "q_items (gameLogicQueue net) = [c]"
  shows "\<exists>g. ProcessPendingCommands enc te gm net =
    Some (g, snd (ProcessGameCommand enc (te_cmd te 0) gm (net\<lparr>gameLogicQueue := (gameLogicQueue net)\<lparr>q_items := []\<rparr>\<rparr>) c)) \<and>
    m_world g = m_world (fst (ProcessGameCommand enc (te_cmd te 0) gm (net\<lparr>gameLogicQueue := (gameLogicQueue net)\<lparr>q_items := []\<rparr>\<rparr>) c)) \<and>
    same_sim (fst (ProcessGameCommand enc (te_cmd te 0) gm (net\<lparr>gameLogicQueue := (gameLogicQueue net)\<lparr>q_items := []\<rparr>\<rparr>) c)) g"
proof -
  have "collect_commands (te_expired te) (te_running te) (nat (m_commandBatchSize gm)) [] (gameLogicQueue net) =
      ([c], (gameLogicQueue net)\<lparr>q_items := []\<rparr>)"
    using assms by (simp add: collect_commands.simps TryPopGameCommand_def try_dequeue_def)
  then show ?thesis using assms(1) by (simp add: ProcessPendingCommands_def split_beta same_sim_def)
qed

lemma GameLoop_world:
  assumes "gm_ok gm" "roomy gm" "\<And>i. env_ok (te_cmd te i)" "m_tickDuration gm \<le> duration_cast ns_per_ms (te_now te - t)"
    and "ProcessPendingCommands enc te gm net = Some (g, n)" "GameLoop_iteration enc te t gm net = (t', gm', net')"
  shows "GetPlayer (m_world gm') k = map_option (moved g (delta_seconds (duration_cast ns_per_ms (te_now te - t)))) (GetPlayer (m_world g) k)"
proof -
  let ?dt = "delta_seconds (duration_cast ns_per_ms (te_now te - t))"
  have ok: "gm_ok g" using ProcessPendingCommands_ok [OF assms(1,2,3,5)] by simp
  define u where "u = UpdateWorld ?dt g"
  define s where "s = SendWorldSnapshots enc (te_server te) u"
  define f where "f = fst (FlushAllBatches s n)"
  have u: "gm_ok u" using UpdateWorld_ok(1) [OF ok] by (simp add: u_def)
  have s: "gm_ok s" "same_sim u s" using SendWorldSnapshots_frame [OF u] by (simp_all add: s_def)
  have f: "gm_ok f" "same_sim s f" using FlushAllBatches_ok [OF s(1), of n] by (simp_all add: f_def)
  have "gm' = report_if_due (add_times te f)"
    using assms(4-6) by (auto simp: GameLoop_iteration_def Let_def split_beta f_def s_def u_def)
  then have "m_world gm' = m_world u"
    using tick_end_ok [OF f(1), of te] f(2) s(2) by (simp add: same_sim_def)
  then show ?thesis using UpdateWorld_ok(2) [OF ok] by (simp add: u_def)
qed

section \<open>Properties\<close>

text \<open>A framed input packet becomes one command of the game queue, sent under the player and the session of the socket.\<close>

lemma receive_work_input:
  assumes queues: "pr_jobQueue p = empty_queue" "jp_gameLogicQueue (pr_jobProcessor p)"
    and packet: "pm_jobQueue pm" "body_ok buf" "fb_verify fb buf" "fb_root fb buf = CreateUnifiedPacket PacketId_C_PlayerInput (Packet_C_PlayerInput i)"
      "fb_as_input fb (Packet_C_PlayerInput i) = i"
    and step: "work fb pm (receive pm a (frame buf) p) = Some p1"
  shows "pr_game p1 = pr_game p"
    and "sv_net (pr_server p1) = push_command (sv_net (pr_server p)) \<lparr>commandId = 0,
      payload = PlayerInputPayload (default_PlayerInput\<lparr>pi_playerId := s_playerId (store (sv_net (pr_server p)) a),
        pi_inputFlags := input_flags i, pi_sequenceNumber := input_sequence_number i\<rparr>),
      senderSessionId = s_sessionId (store (sv_net (pr_server p)) a), timestamp = 0\<rparr>"
proof -
  have "fst (ReadLoop (frame buf)) = [buf]" using ReadLoop_frame [OF packet(2), of "[]"] by (simp add: ReadLoop.simps [of "[]"])
  then have jq: "pr_jobQueue (receive pm a (frame buf) p) = empty_queue\<lparr>q_items := [mk_Job a buf]\<rparr>"
    using queues(1) packet(1) by (simp add: receive_def HandlePacket_def PushJob_def empty_queue_def)
  have rest: "pr_jobProcessor (receive pm a (frame buf) p) = pr_jobProcessor p" "pr_server (receive pm a (frame buf) p) = pr_server p"
    "pr_game (receive pm a (frame buf) p) = pr_game p" by (simp_all add: receive_def)
  define c where "c = \<lparr>commandId = 0,
      payload = PlayerInputPayload (default_PlayerInput\<lparr>pi_playerId := s_playerId (store (sv_net (pr_server p)) a),
        pi_inputFlags := input_flags i, pi_sequenceNumber := input_sequence_number i\<rparr>),
      senderSessionId = s_sessionId (store (sv_net (pr_server p)) a), timestamp = 0\<rparr>"
  have "buf \<noteq> []" using packet(2) by (auto simp: body_ok_def)
  then have "WorkerLoop_job fb (pr_jobProcessor p) pm (mk_Job a buf) (sv_net (pr_server p), cm, lg) =
      Next (push_command (sv_net (pr_server p)) c, cm, lg)" for cm lg
    using packet(3-5) queues(2)
    by (simp add: WorkerLoop_job_def ProcessJobPacket_def mk_Job_def CreateUnifiedPacket_def isNonGamePacket_def PacketId_defs
        default_GameCommand_def c_def Let_def)
  then show "pr_game p1 = pr_game p" "sv_net (pr_server p1) = push_command (sv_net (pr_server p)) \<lparr>commandId = 0,
      payload = PlayerInputPayload (default_PlayerInput\<lparr>pi_playerId := s_playerId (store (sv_net (pr_server p)) a),
        pi_inputFlags := input_flags i, pi_sequenceNumber := input_sequence_number i\<rparr>),
      senderSessionId = s_sessionId (store (sv_net (pr_server p)) a), timestamp = 0\<rparr>"
    using step rest unfolding c_def [symmetric] by (auto simp: work_def jq PopJob_open empty_queue_def)
qed

text \<open>
  C5: the way of an input through the whole server.  A client's stream holds one frame with a
  verified input packet.  After the read loop, one job of a worker and one due iteration of the
  game loop, the client's player has the velocity of the input's direction at the configured
  speed, its number is the last acknowledged one, and it has moved by that velocity times the
  elapsed time, unless that would leave the map.
\<close>

theorem input_moves_player:
  assumes game: "gm_ok (pr_game p)" "roomy (pr_game p)" "gm_sessionManager (pr_game p)" "0 < m_commandBatchSize (pr_game p)"
    and queues: "pr_jobQueue p = empty_queue" "gameLogicQueue (sv_net (pr_server p)) = empty_queue" "jp_gameLogicQueue (pr_jobProcessor p)"
    and session: "GetSession (sv_net (pr_server p)) (s_sessionId (store (sv_net (pr_server p)) a)) = Some a"
    and player: "GetPlayer (m_world (pr_game p)) (s_playerId (store (sv_net (pr_server p)) a)) = Some pl" "m_isActive pl"
    and packet: "pm_jobQueue pm" "body_ok buf" "fb_verify fb buf" "fb_root fb buf = CreateUnifiedPacket PacketId_C_PlayerInput (Packet_C_PlayerInput i)"
      "fb_as_input fb (Packet_C_PlayerInput i) = i"
    and time: "\<And>n. env_ok (te_cmd te n)" "\<not> te_expired te 0" "\<not> te_expired te 1" "te_running te 0"
      "m_tickDuration (pr_game p) \<le> duration_cast ns_per_ms (te_now te - t)"
      "IsInputAllowed (ce_check (te_cmd te 0)) pl" "m_lastInputSequence pl < input_sequence_number i"
    and steps: "work fb pm (receive pm a (frame buf) p) = Some p1" "tick enc te t p1 = (t', p3)"
  shows "\<exists>q. GetPlayer (m_world (pr_game p3)) (s_playerId (store (sv_net (pr_server p)) a)) = Some q \<and>
    (let velocity = vec3_scale (GM_InputFlagsToDirection (input_flags i)) (gm_moveSpeed (pr_game p));
         goal = vec3_add (m_position pl) (vec3_scale velocity (delta_seconds (duration_cast ns_per_ms (te_now te - t))))
     in m_velocity q = velocity \<and> m_lastInputSequence q = input_sequence_number i \<and>
        m_position q = (if IsValidPosition (pr_game p) goal then goal else m_position pl))"
proof -
  let ?net = "sv_net (pr_server p)" and ?gm = "pr_game p"
  let ?k = "s_playerId (store ?net a)" and ?sid = "s_sessionId (store ?net a)"
  define d where "d = default_PlayerInput\<lparr>pi_playerId := ?k, pi_inputFlags := input_flags i, pi_sequenceNumber := input_sequence_number i\<rparr>"
  define c where "c = \<lparr>commandId = 0, payload = PlayerInputPayload d, senderSessionId = ?sid, timestamp = 0\<rparr>"
  have p1: "pr_game p1 = ?gm" "sv_net (pr_server p1) = push_command ?net c"
    using receive_work_input [OF queues(1,3) packet steps(1)] by (simp_all add: c_def d_def)
  let ?n0 = "?net\<lparr>gameLogicQueue := empty_queue\<rparr>"
  have items: "q_items (gameLogicQueue (push_command ?net c)) = [c]"
    and n0: "(push_command ?net c)\<lparr>gameLogicQueue := (gameLogicQueue (push_command ?net c))\<lparr>q_items := []\<rparr>\<rparr> = ?n0"
    using queues(2) by (simp_all add: push_command_def PushGameCommand_def empty_queue_def)
  have "input_accepted (te_cmd te 0) pl d" using time(6,7) by (simp add: input_accepted_def d_def not_le)
  from HandlePlayerInput_accept [OF _ this, of ?gm] player(1)
  have cmd: "ProcessGameCommand enc (te_cmd te 0) ?gm ?n0 c = (?gm\<lparr>m_world := UpdatePlayer (m_world ?gm) ?k
      (pl\<lparr>m_lastInputTime := ce_stamp (te_cmd te 0), m_lastInputSequence := input_sequence_number i, m_currentInputFlags := input_flags i,
         m_velocity := vec3_scale (GM_InputFlagsToDirection (input_flags i)) (gm_moveSpeed ?gm)\<rparr>)\<rparr>, ?n0)"
    using session game(3) by (simp add: ProcessGameCommand_def c_def GetSession_def d_def)
  obtain g n where g: "ProcessPendingCommands enc te ?gm (push_command ?net c) = Some (g, n)"
    "same_sim (fst (ProcessGameCommand enc (te_cmd te 0) ?gm ?n0 c)) g"
    using ProcessPendingCommands_single [OF game(4) time(2,3,4) items, of enc] unfolding n0 by blast
  have "GetPlayer (m_world (pr_game p3)) ?k =
      map_option (moved g (delta_seconds (duration_cast ns_per_ms (te_now te - t)))) (GetPlayer (m_world g) ?k)"
    using GameLoop_world [OF game(1,2) time(1,5) g(1)] steps(2) by (auto simp: tick_def p1 split: prod.splits)
  moreover have "IsValidPosition g = IsValidPosition ?gm"
    using g(2) by (intro IsValidPosition_cong) (simp_all add: same_sim_def cmd)
  ultimately show ?thesis using g(2) player(2)
    by (simp add: same_sim_def cmd moved_def SetPosition_def Let_def)
qed

text \<open>The server of the concrete game, with its one session, player 7 and an idle pool of workers.\<close>

definition demo_program :: Program where
  "demo_program = \<lparr>pr_jobQueue = empty_queue, pr_jobProcessor = demo_jp, pr_game = demo_gm1,
     pr_server = mk_TcpServer demo_net1 True mk_ChatManager, pr_logins = [], pr_auth = load_server_config SC_NotOpen\<rparr>"

definition demo_pm :: "Services PacketManager" where
  "demo_pm = mk_PacketManager True"

definition demo_worked :: Program where
  "demo_worked = the (work demo_codec demo_pm (receive demo_pm 0 (frame [10, 8]) demo_program))"

definition demo_ticked :: Program where
  "demo_ticked = snd (tick demo_enc (demo_tick 100000000) 40000000 demo_worked)"

lemma demo_work: "work demo_codec demo_pm (receive demo_pm 0 (frame [10, 8]) demo_program) = Some demo_worked"
proof -
  have "fst (ReadLoop (frame [10, 8])) = [[10, 8]]" by code_simp
  then have "work demo_codec demo_pm (receive demo_pm 0 (frame [10, 8]) demo_program) \<noteq> None"
    by (simp add: work_def receive_def demo_program_def HandlePacket_def demo_pm_def mk_PacketManager_def PushJob_def empty_queue_def
        PopJob_open WorkerLoop_job_def ProcessJobPacket_def mk_Job_def demo_codec_def demo_jp_def JP_Start_def mk_JobProcessor_def
        isNonGamePacket_def PacketId_defs Let_def)
  then show ?thesis by (auto simp: demo_worked_def)
qed

theorem input_moves_player_witness:
  "\<exists>q. GetPlayer (m_world (pr_game demo_ticked)) 7 = Some q \<and>
    m_velocity q = vec3_scale (GM_InputFlagsToDirection 8) (gm_moveSpeed demo_gm1) \<and> m_lastInputSequence q = 5"
proof -
  let ?i = "\<lparr>input_tick_number = 0, input_client_time = 0, input_flags = 8, input_mouse_position = None,
        input_sequence_number = 5, input_command_id = 0\<rparr>"
  have sel: "pr_game demo_program = demo_gm1" "sv_net (pr_server demo_program) = demo_net1" "pr_jobQueue demo_program = empty_queue"
    "jp_gameLogicQueue (pr_jobProcessor demo_program)" "pm_jobQueue demo_pm"
    by (simp_all add: demo_program_def mk_TcpServer_def demo_jp_def JP_Start_def mk_JobProcessor_def demo_pm_def mk_PacketManager_def)
  have net: "s_sessionId (store demo_net1 0) = 0" "s_playerId (store demo_net1 0) = 7" "GetSession demo_net1 0 = Some 0"
    "gameLogicQueue demo_net1 = empty_queue" by code_simp+
  have gm: "gm_sessionManager demo_gm1" "0 < m_commandBatchSize demo_gm1" by code_simp+
  obtain pl where pl: "GetPlayer (m_world demo_gm1) 7 = Some pl" "m_isActive pl" using demo_player by auto
  have "map_option (\<lambda>p. IsInputAllowed 100000000 p \<and> m_lastInputSequence p < 5) (GetPlayer (m_world demo_gm1) 7) = Some True"
    "m_tickDuration demo_gm1 \<le> duration_cast ns_per_ms (te_now (demo_tick 100000000) - 40000000)" by code_simp+
  then have time: "IsInputAllowed (ce_check (te_cmd (demo_tick 100000000) 0)) pl" "m_lastInputSequence pl < input_sequence_number ?i"
    "m_tickDuration demo_gm1 \<le> duration_cast ns_per_ms (te_now (demo_tick 100000000) - 40000000)"
    using pl by (simp_all add: demo_tick_def demo_cmd_env_def)
  have fb: "body_ok [10, 8]" "fb_verify demo_codec [10, 8]" "fb_as_input demo_codec (Packet_C_PlayerInput ?i) = ?i"
    "fb_root demo_codec [10, 8] = CreateUnifiedPacket PacketId_C_PlayerInput (Packet_C_PlayerInput ?i)"
    by (simp_all add: body_ok_def demo_codec_def CreateUnifiedPacket_def PacketId_defs)
  have te: "env_ok (te_cmd (demo_tick 100000000) n)" "\<not> te_expired (demo_tick 100000000) n" "te_running (demo_tick 100000000) n" for n
    by (simp_all add: demo_tick_def demo_env)
  have t: "tick demo_enc (demo_tick 100000000) 40000000 demo_worked =
      (fst (tick demo_enc (demo_tick 100000000) 40000000 demo_worked), demo_ticked)" by (simp add: demo_ticked_def)
  note ok = demo_gm1_ok
  show ?thesis
    using input_moves_player [of demo_program 0 pl demo_pm "[10, 8]" demo_codec ?i "demo_tick 100000000" 40000000 demo_worked demo_enc,
        unfolded sel net, OF _ _ gm refl _ _ _ pl _ fb(1,2,4,3) te(1) te(2) te(2) te(3) time(3,1,2) demo_work t] ok sel net
    by (auto simp: Let_def)
qed

text \<open>
  C35: the program either ends with an exit code or comes up complete: with more than zero
  network threads, a running and consistent game, the workers asked for, both packet handlers
  registered and nothing else, an accepting server that knows the chat callbacks, and empty
  queues.  Stopping it clears the running flag, closes the command queue and queues one signal
  per worker.
\<close>

theorem startup_and_shutdown:
  assumes "main_start me = Started p" "good_config True (me_cache me) (me_game_config me)"
    and "register_handlers enc peer up = Returned pm"
  shows "\<exists>opts. me_options me = Some opts \<and> \<not> opt_help opts \<and> 0 < opt_io_threads opts \<and>
    gm_ok (pr_game p) \<and> m_running (pr_game p) \<and> server_ok (pr_server p) \<and> sv_accepting (pr_server p) \<and>
    sv_workers (pr_server p) = nat (opt_io_threads opts) \<and> pr_jobQueue p = empty_queue \<and>
    jp_workers (pr_jobProcessor p) = nat (opt_logic_threads opts) \<and>
    um_find (m_handlers pm) = [PacketId_C_Login \<mapsto> login_handler enc peer True, PacketId_C_Chat \<mapsto> chat_handler peer up] \<and>
    \<not> m_running (pr_game (main_stop p)) \<and> m_shuttingDown (gameLogicQueue (sv_net (pr_server (main_stop p)))) \<and>
    q_items (pr_jobQueue (main_stop p)) = replicate (nat (opt_logic_threads opts)) shutdown_job"
  using assms(1)
proof (rule main_start_parts)
  fix opts gm cm sv
  assume o: "me_options me = Some opts" "\<not> opt_help opts"
    and gm: "mk_GameManager True (me_cache me) (me_game_config me) = Some gm" and cm: "m_connectedSessions cm = []"
    "Tcp_Start (me_listen_ok me) (opt_io_threads opts)
      ((SetOnSessionDisconnected (SetOnSessionConnected (mk_TcpServer empty_Net True mk_ChatManager)))\<lparr>sv_chat := cm\<rparr>) = (True, sv)"
    and p: "p = \<lparr>pr_jobQueue = empty_queue, pr_jobProcessor = JP_Start (mk_JobProcessor True True) (opt_logic_threads opts),
      pr_game = fst (GM_Start gm), pr_server = sv, pr_logins = [], pr_auth = load_server_config (me_server_config me)\<rparr>"
  note sv = main_start_server [OF cm] and pm = registered(1) [OF assms(3)]
  have ok: "gm_ok (pr_game p)" "m_running (fst (GM_Start gm))"
    using main_start_ok [OF assms(1,2)] by (simp_all add: program_ok_def GM_Start_def)
  have jp: "jp_running (JP_Start (mk_JobProcessor True True) n)" "jp_workers (JP_Start (mk_JobProcessor True True) n) = nat n" for n
    by (simp_all add: JP_Start_def mk_JobProcessor_def)
  have stop: "GM_Stop (fst (GM_Start gm)) empty_Net = (fst (GM_Start gm)\<lparr>m_running := False\<rparr>, empty_Net\<lparr>gameLogicQueue := GLQ_Shutdown empty_queue\<rparr>)"
    using ok(2) by (simp add: GM_Stop_def empty_Net_def)
  have "q_items (pr_jobQueue (main_stop p)) = replicate (nat (opt_logic_threads opts)) shutdown_job"
    using push_signals [of empty_queue] by (simp add: main_stop_def p sv(5) stop JP_Stop_signal_def jp empty_queue_def del: fold_replicate)
  then show ?thesis using o sv ok pm jp by (simp add: p main_stop_def stop GLQ_Shutdown_def)
qed

definition demo_main :: main_env where
  "demo_main = \<lparr>me_options = Some \<lparr>opt_help = False, opt_port = 8080, opt_io_threads = 2, opt_logic_threads = 4\<rparr>,
     me_server_config = SC_NotOpen, me_game_config = shipped_config, me_cache = [], me_bind_ok = True, me_listen_ok = True,
     me_redis_ok = (\<lambda>_. False), me_subscriber_ok = (\<lambda>_. False), me_redis_host = None, me_redis_port = None\<rparr>"

lemma demo_main_starts: "\<exists>p. main_start demo_main = Started p"
proof -
  have "snd (LoadGameConfig shipped_config (initial_GameManager True [])) \<noteq> DivisionByZero" by code_simp
  then show ?thesis
    by (simp add: main_start_def demo_main_def demo_boot CM_Initialize_def Redis_Connect_def Tcp_Start_def Let_def)
qed

theorem startup_and_shutdown_witness:
  "\<exists>p. main_start demo_main = Started p \<and> gm_ok (pr_game p) \<and> sv_workers (pr_server p) = 2 \<and>
     q_items (pr_jobQueue (main_stop p)) = replicate 4 shutdown_job"
proof -
  obtain p where p: "main_start demo_main = Started p" using demo_main_starts by blast
  have sel: "me_cache demo_main = []" "me_game_config demo_main = shipped_config"
    "me_options demo_main = Some \<lparr>opt_help = False, opt_port = 8080, opt_io_threads = 2, opt_logic_threads = 4\<rparr>"
    by (simp_all add: demo_main_def)
  obtain pm where pm: "register_handlers demo_enc (\<lambda>_. None) True = Returned pm"
    by (simp add: register_handlers_def RegisterHandler_def)
  from startup_and_shutdown [OF p _ pm] demo_good sel p show ?thesis by auto
qed





text \<open>
  The server configuration is taken over in parts as well: with a bad port the host of the file
  is used with the default port, although the message says that defaults are used.
\<close>

theorem server_config_partial:
  "load_server_config (SC_Parsed (JObject [(''auth_server'', JObject [(''host'', JString ''auth''), (''port'', JString ''80'')])])) = (''auth'', ''5278'')"
  by (simp add: load_server_config_def json_index_def get_string_def get_int_def)

end
