(* ===== verification/Auth_Server.thy ===== *)
theory Auth_Server
  imports Auth
begin

text \<open>
  \<open>auth/\<close>: the authentication server in C#, which issues the session tickets and verifies them
  for the game server.  \<open>Controllers/AuthController.cs\<close> with the repositories of
  \<open>Repositories/\<close>, the rows of \<open>Models/\<close> and the requests and responses of \<open>DTOs/\<close>.

  An action is a sequence of awaited calls to MySQL and Redis.  Between two of them other
  requests run, and each of them can fail, before or after it has taken effect; so an action is
  modelled as a process (\<open>proc\<close>) whose steps are those calls.  The parameters are the engine:
  how MySQL compares strings (its collation), which rows its schema accepts, and BCrypt.  A
  string is a list of UTF-16 code units, of which the model has the first 256.
\<close>

section \<open>Rows and the store\<close>

record User =
  u_Id :: int
  u_Username :: string
  u_PasswordHash :: string
  u_CreatedAt :: time_point

record PlayerRow =
  p_PlayerId :: int
  p_UserId :: int
  p_Name :: string
  p_PosX :: fp
  p_PosY :: fp
  p_Hp :: int
  p_MaxHp :: int
  p_CreatedAt :: time_point
  p_UpdatedAt :: time_point

text \<open>
  The two tables with their \<open>AUTO_INCREMENT\<close> counters, the keys of Redis with their values and
  the times at which they expire, and the clock.
\<close>

record Store =
  db_users :: "User list"
  db_nextUserId :: int
  db_players :: "PlayerRow list"
  db_nextPlayerId :: int
  redis :: "(string, string \<times> time_point) umap"
  utcNow :: time_point

record Engine =
  sql_equal :: "string \<Rightarrow> string \<Rightarrow> bool" \<comment> \<open>\<open>=\<close> under the collation of the column\<close>
  sql_accepts_user :: "User list \<Rightarrow> User \<Rightarrow> bool" \<comment> \<open>the constraints of the schema\<close>
  sql_accepts_player :: "User list \<Rightarrow> PlayerRow list \<Rightarrow> PlayerRow \<Rightarrow> bool"
  HashPassword :: "string \<Rightarrow> string \<Rightarrow> string" \<comment> \<open>salt and password\<close>
  BCrypt_Verify :: "string \<Rightarrow> string \<Rightarrow> bool" \<comment> \<open>password and hash\<close>

section \<open>Calls\<close>

text \<open>A call returns a value, or \<open>None\<close> when it throws.\<close>

type_synonym 'a call = "Store \<Rightarrow> 'a option \<times> Store"

text \<open>\<open>QuerySingleOrDefaultAsync\<close> throws when the query has more than one row.\<close>

definition single_or_default :: "'r list \<Rightarrow> 'r option option" where
  "single_or_default rows = (case rows of [] \<Rightarrow> Some None | [r] \<Rightarrow> Some (Some r) | _ \<Rightarrow> None)"

definition GetUserByUsernameAsync :: "Engine \<Rightarrow> string \<Rightarrow> User option call" where
  "GetUserByUsernameAsync en username st = (single_or_default (filter (\<lambda>u. sql_equal en (u_Username u) username) (db_users st)), st)"

definition GetUserByIdAsync :: "int \<Rightarrow> User option call" where
  "GetUserByIdAsync userId st = (single_or_default (filter (\<lambda>u. u_Id u = userId) (db_users st)), st)"

definition CreateUserAsync :: "Engine \<Rightarrow> string \<Rightarrow> string \<Rightarrow> User call" where
  "CreateUserAsync en username passwordHash st =
     (let user = \<lparr>u_Id = db_nextUserId st, u_Username = username, u_PasswordHash = passwordHash, u_CreatedAt = utcNow st\<rparr> in
      if sql_accepts_user en (db_users st) user
      then (Some user, st\<lparr>db_users := db_users st @ [user], db_nextUserId := db_nextUserId st + 1\<rparr>)
      else (None, st))"

definition DeleteUserAsync :: "int \<Rightarrow> bool call" where
  "DeleteUserAsync userId st = (Some (\<exists>u \<in> set (db_users st). u_Id u = userId),
     st\<lparr>db_users := filter (\<lambda>u. u_Id u \<noteq> userId) (db_users st)\<rparr>)"

text \<open>\<open>ORDER BY CreatedAt ASC\<close>; \<open>LIMIT 1\<close>.\<close>

definition GetPlayerByUserIdAsync :: "int \<Rightarrow> PlayerRow option call" where
  "GetPlayerByUserIdAsync userId st =
     (single_or_default (take 1 (sort_key p_CreatedAt (filter (\<lambda>p. p_UserId p = userId) (db_players st)))), st)"

definition GetPlayersByUserIdAsync :: "int \<Rightarrow> PlayerRow list call" where
  "GetPlayersByUserIdAsync userId st = (Some (sort_key p_CreatedAt (filter (\<lambda>p. p_UserId p = userId) (db_players st))), st)"

definition GetPlayerByIdAsync :: "int \<Rightarrow> PlayerRow option call" where
  "GetPlayerByIdAsync playerId st = (single_or_default (filter (\<lambda>p. p_PlayerId p = playerId) (db_players st)), st)"

definition IsPlayerNameExistsAsync :: "Engine \<Rightarrow> string \<Rightarrow> bool call" where
  "IsPlayerNameExistsAsync en playerName st = (Some (0 < length (filter (\<lambda>p. sql_equal en (p_Name p) playerName) (db_players st))), st)"

definition CreatePlayerAsync :: "Engine \<Rightarrow> int \<Rightarrow> string \<Rightarrow> PlayerRow call" where
  "CreatePlayerAsync en userId playerName st =
     (let player = \<lparr>p_PlayerId = db_nextPlayerId st, p_UserId = userId, p_Name = playerName, p_PosX = Fin 0, p_PosY = Fin 0,
        p_Hp = 100, p_MaxHp = 100, p_CreatedAt = utcNow st, p_UpdatedAt = utcNow st\<rparr> in
      if sql_accepts_player en (db_users st) (db_players st) player
      then (Some player, st\<lparr>db_players := db_players st @ [player], db_nextPlayerId := db_nextPlayerId st + 1\<rparr>)
      else (None, st))"

definition DeletePlayersByUserIdAsync :: "int \<Rightarrow> nat call" where
  "DeletePlayersByUserIdAsync userId st = (Some (length (filter (\<lambda>p. p_UserId p = userId) (db_players st))),
     st\<lparr>db_players := filter (\<lambda>p. p_UserId p \<noteq> userId) (db_players st)\<rparr>)"

text \<open>Redis: a key with a time to live; an expired key does not exist.\<close>

definition live :: "Store \<Rightarrow> string \<Rightarrow> string option" where
  "live st key = (case um_find (redis st) key of Some (v, expires) \<Rightarrow> if utcNow st < expires then Some v else None | None \<Rightarrow> None)"

definition ns_per_hour :: int where "ns_per_hour = 60 * ns_per_min"

definition StringSetAsync :: "string \<Rightarrow> string \<Rightarrow> int \<Rightarrow> unit call" where
  "StringSetAsync key v ttl st = (Some (), st\<lparr>redis := um_set (redis st) key (v, utcNow st + ttl)\<rparr>)"

definition StringGetAsync :: "string \<Rightarrow> string option call" where
  "StringGetAsync key st = (Some (live st key), st)"

definition KeyDeleteAsync :: "string \<Rightarrow> bool call" where
  "KeyDeleteAsync key st = (Some (live st key \<noteq> None), st\<lparr>redis := um_erase (redis st) key\<rparr>)"

text \<open>\<open>session:{sessionTicket}\<close>, and the user id that is stored there, read with \<open>int.TryParse\<close>.\<close>

definition ticket_key :: "string \<Rightarrow> string" where
  "ticket_key sessionTicket = ''session:'' @ sessionTicket"

definition int_TryParse :: "string \<Rightarrow> int option" where
  "int_TryParse s = (case stoll_sign (dropWhile is_space s) of (neg, body) \<Rightarrow>
     let ds = takeWhile is_digit body;
         v = (if neg then - int (digits_value ds) else int (digits_value ds))
     in if ds = [] \<or> \<not> list_all is_space (dropWhile is_digit body) \<or> v < - (2 ^ 31) \<or> 2 ^ 31 \<le> v then None else Some v)"

definition ticket_user :: "string option \<Rightarrow> int option" where
  "ticket_user userIdString = (case userIdString of Some s \<Rightarrow> int_TryParse s | None \<Rightarrow> None)"

section \<open>Requests and responses\<close>

record LoginRequestDto =
  lq_Username :: string
  lq_Password :: string

record VerifyRequestDto =
  vq_SessionTicket :: string
  vq_PlayerId :: int \<comment> \<open>\<open>long\<close>\<close>

record PlayerInfoDto =
  pi_PlayerId :: int
  pi_Name :: string
  pi_PosX :: fp
  pi_PosY :: fp
  pi_Hp :: int
  pi_MaxHp :: int

datatype response =
    Problem nat \<comment> \<open>written by the framework\<close>
  | MessageResponse nat string
  | LoginResponse nat bool "string option" string \<comment> \<open>status, \<open>Success\<close>, \<open>SessionTicket\<close>, \<open>Message\<close>\<close>
  | VerifyResponse nat bool "PlayerInfoDto option" string
  | CharacterListResponse nat bool "PlayerInfoDto list" string
  | CharacterCreateResponse nat bool "PlayerInfoDto option" string
  | DeleteUserResponse nat bool string nat

definition to_PlayerInfoDto :: "PlayerRow \<Rightarrow> PlayerInfoDto" where
  "to_PlayerInfoDto p = \<lparr>pi_PlayerId = p_PlayerId p, pi_Name = p_Name p, pi_PosX = p_PosX p, pi_PosY = p_PosY p,
     pi_Hp = p_Hp p, pi_MaxHp = p_MaxHp p\<rparr>"

section \<open>Processes\<close>

text \<open>
  A process has replied, or waits for a call: how it goes on from the store the call finds, what
  the call does to the store, and the response when the call throws.
\<close>

datatype proc = Reply response | Await "Store \<Rightarrow> proc" "Store \<Rightarrow> Store" response

definition await_or :: "response \<Rightarrow> 'a call \<Rightarrow> ('a \<Rightarrow> proc) \<Rightarrow> proc" where
  "await_or failed call k = Await (\<lambda>st. case fst (call st) of Some x \<Rightarrow> k x | None \<Rightarrow> Reply failed) (\<lambda>st. snd (call st)) failed"

text \<open>An exception that no action catches becomes status 500.\<close>

definition await :: "'a call \<Rightarrow> ('a \<Rightarrow> proc) \<Rightarrow> proc" where
  "await = await_or (Problem 500)"

section \<open>The actions of the controller\<close>

text \<open>The draws of a request: \<open>Guid.NewGuid\<close> and the salt of BCrypt.\<close>

record draws =
  dr_guid :: string
  dr_salt :: string

definition Register :: "Engine \<Rightarrow> draws \<Rightarrow> LoginRequestDto \<Rightarrow> proc" where
  "Register en d request =
     await (GetUserByUsernameAsync en (lq_Username request)) (\<lambda>existingUser.
     if existingUser \<noteq> None then Reply (MessageResponse 409 ''Username already exists.'')
     else
       await (CreateUserAsync en (lq_Username request) (HashPassword en (dr_salt d) (lq_Password request))) (\<lambda>newUser.
       await (StringSetAsync (ticket_key (dr_guid d)) (to_string_int (u_Id newUser)) ns_per_hour) (\<lambda>_.
       Reply (LoginResponse 200 True (Some (dr_guid d)) ''Registration successful.''))))"

definition AC_Login :: "Engine \<Rightarrow> draws \<Rightarrow> LoginRequestDto \<Rightarrow> proc" where
  "AC_Login en d request =
     await (GetUserByUsernameAsync en (lq_Username request)) (\<lambda>user. case user of
         None \<Rightarrow> Reply (LoginResponse 401 False None ''Invalid username or password.'')
       | Some user \<Rightarrow>
           if \<not> BCrypt_Verify en (lq_Password request) (u_PasswordHash user)
           then Reply (LoginResponse 401 False None ''Invalid username or password.'')
           else
             await (StringSetAsync (ticket_key (dr_guid d)) (to_string_int (u_Id user)) ns_per_hour) (\<lambda>_.
             Reply (LoginResponse 200 True (Some (dr_guid d)) ''Login successful.'')))"

definition AC_Verify :: "VerifyRequestDto \<Rightarrow> proc" where
  "AC_Verify request =
     (if vq_SessionTicket request = [] then Reply (VerifyResponse 400 False None ''Session ticket is required.'')
      else if vq_PlayerId request \<le> 0 then Reply (VerifyResponse 400 False None ''PlayerId is required.'')
      else
        await (StringGetAsync (ticket_key (vq_SessionTicket request))) (\<lambda>userIdString. case ticket_user userIdString of
            None \<Rightarrow> Reply (VerifyResponse 401 False None ''Invalid or expired session ticket.'')
          | Some userId \<Rightarrow>
              await (GetPlayerByIdAsync (vq_PlayerId request)) (\<lambda>player. case player of
                  None \<Rightarrow> Reply (VerifyResponse 404 False None ''Player not found.'')
                | Some player \<Rightarrow>
                    if p_UserId player \<noteq> userId then Reply (VerifyResponse 401 False None ''Player does not belong to this user.'')
                    else Reply (VerifyResponse 200 True (Some (to_PlayerInfoDto player)) ''Session and player verification successful.''))))"

definition Logout :: "string option \<Rightarrow> proc" where
  "Logout sessionTicket =
     await (KeyDeleteAsync (ticket_key (case sessionTicket of Some t \<Rightarrow> t | None \<Rightarrow> []))) (\<lambda>deleted.
     if deleted then Reply (MessageResponse 200 ''Logged out successfully.'')
     else Reply (MessageResponse 400 ''Failed to logout or session not found.''))"

definition GetCharacters :: "string \<Rightarrow> proc" where
  "GetCharacters sessionTicket =
     (if sessionTicket = [] then Reply (CharacterListResponse 400 False [] ''Session ticket is required.'')
      else
        await (StringGetAsync (ticket_key sessionTicket)) (\<lambda>userIdString. case ticket_user userIdString of
            None \<Rightarrow> Reply (CharacterListResponse 401 False [] ''Invalid or expired session ticket.'')
          | Some userId \<Rightarrow>
              await (GetPlayersByUserIdAsync userId) (\<lambda>players.
              Reply (CharacterListResponse 200 True (map to_PlayerInfoDto players) ''Characters retrieved successfully.''))))"

definition CreateCharacter :: "Engine \<Rightarrow> string \<Rightarrow> string \<Rightarrow> proc" where
  "CreateCharacter en sessionTicket characterName =
     (if sessionTicket = [] then Reply (CharacterCreateResponse 400 False None ''Session ticket is required.'')
      else if characterName = [] \<or> length characterName < 2 \<or> 16 < length characterName
      then Reply (CharacterCreateResponse 400 False None ''Character name must be between 2 and 16 characters.'')
      else
        await (StringGetAsync (ticket_key sessionTicket)) (\<lambda>userIdString. case ticket_user userIdString of
            None \<Rightarrow> Reply (CharacterCreateResponse 401 False None ''Invalid or expired session ticket.'')
          | Some userId \<Rightarrow>
              await (IsPlayerNameExistsAsync en characterName) (\<lambda>taken.
              if taken then Reply (CharacterCreateResponse 409 False None ''Character name already exists.'')
              else
                await (GetPlayersByUserIdAsync userId) (\<lambda>existingPlayers.
                if 3 \<le> length existingPlayers
                then Reply (CharacterCreateResponse 400 False None ''Maximum character limit reached (3 characters).'')
                else
                  await (CreatePlayerAsync en userId characterName) (\<lambda>newPlayer.
                  Reply (CharacterCreateResponse 200 True (Some (to_PlayerInfoDto newPlayer)) ''Character created successfully.''))))))"

text \<open>The calls after the password check stand in a \<open>try\<close> block.\<close>

definition DeleteUser :: "Engine \<Rightarrow> string \<Rightarrow> string \<Rightarrow> proc" where
  "DeleteUser en sessionTicket password =
     (if sessionTicket = [] \<or> password = [] then Reply (DeleteUserResponse 400 False ''Session ticket and password are required.'' 0)
      else
        await (StringGetAsync (ticket_key sessionTicket)) (\<lambda>userIdString. case ticket_user userIdString of
            None \<Rightarrow> Reply (DeleteUserResponse 401 False ''Invalid or expired session ticket.'' 0)
          | Some userId \<Rightarrow>
              await (GetUserByIdAsync userId) (\<lambda>user. case user of
                  None \<Rightarrow> Reply (DeleteUserResponse 401 False ''Invalid password.'' 0)
                | Some user \<Rightarrow>
                    if \<not> BCrypt_Verify en password (u_PasswordHash user) then Reply (DeleteUserResponse 401 False ''Invalid password.'' 0)
                    else
                      let caught = DeleteUserResponse 500 False ''An error occurred while deleting account. Please try again later.'' 0 in
                      await_or caught (DeletePlayersByUserIdAsync userId) (\<lambda>deletedCharactersCount.
                      await_or caught (DeleteUserAsync userId) (\<lambda>userDeleted.
                      if \<not> userDeleted then Reply (DeleteUserResponse 400 False ''Failed to delete user account.'' 0)
                      else
                        await_or caught (KeyDeleteAsync (ticket_key sessionTicket)) (\<lambda>_.
                        Reply (DeleteUserResponse 200 True (''Account deleted successfully. '' @ to_string deletedCharactersCount
                          @ '' characters were also removed.'') deletedCharactersCount)))))))"

section \<open>Requests as they arrive\<close>

text \<open>
  The framework validates a request by the attributes of its type and answers 400 itself.
  \<open>[Required]\<close> refuses a string of white space; a missing header is a missing value.
\<close>

definition is_white :: "char \<Rightarrow> bool" where
  "is_white c \<longleftrightarrow> is_space c \<or> (of_char c :: nat) \<in> {0x85, 0xA0}"

definition required :: "string \<Rightarrow> bool" where
  "required s \<longleftrightarrow> \<not> list_all is_white s"

definition string_length :: "nat \<Rightarrow> nat \<Rightarrow> string \<Rightarrow> bool" where
  "string_length least most s \<longleftrightarrow> least \<le> length s \<and> length s \<le> most"

definition valid_LoginRequestDto :: "LoginRequestDto \<Rightarrow> bool" where
  "valid_LoginRequestDto r \<longleftrightarrow> required (lq_Username r) \<and> string_length 3 50 (lq_Username r) \<and>
     required (lq_Password r) \<and> string_length 6 100 (lq_Password r)"

definition valid_VerifyRequestDto :: "VerifyRequestDto \<Rightarrow> bool" where
  "valid_VerifyRequestDto r \<longleftrightarrow> required (vq_SessionTicket r)"

definition valid_CharacterRequestDto :: "string \<Rightarrow> bool" where
  "valid_CharacterRequestDto characterName \<longleftrightarrow> required characterName \<and> string_length 2 20 characterName"

datatype http_call =
    Post_register LoginRequestDto
  | Post_login LoginRequestDto
  | Post_verify VerifyRequestDto
  | Post_logout "string option"
  | Get_characters "string option"
  | Post_characters "string option" string
  | Delete_user string string

fun serve :: "Engine \<Rightarrow> draws \<Rightarrow> http_call \<Rightarrow> proc" where
  "serve en d (Post_register r) = (if valid_LoginRequestDto r then Register en d r else Reply (Problem 400))"
| "serve en d (Post_login r) = (if valid_LoginRequestDto r then AC_Login en d r else Reply (Problem 400))"
| "serve en d (Post_verify r) = (if valid_VerifyRequestDto r then AC_Verify r else Reply (Problem 400))"
| "serve en d (Post_logout t) = Logout t"
| "serve en d (Get_characters t) = (case t of Some t \<Rightarrow> GetCharacters t | None \<Rightarrow> Reply (Problem 400))"
| "serve en d (Post_characters t n) = (case t of
     Some t \<Rightarrow> if valid_CharacterRequestDto n then CreateCharacter en t n else Reply (Problem 400)
   | None \<Rightarrow> Reply (Problem 400))"
| "serve en d (Delete_user t p) = DeleteUser en t p"

text \<open>A request that nobody interrupts and whose calls all return.\<close>

primrec run_alone :: "proc \<Rightarrow> Store \<Rightarrow> response \<times> Store" where
  "run_alone (Reply r) st = (r, st)"
| "run_alone (Await nxt eff failed) st = run_alone (nxt st) (eff st)"

text \<open>
  Requests side by side: the facts so far (the requests that came and the stores that were
  reached), the store, and each request with its process.  A call that throws may or may not
  have taken effect.
\<close>

datatype fact = Came draws http_call | Seen Store

inductive auth_run :: "Engine \<Rightarrow> Store \<Rightarrow> fact set \<Rightarrow> Store \<Rightarrow> (http_call \<times> proc) list \<Rightarrow> bool" for en st0 where
  boots: "auth_run en st0 {Seen st0} st0 []"
| arrives: "auth_run en st0 H st ps \<Longrightarrow> auth_run en st0 (insert (Came d q) H) st (ps @ [(q, serve en d q)])"
| goes_on: "auth_run en st0 H st ps \<Longrightarrow> i < length ps \<Longrightarrow> ps ! i = (q, Await nxt eff failed) \<Longrightarrow>
    auth_run en st0 (insert (Seen (eff st)) H) (eff st) (ps[i := (q, nxt st)])"
| fails: "auth_run en st0 H st ps \<Longrightarrow> i < length ps \<Longrightarrow> ps ! i = (q, Await nxt eff failed) \<Longrightarrow>
    st' \<in> {st, eff st} \<Longrightarrow> auth_run en st0 (insert (Seen st') H) st' (ps[i := (q, Reply failed)])"
| passes: "auth_run en st0 H st ps \<Longrightarrow> 0 \<le> dt \<Longrightarrow> st' = st\<lparr>utcNow := utcNow st + dt\<rparr> \<Longrightarrow>
    auth_run en st0 (insert (Seen st') H) st' ps"

end
