(* ===== verification/Tickets.thy ===== *)
theory Tickets
  imports Auth_Server
begin

text \<open>
  Invariants of the authentication server under every interleaving of requests and every failure
  of a call.  The locale \<open>auth_invariant\<close> reduces such an invariant to the calls of the actions;
  it is interpreted for the tables and for the tickets.
\<close>

section \<open>Processes that keep an invariant\<close>

text \<open>
  \<open>ok H st\<close>: the store \<open>st\<close>, reached with the facts \<open>H\<close>, is as it should be; \<open>good H q r\<close>: \<open>r\<close> may be
  the response to \<open>q\<close>.  A process is safe when each of its calls keeps the invariant from any
  store that other requests may have left, and its response is good.
\<close>

inductive safe :: "(fact set \<Rightarrow> Store \<Rightarrow> bool) \<Rightarrow> (fact set \<Rightarrow> http_call \<Rightarrow> response \<Rightarrow> bool) \<Rightarrow> http_call \<Rightarrow> fact set \<Rightarrow> proc \<Rightarrow> bool"
  for ok good q where
  safe_Reply: "(\<And>H'. H \<subseteq> H' \<Longrightarrow> good H' q r) \<Longrightarrow> safe ok good q H (Reply r)"
| safe_Await: "(\<And>H'. H \<subseteq> H' \<Longrightarrow> good H' q failed) \<Longrightarrow>
    (\<And>st H'. H \<subseteq> H' \<Longrightarrow> ok H' st \<Longrightarrow> Seen st \<in> H' \<Longrightarrow> ok (insert (Seen (eff st)) H') (eff st)) \<Longrightarrow>
    (\<And>st H'. H \<subseteq> H' \<Longrightarrow> ok H' st \<Longrightarrow> Seen st \<in> H' \<Longrightarrow> safe ok good q (insert (Seen (eff st)) H') (nxt st)) \<Longrightarrow>
    safe ok good q H (Await nxt eff failed)"

inductive_simps safe_Reply_iff: "safe ok good q H (Reply r)"
inductive_cases safe_AwaitE: "safe ok good q H (Await nxt eff failed)"

lemma safe_mono: "safe ok good q H p \<Longrightarrow> H \<subseteq> H' \<Longrightarrow> safe ok good q H' p"
  by (induction rule: safe.induct) (auto intro!: safe.intros)

lemma safe_await_or:
  assumes "\<And>H'. H \<subseteq> H' \<Longrightarrow> good H' q failed"
    and "\<And>st H'. H \<subseteq> H' \<Longrightarrow> ok H' st \<Longrightarrow> Seen st \<in> H' \<Longrightarrow> ok (insert (Seen (snd (call st))) H') (snd (call st))"
    and "\<And>st H' x. H \<subseteq> H' \<Longrightarrow> ok H' st \<Longrightarrow> Seen st \<in> H' \<Longrightarrow> fst (call st) = Some x \<Longrightarrow>
      safe ok good q (insert (Seen (snd (call st))) H') (k x)"
  shows "safe ok good q H (await_or failed call k)"
  unfolding await_or_def by (intro safe_Await) (use assms in \<open>auto intro!: safe_Reply split: option.split\<close>)

text \<open>A call that only reads.\<close>

lemma safe_read:
  assumes "\<And>H'. H \<subseteq> H' \<Longrightarrow> good H' q failed" "\<And>st. snd (call st) = st"
    and "\<And>st H' x. H \<subseteq> H' \<Longrightarrow> ok H' st \<Longrightarrow> Seen st \<in> H' \<Longrightarrow> fst (call st) = Some x \<Longrightarrow> safe ok good q H' (k x)"
  shows "safe ok good q H (await_or failed call k)"
  by (rule safe_await_or) (use assms in \<open>simp_all add: insert_absorb\<close>)

lemmas reads_only = GetUserByUsernameAsync_def GetUserByIdAsync_def GetPlayersByUserIdAsync_def GetPlayerByIdAsync_def
  IsPlayerNameExistsAsync_def StringGetAsync_def

lemma pool_mono: "\<forall>(q, p) \<in> set ps. safe ok good q H p \<Longrightarrow> H \<subseteq> H' \<Longrightarrow> \<forall>(q, p) \<in> set ps. safe ok good q H' p"
  by (auto intro: safe_mono)

lemma pool_update:
  assumes "\<forall>(q, p) \<in> set ps. safe ok good q H p" "safe ok good q (insert x H) p"
  shows "\<forall>(q, p) \<in> set (ps[i := (q, p)]). safe ok good q (insert x H) p"
  using pool_mono [OF assms(1), of "insert x H"] assms(2) set_update_subset_insert [of ps i "(q, p)"] by auto

locale auth_invariant =
  fixes en :: Engine and ok :: "fact set \<Rightarrow> Store \<Rightarrow> bool" and good :: "fact set \<Rightarrow> http_call \<Rightarrow> response \<Rightarrow> bool"
  assumes arrival: "ok H st \<Longrightarrow> ok (insert (Came d q) H) st"
    and passing: "ok H st \<Longrightarrow> Seen st \<in> H \<Longrightarrow> 0 \<le> dt \<Longrightarrow> st' = st\<lparr>utcNow := utcNow st + dt\<rparr> \<Longrightarrow> ok (insert (Seen st') H) st'"
    and serving: "Came d q \<in> H \<Longrightarrow> safe ok good q H (serve en d q)"
begin

lemma run_safe:
  "auth_run en st0 H st ps \<Longrightarrow> ok {Seen st0} st0 \<Longrightarrow> ok H st \<and> Seen st \<in> H \<and> (\<forall>(q, p) \<in> set ps. safe ok good q H p)"
proof (induction rule: auth_run.induct)
  case (arrives H st ps d q)
  have "safe ok good q (insert (Came d q) H) (serve en d q)" by (rule serving) simp
  then show ?case using arrives arrival pool_mono [of ps ok good H "insert (Came d q) H"] by auto
next
  case (goes_on H st ps i q nxt eff failed)
  then have s: "ok H st" "Seen st \<in> H" "safe ok good q H (Await nxt eff failed)" by (force simp: set_conv_nth)+
  have "ok (insert (Seen (eff st)) H) (eff st)" "safe ok good q (insert (Seen (eff st)) H) (nxt st)"
    using s(1,2) by (auto intro: safe_AwaitE [OF s(3)])
  then show ?case using goes_on pool_update [of ps ok good H q "Seen (eff st)" "nxt st" i] by simp
next
  case (fails H st ps i q nxt eff failed st')
  then have s: "ok H st" "Seen st \<in> H" "safe ok good q H (Await nxt eff failed)" by (force simp: set_conv_nth)+
  have "ok (insert (Seen st') H) st'" using s(1,2) fails(4) by (auto intro: safe_AwaitE [OF s(3)] simp: insert_absorb)
  moreover have "safe ok good q (insert (Seen st') H) (Reply failed)" by (rule safe_AwaitE [OF s(3)]) (auto intro!: safe_Reply)
  ultimately show ?case using fails pool_update [of ps ok good H q "Seen st'" "Reply failed" i] by simp
next
  case (passes H st ps dt st')
  then have "ok (insert (Seen st') H) st'" using passing by blast
  then show ?case using passes pool_mono [of ps ok good H "insert (Seen st') H"] by auto
qed auto

lemma run_ok: "auth_run en st0 H st ps \<Longrightarrow> ok {Seen st0} st0 \<Longrightarrow> ok H st"
  using run_safe by blast

lemma run_good: "auth_run en st0 H st ps \<Longrightarrow> ok {Seen st0} st0 \<Longrightarrow> (q, Reply r) \<in> set ps \<Longrightarrow> good H q r"
  using run_safe [of st0 H st ps] by (auto simp: safe_Reply_iff)

end

section \<open>The tables\<close>

text \<open>
  Ids are never used twice, not even after a deletion: over the whole history an id stands for
  one row.
\<close>

definition known_users :: "fact set \<Rightarrow> User set" where
  "known_users H = {u. \<exists>st. Seen st \<in> H \<and> u \<in> set (db_users st)}"

definition known_players :: "fact set \<Rightarrow> PlayerRow set" where
  "known_players H = {p. \<exists>st. Seen st \<in> H \<and> p \<in> set (db_players st)}"

definition rows_ok :: "fact set \<Rightarrow> Store \<Rightarrow> bool" where
  "rows_ok H st \<longleftrightarrow> distinct (map u_Id (db_users st)) \<and> distinct (map p_PlayerId (db_players st)) \<and>
     inj_on u_Id (known_users H) \<and> inj_on p_PlayerId (known_players H) \<and>
     (\<forall>u \<in> known_users H. u_Id u < db_nextUserId st) \<and> (\<forall>p \<in> known_players H. p_PlayerId p < db_nextPlayerId st)"

lemma known_insert [simp]:
  "known_users (insert (Came d q) H) = known_users H" "known_players (insert (Came d q) H) = known_players H"
  "known_users (insert (Seen st) H) = set (db_users st) \<union> known_users H"
  "known_players (insert (Seen st) H) = set (db_players st) \<union> known_players H"
  by (auto simp: known_users_def known_players_def)

lemma known_seen: "Seen st \<in> H \<Longrightarrow> set (db_users st) \<subseteq> known_users H \<and> set (db_players st) \<subseteq> known_players H"
  by (auto simp: known_users_def known_players_def)

lemma rows_ok_fewer:
  assumes "rows_ok H st" "Seen st \<in> H" "db_users st' = filter P (db_users st)" "db_players st' = filter Q (db_players st)"
    and "db_nextUserId st' = db_nextUserId st" "db_nextPlayerId st' = db_nextPlayerId st"
  shows "rows_ok (insert (Seen st') H) st'"
proof -
  have "set (db_users st') \<union> known_users H = known_users H" "set (db_players st') \<union> known_players H = known_players H"
    using known_seen [OF assms(2)] assms(3,4) by auto
  then show ?thesis using assms by (simp add: rows_ok_def distinct_map_filter)
qed

lemma rows_ok_same:
  "rows_ok H st \<Longrightarrow> Seen st \<in> H \<Longrightarrow> db_users st' = db_users st \<Longrightarrow> db_players st' = db_players st \<Longrightarrow>
   db_nextUserId st' = db_nextUserId st \<Longrightarrow> db_nextPlayerId st' = db_nextPlayerId st \<Longrightarrow> rows_ok (insert (Seen st') H) st'"
  by (rule rows_ok_fewer [where P = "\<lambda>_. True" and Q = "\<lambda>_. True"]) simp_all

lemma inj_on_fresh: "inj_on f A \<Longrightarrow> \<forall>x \<in> A. f x < f y \<Longrightarrow> inj_on f (insert y A)" for f :: "'r \<Rightarrow> int"
  by (force simp: inj_on_def)

lemma rows_ok_user:
  assumes "rows_ok H st" "Seen st \<in> H"
  shows "rows_ok (insert (Seen (snd (CreateUserAsync en n h st))) H) (snd (CreateUserAsync en n h st))"
proof -
  have sub: "set (db_users st) \<union> known_users H = known_users H" "set (db_players st) \<union> known_players H = known_players H"
    using known_seen [OF assms(2)] by auto
  have "\<forall>u \<in> set (db_users st). u_Id u < db_nextUserId st" using sub assms(1) by (auto simp: rows_ok_def)
  then show ?thesis using assms sub
    by (auto simp: CreateUserAsync_def Let_def insert_absorb rows_ok_def inj_on_fresh)
qed

lemma rows_ok_player:
  assumes "rows_ok H st" "Seen st \<in> H"
  shows "rows_ok (insert (Seen (snd (CreatePlayerAsync en i n st))) H) (snd (CreatePlayerAsync en i n st))"
proof -
  have sub: "set (db_users st) \<union> known_users H = known_users H" "set (db_players st) \<union> known_players H = known_players H"
    using known_seen [OF assms(2)] by auto
  have "\<forall>p \<in> set (db_players st). p_PlayerId p < db_nextPlayerId st" using sub assms(1) by (auto simp: rows_ok_def)
  then show ?thesis using assms sub
    by (auto simp: CreatePlayerAsync_def Let_def insert_absorb rows_ok_def inj_on_fresh)
qed

lemma rows_ok_deletes:
  assumes "rows_ok H st" "Seen st \<in> H"
  shows "rows_ok (insert (Seen (snd (DeletePlayersByUserIdAsync i st))) H) (snd (DeletePlayersByUserIdAsync i st))"
    and "rows_ok (insert (Seen (snd (DeleteUserAsync i st))) H) (snd (DeleteUserAsync i st))"
  by (rule rows_ok_fewer [OF assms, where P = "\<lambda>_. True" and Q = "\<lambda>p. p_UserId p \<noteq> i"]; simp add: DeletePlayersByUserIdAsync_def)
    (rule rows_ok_fewer [OF assms, where P = "\<lambda>u. u_Id u \<noteq> i" and Q = "\<lambda>_. True"]; simp add: DeleteUserAsync_def)

lemma rows_ok_redis:
  assumes "rows_ok H st" "Seen st \<in> H"
  shows "rows_ok (insert (Seen (snd (StringSetAsync k v ttl st))) H) (snd (StringSetAsync k v ttl st))"
    and "rows_ok (insert (Seen (snd (KeyDeleteAsync k st))) H) (snd (KeyDeleteAsync k st))"
  by (rule rows_ok_same [OF assms]; simp add: StringSetAsync_def KeyDeleteAsync_def)+

lemmas rows_ok_calls = rows_ok_user rows_ok_player rows_ok_deletes rows_ok_redis

lemma rows_ok_actions:
  "safe rows_ok (\<lambda>_ _ _. True) q H (Register en d r)" "safe rows_ok (\<lambda>_ _ _. True) q H (AC_Login en d r)"
  "safe rows_ok (\<lambda>_ _ _. True) q H (AC_Verify v)" "safe rows_ok (\<lambda>_ _ _. True) q H (Logout t)"
  "safe rows_ok (\<lambda>_ _ _. True) q H (GetCharacters t')" "safe rows_ok (\<lambda>_ _ _. True) q H (CreateCharacter en t' n)"
  "safe rows_ok (\<lambda>_ _ _. True) q H (DeleteUser en t' pw)"
  unfolding Register_def AC_Login_def AC_Verify_def Logout_def GetCharacters_def CreateCharacter_def DeleteUser_def await_def Let_def
  by (auto intro!: safe_await_or safe_Reply rows_ok_calls simp: reads_only insert_absorb split: option.split)

interpretation rows: auth_invariant en rows_ok "\<lambda>_ _ _. True"
proof
  fix H st d q
  assume "rows_ok H st"
  then show "rows_ok (insert (Came d q) H) st" by (simp add: rows_ok_def)
next
  fix H st dt st'
  assume "rows_ok H st" "Seen st \<in> H" "0 \<le> dt" "st' = st\<lparr>utcNow := utcNow st + dt\<rparr>"
  then show "rows_ok (insert (Seen st') H) st'" by (intro rows_ok_same) simp_all
next
  fix d q H
  show "safe rows_ok (\<lambda>_ _ _. True) q H (serve en d q)"
    by (cases q) (auto intro!: safe_Reply rows_ok_actions split: option.split)
qed

section \<open>The tickets\<close>

text \<open>What the request of a ticket has shown about the row of its user.\<close>

fun proves :: "Engine \<Rightarrow> draws \<Rightarrow> http_call \<Rightarrow> User \<Rightarrow> bool" where
  "proves en d (Post_login r) u \<longleftrightarrow> sql_equal en (u_Username u) (lq_Username r) \<and> BCrypt_Verify en (lq_Password r) (u_PasswordHash u)"
| "proves en d (Post_register r) u \<longleftrightarrow> u_Username u = lq_Username r \<and> u_PasswordHash u = HashPassword en (dr_salt d) (lq_Password r)"
| "proves en d _ u \<longleftrightarrow> False"

definition issued :: "Engine \<Rightarrow> fact set \<Rightarrow> string \<Rightarrow> int \<Rightarrow> bool" where
  "issued en H t i \<longleftrightarrow> (\<exists>d q u. Came d q \<in> H \<and> dr_guid d = t \<and> u \<in> known_users H \<and> u_Id u = i \<and> proves en d q u)"

definition tickets_ok :: "Engine \<Rightarrow> fact set \<Rightarrow> Store \<Rightarrow> bool" where
  "tickets_ok en H st \<longleftrightarrow> (\<forall>key v expires. um_find (redis st) key = Some (v, expires) \<longrightarrow> expires \<le> utcNow st + ns_per_hour \<and>
     (\<exists>t i. key = ticket_key t \<and> v = to_string_int i \<and> issued en H t i))"

text \<open>A positive verification: the ticket was alive and the player belonged to its user.\<close>

fun vouched :: "Engine \<Rightarrow> fact set \<Rightarrow> http_call \<Rightarrow> response \<Rightarrow> bool" where
  "vouched en H (Post_verify r) (VerifyResponse code True info m) \<longleftrightarrow> code = 200 \<and>
     (\<exists>i st p. issued en H (vq_SessionTicket r) i \<and> Seen st \<in> H \<and> live st (ticket_key (vq_SessionTicket r)) = Some (to_string_int i) \<and>
        p \<in> known_players H \<and> p_PlayerId p = vq_PlayerId r \<and> 0 < p_PlayerId p \<and> p_UserId p = i \<and> info = Some (to_PlayerInfoDto p))"
| "vouched en H (Post_verify r) (VerifyResponse code False info m) \<longleftrightarrow> code \<noteq> 200 \<and> info = None"
| "vouched en H (Post_verify r) (Problem code) \<longleftrightarrow> code \<noteq> 200"
| "vouched en H (Post_verify r) _ \<longleftrightarrow> False"
| "vouched en H _ _ \<longleftrightarrow> True"

lemma known_mono: "H \<subseteq> H' \<Longrightarrow> known_users H \<subseteq> known_users H'" "H \<subseteq> H' \<Longrightarrow> known_players H \<subseteq> known_players H'"
  by (auto simp: known_users_def known_players_def)

lemma issued_mono: "issued en H t i \<Longrightarrow> H \<subseteq> H' \<Longrightarrow> issued en H' t i"
  unfolding issued_def using known_mono(1) [of H H'] by blast

lemma ticket_key_inj [simp]: "ticket_key s = ticket_key t \<longleftrightarrow> s = t"
  by (simp add: ticket_key_def)

lemma to_string_span [simp]: "takeWhile is_digit (to_string n) = to_string n" "dropWhile is_digit (to_string n) = []"
  using to_string_digits [of n] by (simp_all add: takeWhile_eq_all_conv dropWhile_eq_Nil_conv list_all_iff)

lemma int_TryParse_to_string: "int_TryParse (to_string_int i) = (if - (2 ^ 31) \<le> i \<and> i < 2 ^ 31 then Some i else None)"
  using to_string_digits [of "nat \<bar>i\<bar>"] stoll_body [of "[]" i]
  by (simp add: int_TryParse_def digits_value_to_string Let_def)

lemma live_Some: "live st key = Some v \<longleftrightarrow> (\<exists>expires. um_find (redis st) key = Some (v, expires) \<and> utcNow st < expires)"
  by (auto simp: live_def split: option.splits if_splits)

text \<open>What a live ticket says.\<close>

lemma tickets_ok_live:
  assumes "tickets_ok en H st" "ticket_user (live st (ticket_key t)) = Some i"
  shows "issued en H t i \<and> live st (ticket_key t) = Some (to_string_int i)"
proof -
  obtain s where s: "live st (ticket_key t) = Some s" "int_TryParse s = Some i"
    using assms(2) by (auto simp: ticket_user_def split: option.splits)
  then obtain j where "s = to_string_int j" "issued en H t j" using assms(1) by (fastforce simp: tickets_ok_def live_Some)
  then show ?thesis using s by (auto simp: int_TryParse_to_string split: if_splits)
qed

lemma tickets_ok_fewer:
  assumes "tickets_ok en H st" "H \<subseteq> H'" "utcNow st \<le> utcNow st'" "um_find (redis st') \<subseteq>\<^sub>m um_find (redis st)"
  shows "tickets_ok en H' st'"
proof (unfold tickets_ok_def, intro allI impI)
  fix key v e
  assume "um_find (redis st') key = Some (v, e)"
  then have "um_find (redis st) key = Some (v, e)" using assms(4) by (auto simp: map_le_def dom_def)
  then show "e \<le> utcNow st' + ns_per_hour \<and> (\<exists>t i. key = ticket_key t \<and> v = to_string_int i \<and> issued en H' t i)"
    using assms(1,3) issued_mono [OF _ assms(2)] unfolding tickets_ok_def by (meson add_right_mono order_trans)
qed

lemma tickets_ok_calls:
  assumes "tickets_ok en H st"
  shows "tickets_ok en (insert x H) (snd (CreateUserAsync en n h st))" "tickets_ok en (insert x H) (snd (CreatePlayerAsync en i n st))"
    "tickets_ok en (insert x H) (snd (DeletePlayersByUserIdAsync i st))" "tickets_ok en (insert x H) (snd (DeleteUserAsync i st))"
    "tickets_ok en (insert x H) (snd (KeyDeleteAsync k st))"
  by (rule tickets_ok_fewer [OF assms subset_insertI];
      simp add: CreateUserAsync_def CreatePlayerAsync_def DeletePlayersByUserIdAsync_def DeleteUserAsync_def KeyDeleteAsync_def map_le_def dom_def Let_def)+

lemma tickets_ok_set:
  assumes "tickets_ok en H st" "issued en H t i"
  shows "tickets_ok en (insert x H) (snd (StringSetAsync (ticket_key t) (to_string_int i) ns_per_hour st))"
  using assms(1) issued_mono [OF _ subset_insertI] assms(2)
  by (fastforce simp: StringSetAsync_def tickets_ok_def)

lemma vouched_other: "(\<And>r. q \<noteq> Post_verify r) \<Longrightarrow> vouched en H q resp"
  by (cases q) auto

lemma tickets_ok_actions:
  assumes "\<And>r. q \<noteq> Post_verify r"
  shows "safe (tickets_ok en) (vouched en) q H (Logout t)" "safe (tickets_ok en) (vouched en) q H (GetCharacters t')"
    "safe (tickets_ok en) (vouched en) q H (CreateCharacter en t' n)" "safe (tickets_ok en) (vouched en) q H (DeleteUser en t' pw)"
  unfolding Logout_def GetCharacters_def CreateCharacter_def DeleteUser_def await_def Let_def
  by (auto intro!: safe_await_or safe_Reply vouched_other assms tickets_ok_calls simp: reads_only insert_absorb split: option.split)

lemma tickets_ok_Login:
  assumes "Came d (Post_login r) \<in> H"
  shows "safe (tickets_ok en) (vouched en) (Post_login r) H (AC_Login en d r)"
proof -
  have row: "u \<in> set (db_users st) \<and> sql_equal en (u_Username u) (lq_Username r)"
    if "fst (GetUserByUsernameAsync en (lq_Username r) st) = Some (Some u)" for st u
    using that by (auto simp: GetUserByUsernameAsync_def single_or_default_def split: list.splits dest: filter_eq_ConsD)
  have "issued en H'' (dr_guid d) (u_Id u)"
    if "fst (GetUserByUsernameAsync en (lq_Username r) st) = Some (Some u)" "Seen st \<in> H'" "H \<subseteq> H'" "H' \<subseteq> H''"
      "BCrypt_Verify en (lq_Password r) (u_PasswordHash u)" for st u H' H''
    unfolding issued_def using row [OF that(1)] that assms
    by (intro exI [of _ d] exI [of _ "Post_login r"] exI [of _ u]) (auto simp: known_users_def)
  then show ?thesis unfolding AC_Login_def await_def
    by (intro safe_read) (auto intro!: safe_await_or safe_Reply tickets_ok_set simp: GetUserByUsernameAsync_def split: option.split)
qed

lemma tickets_ok_Register:
  assumes "Came d (Post_register r) \<in> H"
  shows "safe (tickets_ok en) (vouched en) (Post_register r) H (Register en d r)"
proof -
  let ?create = "CreateUserAsync en (lq_Username r) (HashPassword en (dr_salt d) (lq_Password r))"
  have "issued en H'' (dr_guid d) (u_Id u)"
    if "fst (?create st) = Some u" "Seen (snd (?create st)) \<in> H''" "H \<subseteq> H''" for st u H''
    unfolding issued_def using that assms
    by (intro exI [of _ d] exI [of _ "Post_register r"] exI [of _ u])
      (auto simp: known_users_def CreateUserAsync_def Let_def split: if_splits)
  then show ?thesis unfolding Register_def await_def
    by (intro safe_read) (auto intro!: safe_await_or safe_Reply tickets_ok_set tickets_ok_calls simp: GetUserByUsernameAsync_def)
qed

lemma tickets_ok_Verify: "safe (tickets_ok en) (vouched en) (Post_verify r) H (AC_Verify r)"
proof -
  have row: "p \<in> set (db_players st) \<and> p_PlayerId p = k"
    if "fst (GetPlayerByIdAsync k st) = Some (Some p)" for st p k
    using that by (auto simp: GetPlayerByIdAsync_def single_or_default_def split: list.splits dest: filter_eq_ConsD)
  let ?t = "vq_SessionTicket r" and ?k = "vq_PlayerId r"
  have yes: "vouched en H'' (Post_verify r) (VerifyResponse 200 True (Some (to_PlayerInfoDto p)) m)"
    if "ticket_user (live st1 (ticket_key ?t)) = Some (p_UserId p)" "tickets_ok en H1 st1" "Seen st1 \<in> H1"
      "fst (GetPlayerByIdAsync ?k st2) = Some (Some p)" "Seen st2 \<in> H2" "H1 \<subseteq> H2" "H2 \<subseteq> H''" "0 < ?k" for H1 st1 H2 st2 H'' p m
  proof -
    have "issued en H'' ?t (p_UserId p)" "live st1 (ticket_key ?t) = Some (to_string_int (p_UserId p))"
      using tickets_ok_live [OF that(2,1)] issued_mono that(6,7) by blast+
    moreover have "p \<in> known_players H''" using row [OF that(4)] that(5,7) by (auto simp: known_players_def)
    moreover have "Seen st1 \<in> H''" using that by blast
    ultimately show ?thesis using that(8) row [OF that(4)]
      by (auto intro!: exI [of _ "p_UserId p"] exI [of _ st1] exI [of _ p])
  qed
  show ?thesis unfolding AC_Verify_def await_def
    by (auto intro!: safe_read safe_Reply simp: StringGetAsync_def split: option.split)
      (simp_all add: GetPlayerByIdAsync_def yes [simplified] split: option.split)
qed

lemma tickets_ok_serve:
  assumes "Came d q \<in> H"
  shows "safe (tickets_ok en) (vouched en) q H (serve en d q)"
proof (cases q)
  case (Post_register r)
  then show ?thesis using assms tickets_ok_Register by (simp add: safe_Reply_iff)
next
  case (Post_login r)
  then show ?thesis using assms tickets_ok_Login by (simp add: safe_Reply_iff)
next
  case (Post_verify r)
  then show ?thesis using tickets_ok_Verify by (simp add: safe_Reply_iff)
qed (simp_all add: tickets_ok_actions safe_Reply_iff split: option.split)

interpretation tickets: auth_invariant en "tickets_ok en" "vouched en"
proof
  fix H st d q
  assume "tickets_ok en H st"
  then show "tickets_ok en (insert (Came d q) H) st" by (rule tickets_ok_fewer) (simp_all add: subset_insertI)
next
  fix H st dt st'
  assume t: "tickets_ok en H st" "0 \<le> dt" "st' = st\<lparr>utcNow := utcNow st + dt\<rparr>"
  show "tickets_ok en (insert (Seen st') H) st'" by (rule tickets_ok_fewer [OF t(1)]) (simp_all add: t subset_insertI)
next
  fix d q H
  assume "Came d q \<in> H"
  then show "safe (tickets_ok en) (vouched en) q H (serve en d q)" by (rule tickets_ok_serve)
qed

end
