(* ===== verification/Auth_Server_Properties.thy ===== *)
theory Auth_Server_Properties
  imports Tickets
begin

text \<open>
  Properties of the authentication server: where tickets come from and how long they live, what
  holds of the accounts when requests come one at a time, and what a race of two registrations
  does.
\<close>

section \<open>Requests that run alone\<close>

text \<open>An uninterrupted request is one of the runs.\<close>

lemma alone_is_run:
  assumes "auth_run en st0 H st ps" "i < length ps" "ps ! i = (q, p)"
  shows "\<exists>H'. H \<subseteq> H' \<and> auth_run en st0 H' (snd (run_alone p st)) (ps[i := (q, Reply (fst (run_alone p st)))])"
  using assms
proof (induction p arbitrary: H st ps)
  case (Reply r)
  then have "ps[i := (q, Reply r)] = ps" by (metis list_update_id)
  then show ?case using Reply by auto
next
  case (Await nxt eff failed)
  have "auth_run en st0 (insert (Seen (eff st)) H) (eff st) (ps[i := (q, nxt st)])"
    using goes_on [OF Await.prems(1,2,3)] .
  from Await.IH [OF rangeI this] Await.prems(2) obtain H' where "insert (Seen (eff st)) H \<subseteq> H'"
    "auth_run en st0 H' (snd (run_alone (nxt st) (eff st))) (ps[i := (q, Reply (fst (run_alone (nxt st) (eff st))))])" by auto
  then show ?case by (intro exI [of _ H']) simp
qed

lemma serve_alone_is_run:
  assumes "auth_run en st0 H st ps"
  shows "\<exists>H'. insert (Came d q) H \<subseteq> H' \<and> auth_run en st0 H' (snd (run_alone (serve en d q) st))
    (ps @ [(q, Reply (fst (run_alone (serve en d q) st)))])"
  using alone_is_run [OF arrives [OF assms, of d q], of "length ps"] by simp

fun status :: "response \<Rightarrow> nat" where
  "status (Problem c) = c"
| "status (MessageResponse c _) = c"
| "status (LoginResponse c _ _ _) = c"
| "status (VerifyResponse c _ _ _) = c"
| "status (CharacterListResponse c _ _ _) = c"
| "status (CharacterCreateResponse c _ _ _) = c"
| "status (DeleteUserResponse c _ _ _) = c"

lemma run_alone_await_or: "run_alone (await_or failed call k) st =
  (case call st of (Some x, st') \<Rightarrow> run_alone (k x) st' | (None, st') \<Rightarrow> (failed, st'))"
  by (simp add: await_or_def split: option.split prod.split)

lemma run_alone_await: "run_alone (await call k) st =
  (case call st of (Some x, st') \<Rightarrow> run_alone (k x) st' | (None, st') \<Rightarrow> (Problem 500, st'))"
  by (simp add: await_def run_alone_await_or)

lemmas run_alone_simps = run_alone_await run_alone_await_or

section \<open>Tickets\<close>

text \<open>
  C16: however requests interleave and whatever calls fail, a ticket that Redis still knows was
  drawn by a registration or a login that came in, its value is the id of a user whose row was
  in the table, that request proved itself by the user's name and password (a login) or created
  the row (a registration), and it expires within the hour.
\<close>

theorem tickets_authentic:
  assumes "auth_run en st0 H st ps" "redis st0 = []" "live st (ticket_key t) = Some v"
  shows "\<exists>d q u expires. Came d q \<in> H \<and> dr_guid d = t \<and> u \<in> known_users H \<and> v = to_string_int (u_Id u) \<and> proves en d q u \<and>
    um_find (redis st) (ticket_key t) = Some (v, expires) \<and> utcNow st < expires \<and> expires \<le> utcNow st + ns_per_hour"
proof -
  have "tickets_ok en H st" using tickets.run_ok [OF assms(1)] assms(2) by (simp add: tickets_ok_def)
  moreover obtain e where "um_find (redis st) (ticket_key t) = Some (v, e)" "utcNow st < e"
    using assms(3) by (auto simp: live_Some)
  ultimately show ?thesis by (fastforce simp: tickets_ok_def issued_def)
qed

definition demo_engine :: Engine where
  "demo_engine = \<lparr>sql_equal = (=), sql_accepts_user = (\<lambda>_ _. True), sql_accepts_player = (\<lambda>_ _ _. True),
     HashPassword = (\<lambda>salt p. salt @ p), BCrypt_Verify = (\<lambda>p h. h = ''s'' @ p)\<rparr>"

definition empty_Store :: Store where
  "empty_Store = \<lparr>db_users = [], db_nextUserId = 1, db_players = [], db_nextPlayerId = 1, redis = [], utcNow = 0\<rparr>"

definition demo_draws :: "string \<Rightarrow> draws" where
  "demo_draws guid = \<lparr>dr_guid = guid, dr_salt = ''s''\<rparr>"

definition demo_user :: LoginRequestDto where
  "demo_user = \<lparr>lq_Username = ''ann'', lq_Password = ''secret''\<rparr>"

definition demo_registered :: Store where
  "demo_registered = snd (run_alone (serve demo_engine (demo_draws ''t1'') (Post_register demo_user)) empty_Store)"

lemma demo_registered_run:
  "\<exists>H ps. auth_run demo_engine empty_Store H demo_registered ps"
  using serve_alone_is_run [OF boots [of demo_engine empty_Store], of "demo_draws ''t1''" "Post_register demo_user"]
  unfolding demo_registered_def by blast

theorem tickets_authentic_witness:
  "live demo_registered (ticket_key ''t1'') = Some ''1'' \<and>
   (\<exists>expires. um_find (redis demo_registered) (ticket_key ''t1'') = Some (''1'', expires) \<and> expires \<le> ns_per_hour)"
proof -
  obtain H ps where "auth_run demo_engine empty_Store H demo_registered ps" using demo_registered_run by blast
  moreover have "redis empty_Store = []" "live demo_registered (ticket_key ''t1'') = Some ''1''" "utcNow demo_registered = 0"
    by code_simp+
  ultimately show ?thesis using tickets_authentic [of demo_engine empty_Store H demo_registered ps "''t1''" "''1''"] by auto
qed

text \<open>
  C30: a ticket is good for one hour and until it is given back.  When the name and the password
  of a login fit exactly one user, the login is answered with a new ticket, and with that ticket
  every character of the user is confirmed, with its data, for one hour and refused from then
  on, characters of other users are always refused, and after a logout nothing is confirmed.
\<close>

theorem ticket_lifetime:
  assumes user: "filter (\<lambda>u. sql_equal en (u_Username u) (lq_Username r)) (db_users st) = [u]"
      "BCrypt_Verify en (lq_Password r) (u_PasswordHash u)" "u_Id u \<in> {- (2 ^ 31)..<2 ^ 31}"
    and player: "filter (\<lambda>p. p_PlayerId p = p_PlayerId c) (db_players st) = [c]" "0 < p_PlayerId c"
    and ticket: "dr_guid d \<noteq> []"
    and login: "run_alone (AC_Login en d r) st = (resp, st1)"
  shows "resp = LoginResponse 200 True (Some (dr_guid d)) ''Login successful.'' \<and>
    (\<forall>dt. let v = \<lparr>vq_SessionTicket = dr_guid d, vq_PlayerId = p_PlayerId c\<rparr>; st2 = st1\<lparr>utcNow := utcNow st1 + dt\<rparr> in
      status (fst (run_alone (AC_Verify v) st2)) = (if dt < ns_per_hour \<and> p_UserId c = u_Id u then 200 else 401) \<and>
      (status (fst (run_alone (AC_Verify v) st2)) = 200 \<longrightarrow> fst (run_alone (AC_Verify v) st2) =
         VerifyResponse 200 True (Some (to_PlayerInfoDto c)) ''Session and player verification successful.'') \<and>
      status (fst (run_alone (AC_Verify v) (snd (run_alone (Logout (Some (dr_guid d))) st2)))) = 401)"
proof -
  have st1: "resp = LoginResponse 200 True (Some (dr_guid d)) ''Login successful.''"
    "st1 = st\<lparr>redis := um_set (redis st) (ticket_key (dr_guid d)) (to_string_int (u_Id u), utcNow st + ns_per_hour)\<rparr>"
    using login user by (auto simp: AC_Login_def run_alone_simps GetUserByUsernameAsync_def single_or_default_def StringSetAsync_def)
  show ?thesis using user(3) player ticket
    by (auto simp: st1 AC_Verify_def Logout_def run_alone_simps StringGetAsync_def KeyDeleteAsync_def GetPlayerByIdAsync_def live_def
        ticket_user_def int_TryParse_to_string single_or_default_def Let_def)
qed

definition demo_character :: PlayerRow where
  "demo_character = \<lparr>p_PlayerId = 1, p_UserId = 1, p_Name = ''Ann'', p_PosX = Fin 0, p_PosY = Fin 0, p_Hp = 100, p_MaxHp = 100,
     p_CreatedAt = 0, p_UpdatedAt = 0\<rparr>"

definition demo_accounts :: Store where
  "demo_accounts = snd (run_alone (serve demo_engine (demo_draws ''x'') (Post_characters (Some ''t1'') ''Ann'')) demo_registered)"

definition demo_logged_in :: Store where
  "demo_logged_in = snd (run_alone (AC_Login demo_engine (demo_draws ''t2'') demo_user) demo_accounts)"

theorem ticket_lifetime_witness:
  "status (fst (run_alone (AC_Verify \<lparr>vq_SessionTicket = ''t2'', vq_PlayerId = 1\<rparr>) demo_logged_in)) = 200 \<and>
   status (fst (run_alone (AC_Verify \<lparr>vq_SessionTicket = ''t2'', vq_PlayerId = 1\<rparr>)
     (demo_logged_in\<lparr>utcNow := utcNow demo_logged_in + ns_per_hour\<rparr>))) = 401"
proof -
  let ?u = "\<lparr>u_Id = 1, u_Username = ''ann'', u_PasswordHash = ''ssecret'', u_CreatedAt = 0\<rparr>"
  have "filter (\<lambda>u. sql_equal demo_engine (u_Username u) (lq_Username demo_user)) (db_users demo_accounts) = [?u]"
    "BCrypt_Verify demo_engine (lq_Password demo_user) (u_PasswordHash ?u)"
    "filter (\<lambda>p. p_PlayerId p = p_PlayerId demo_character) (db_players demo_accounts) = [demo_character]"
    "0 < p_PlayerId demo_character" "dr_guid (demo_draws ''t2'') \<noteq> []" by code_simp+
  note facts = ticket_lifetime [OF this(1,2) _ this(3-5) prod.collapse [symmetric], folded demo_logged_in_def]
  have "0 < ns_per_hour" by code_simp
  then show ?thesis using facts [THEN conjunct2, THEN spec, of 0] facts [THEN conjunct2, THEN spec, of ns_per_hour]
    by (simp add: Let_def demo_draws_def demo_character_def)
qed

section \<open>Accounts\<close>

text \<open>The rules that the checks of the actions enforce: no two names are equal, and at most three characters.\<close>

definition accounts_ok :: "Engine \<Rightarrow> Store \<Rightarrow> bool" where
  "accounts_ok en st \<longleftrightarrow> sorted_wrt (\<lambda>u v. \<not> sql_equal en (u_Username u) (u_Username v)) (db_users st) \<and>
     sorted_wrt (\<lambda>p q. \<not> sql_equal en (p_Name p) (p_Name q)) (db_players st) \<and>
     (\<forall>i. length (filter (\<lambda>p. p_UserId p = i) (db_players st)) \<le> 3)"

text \<open>A sequence of requests, each after a pause and each alone.\<close>

definition serve_in_turn :: "Engine \<Rightarrow> (nat \<times> draws \<times> http_call) list \<Rightarrow> Store \<Rightarrow> Store" where
  "serve_in_turn en = fold (\<lambda>(dt, d, q) st. snd (run_alone (serve en d q) (st\<lparr>utcNow := utcNow st + int dt\<rparr>)))"

lemma sorted_wrt_filter_keeps: "sorted_wrt R xs \<Longrightarrow> sorted_wrt R (filter P xs)"
  by (induction xs) auto

lemma accounts_ok_update [simp]: "accounts_ok en (st\<lparr>redis := r\<rparr>) = accounts_ok en st" "accounts_ok en (st\<lparr>utcNow := t\<rparr>) = accounts_ok en st"
  by (simp_all add: accounts_ok_def)

lemma accounts_ok_deletes:
  assumes "accounts_ok en st"
  shows "accounts_ok en (snd (DeletePlayersByUserIdAsync i st))" "accounts_ok en (snd (DeleteUserAsync i st))"
proof -
  have "length (filter (\<lambda>p. p_UserId p \<noteq> i \<and> p_UserId p = j) (db_players st)) \<le> length (filter (\<lambda>p. p_UserId p = j) (db_players st))" for j
    using length_filter_le [of "\<lambda>p. p_UserId p \<noteq> i" "filter (\<lambda>p. p_UserId p = j) (db_players st)"]
    by (simp add: filter_filter conj_commute)
  then show "accounts_ok en (snd (DeletePlayersByUserIdAsync i st))" using assms
    by (auto simp: accounts_ok_def DeletePlayersByUserIdAsync_def sorted_wrt_filter_keeps intro: le_trans)
  show "accounts_ok en (snd (DeleteUserAsync i st))" using assms
    by (simp add: accounts_ok_def DeleteUserAsync_def sorted_wrt_filter_keeps)
qed

lemma accounts_ok_user:
  assumes "accounts_ok en st" "\<forall>u \<in> set (db_users st). \<not> sql_equal en (u_Username u) n"
  shows "accounts_ok en (snd (CreateUserAsync en n h st))"
  using assms by (simp add: CreateUserAsync_def Let_def accounts_ok_def sorted_wrt_append)

lemma accounts_ok_player:
  assumes "accounts_ok en st" "\<forall>p \<in> set (db_players st). \<not> sql_equal en (p_Name p) n"
    and "length (filter (\<lambda>p. p_UserId p = i) (db_players st)) < 3"
  shows "accounts_ok en (snd (CreatePlayerAsync en i n st))"
  using assms by (simp add: CreatePlayerAsync_def Let_def accounts_ok_def sorted_wrt_append)

lemma accounts_ok_Register:
  assumes "accounts_ok en st"
  shows "accounts_ok en (snd (run_alone (Register en d r) st))"
proof -
  have new: "\<forall>u \<in> set (db_users st). \<not> sql_equal en (u_Username u) (lq_Username r)"
    if "single_or_default (filter (\<lambda>u. sql_equal en (u_Username u) (lq_Username r)) (db_users st)) = Some None"
    using that by (auto simp: single_or_default_def filter_empty_conv split: list.splits)
  show ?thesis using assms accounts_ok_user [OF assms new]
    by (auto simp: Register_def run_alone_simps GetUserByUsernameAsync_def StringSetAsync_def split_beta split: option.split)
qed

lemma accounts_ok_CreateCharacter:
  assumes "accounts_ok en st"
  shows "accounts_ok en (snd (run_alone (CreateCharacter en t n) st))"
  using assms accounts_ok_player [OF assms, of n]
  by (auto simp: CreateCharacter_def run_alone_simps reads_only filter_empty_conv not_le split_beta split: option.split)

lemma accounts_ok_DeleteUser: "accounts_ok en st \<Longrightarrow> accounts_ok en (snd (run_alone (DeleteUser en t pw) st))"
  using accounts_ok_deletes
  by (simp add: DeleteUser_def run_alone_simps reads_only KeyDeleteAsync_def Let_def split_beta split: option.split)

lemma accounts_ok_serve:
  assumes "accounts_ok en st"
  shows "accounts_ok en (snd (run_alone (serve en d q) st))"
proof (cases q)
  case (Post_login r)
  then show ?thesis using assms
    by (simp add: AC_Login_def run_alone_simps reads_only StringSetAsync_def split: option.split)
qed (use assms accounts_ok_Register accounts_ok_CreateCharacter accounts_ok_DeleteUser in
    \<open>simp_all add: AC_Verify_def Logout_def GetCharacters_def run_alone_simps reads_only KeyDeleteAsync_def split: option.split\<close>)

lemma accounts_ok_in_turn: "accounts_ok en st \<Longrightarrow> accounts_ok en (serve_in_turn en qs st)"
  unfolding serve_in_turn_def
  by (rule fold_keeps [where P = "accounts_ok en"]) (auto intro: accounts_ok_serve)

lemma in_turn_is_run:
  assumes "auth_run en st0 H st ps"
  shows "\<exists>H' ps'. auth_run en st0 H' (serve_in_turn en qs st) ps'"
  using assms
proof (induction qs arbitrary: H st ps)
  case Nil
  then show ?case by (auto simp: serve_in_turn_def)
next
  case (Cons x qs)
  obtain dt d q where x: "x = (dt, d, q)" by (metis prod.exhaust)
  from serve_alone_is_run [OF passes [OF Cons.prems, of "int dt", OF _ refl], of d q]
  obtain H' ps' where "auth_run en st0 H' (snd (run_alone (serve en d q) (st\<lparr>utcNow := utcNow st + int dt\<rparr>))) ps'" by auto
  from Cons.IH [OF this] show ?case by (simp add: serve_in_turn_def x)
qed

text \<open>Queries for one row do not throw when names and ids are unique.\<close>

lemma at_most_one:
  assumes "sorted_wrt (\<lambda>x y. \<not> R x y) xs" "\<And>x y. P x \<Longrightarrow> P y \<Longrightarrow> R x y"
  shows "\<exists>r. single_or_default (filter P xs) = Some r"
proof -
  have "sorted_wrt (\<lambda>x y. \<not> R x y) (filter P xs)" using assms(1) by (rule sorted_wrt_filter_keeps)
  moreover have "\<forall>x \<in> set (filter P xs). P x" by simp
  ultimately show ?thesis using assms(2)
    by (cases "filter P xs" rule: remdups_adj.cases) (auto simp: single_or_default_def)
qed

lemma unique_id_query: "distinct (map f xs) \<Longrightarrow> \<exists>r. single_or_default (filter (\<lambda>x. f x = k) xs) = Some r"
  by (rule at_most_one [where R = "\<lambda>x y. f x = f y"]) (auto simp: distinct_map sorted_wrt_iff_nth_less distinct_conv_nth)

text \<open>A schema that accepts every row, and a collation that is an equivalence.\<close>

definition lenient :: "Engine \<Rightarrow> bool" where
  "lenient en \<longleftrightarrow> (\<forall>us u. sql_accepts_user en us u) \<and> (\<forall>us ps p. sql_accepts_player en us ps p) \<and> equivp (sql_equal en)"

lemma serve_no_500:
  assumes "lenient en" "accounts_ok en st" "distinct (map u_Id (db_users st))" "distinct (map p_PlayerId (db_players st))"
  shows "status (fst (run_alone (serve en d q) st)) \<noteq> 500"
proof -
  have name: "\<exists>r. single_or_default (filter (\<lambda>u. sql_equal en (u_Username u) n) (db_users st)) = Some r" for n
    using assms(1,2) by (intro at_most_one [where R = "\<lambda>u v. sql_equal en (u_Username u) (u_Username v)"])
      (auto simp: accounts_ok_def lenient_def intro: equivp_transp equivp_symp)
  note ids = unique_id_query [OF assms(3)] unique_id_query [OF assms(4)]
  have acc: "sql_accepts_user en us u" "sql_accepts_player en us ps p" for us u ps p using assms(1) by (auto simp: lenient_def)
  show ?thesis
  proof (cases q)
    case (Post_register r)
    then show ?thesis using name [of "lq_Username r"]
      by (auto simp: Register_def run_alone_simps GetUserByUsernameAsync_def CreateUserAsync_def acc StringSetAsync_def Let_def split: if_splits)
  next
    case (Post_login r)
    then show ?thesis using name [of "lq_Username r"]
      by (auto simp: AC_Login_def run_alone_simps GetUserByUsernameAsync_def StringSetAsync_def split: option.split)
  next
    case (Post_verify r)
    then show ?thesis using ids(2) [of "vq_PlayerId r"]
      by (auto simp: AC_Verify_def run_alone_simps StringGetAsync_def GetPlayerByIdAsync_def split: option.split)
  next
    case (Delete_user t pw)
    obtain user where "GetUserByIdAsync i st = (Some (user i), st)" for i using ids(1) unfolding GetUserByIdAsync_def by metis
    then show ?thesis unfolding Delete_user
      by (auto simp: DeleteUser_def run_alone_simps StringGetAsync_def DeletePlayersByUserIdAsync_def DeleteUserAsync_def
          KeyDeleteAsync_def Let_def split: option.split)
  qed (auto simp: Logout_def GetCharacters_def CreateCharacter_def run_alone_simps StringGetAsync_def KeyDeleteAsync_def
      GetPlayersByUserIdAsync_def IsPlayerNameExistsAsync_def CreatePlayerAsync_def acc Let_def split: option.split)
qed



text \<open>
  Requests side by side break this.  When the schema does not forbid it, two registrations of
  one name whose checks both come before the first insertion both succeed, and afterwards the
  query for that name throws, so that every login of this user is answered with status 500.
\<close>

theorem register_race:
  fixes d1 d2 :: draws
  assumes engine: "\<And>us u. sql_accepts_user en us u" "reflp (sql_equal en)" and r: "valid_LoginRequestDto r"
    and free: "GetUserByUsernameAsync en (lq_Username r) st0 = (Some None, st0)"
  shows "\<exists>H st. auth_run en st0 H st
      [(Post_register r, Reply (LoginResponse 200 True (Some (dr_guid d1)) ''Registration successful.'')),
       (Post_register r, Reply (LoginResponse 200 True (Some (dr_guid d2)) ''Registration successful.''))] \<and>
    (\<forall>d r'. lq_Username r' = lq_Username r \<longrightarrow> fst (run_alone (AC_Login en d r') st) = Problem 500)"
proof -
  define rest where "rest d = await (CreateUserAsync en (lq_Username r) (HashPassword en (dr_salt d) (lq_Password r))) (\<lambda>newUser.
    await (StringSetAsync (ticket_key (dr_guid d)) (to_string_int (u_Id newUser)) ns_per_hour) (\<lambda>_.
    Reply (LoginResponse 200 True (Some (dr_guid d)) ''Registration successful.'')))" for d :: draws
  let ?yes = "\<lambda>d. (Post_register r, Reply (LoginResponse 200 True (Some (dr_guid d)) ''Registration successful.''))"
  let ?q = "Post_register r"
  have eff: "snd (GetUserByUsernameAsync en n st) = st" for n st by (simp add: GetUserByUsernameAsync_def)
  have reg: "Register en d r = Await (\<lambda>st. case fst (GetUserByUsernameAsync en (lq_Username r) st) of
      Some e \<Rightarrow> if e \<noteq> None then Reply (MessageResponse 409 ''Username already exists.'') else rest d
    | None \<Rightarrow> Reply (Problem 500)) (\<lambda>st. snd (GetUserByUsernameAsync en (lq_Username r) st)) (Problem 500)" for d
    unfolding Register_def rest_def [symmetric] by (simp add: await_def await_or_def fun_eq_iff split: option.split)
  have alone: "fst (run_alone (rest d) st) = LoginResponse 200 True (Some (dr_guid d)) ''Registration successful.''"
    "\<exists>u. u_Username u = lq_Username r \<and> db_users (snd (run_alone (rest d) st)) = db_users st @ [u]" for d st
    by (simp_all add: rest_def run_alone_simps CreateUserAsync_def engine(1) StringSetAsync_def Let_def)
  obtain H1 where "auth_run en st0 H1 st0 [(?q, Register en d1 r), (?q, Register en d2 r)]"
    using arrives [OF arrives [OF boots [of en st0], of d1 ?q], of d2 ?q] r by auto
  from goes_on [OF this, of 0] obtain H2 where "auth_run en st0 H2 st0 [(?q, rest d1), (?q, Register en d2 r)]"
    by (auto simp: reg free eff)
  from goes_on [OF this, of 1] obtain H3 where "auth_run en st0 H3 st0 [(?q, rest d1), (?q, rest d2)]"
    by (auto simp: reg free eff)
  from alone_is_run [OF this, of 0] obtain H4 where "auth_run en st0 H4 (snd (run_alone (rest d1) st0)) [?yes d1, (?q, rest d2)]"
    by (auto simp: alone(1))
  from alone_is_run [OF this, of 1] obtain H5 st where run: "auth_run en st0 H5 st [?yes d1, ?yes d2]"
    and st: "st = snd (run_alone (rest d2) (snd (run_alone (rest d1) st0)))"
    by (auto simp: alone(1))
  obtain u v where "u_Username u = lq_Username r" "u_Username v = lq_Username r" "db_users st = db_users st0 @ [u, v]"
    using alone(2) [of d1 st0] alone(2) [of d2 "snd (run_alone (rest d1) st0)"] st by auto
  then have "single_or_default (filter (\<lambda>u. sql_equal en (u_Username u) (lq_Username r)) (db_users st)) = None"
    using reflpD [OF engine(2)] by (auto simp: single_or_default_def split: list.split)
  then have "fst (run_alone (AC_Login en d r') st) = Problem 500" if "lq_Username r' = lq_Username r" for d r'
    using that by (simp add: AC_Login_def run_alone_simps GetUserByUsernameAsync_def)
  then show ?thesis using run by blast
qed

theorem register_race_witness:
  "\<exists>H st. auth_run demo_engine empty_Store H st
     [(Post_register demo_user, Reply (LoginResponse 200 True (Some ''t1'') ''Registration successful.'')),
      (Post_register demo_user, Reply (LoginResponse 200 True (Some ''t2'') ''Registration successful.''))] \<and>
   fst (run_alone (AC_Login demo_engine (demo_draws ''t3'') demo_user) st) = Problem 500"
proof -
  have "\<And>us u. sql_accepts_user demo_engine us u" "reflp (sql_equal demo_engine)" by (simp_all add: demo_engine_def reflpI)
  moreover have "valid_LoginRequestDto demo_user" "GetUserByUsernameAsync demo_engine (lq_Username demo_user) empty_Store = (Some None, empty_Store)"
    by code_simp+
  ultimately show ?thesis using register_race [of demo_engine demo_user empty_Store "demo_draws ''t1''" "demo_draws ''t2''"]
    by (fastforce simp: demo_draws_def)
qed

text \<open>
  Deleting an account leaves its other tickets alive: with one of them the deleted user creates a
  new character (if no constraint of the schema forbids it), and with that character the ticket
  is confirmed to the game server.
\<close>

lemma deleted_account_still_plays:
  "let gone = snd (run_alone (DeleteUser demo_engine ''t1'' ''secret'') demo_logged_in);
       back = snd (run_alone (CreateCharacter demo_engine ''t2'' ''Ann'') gone)
   in db_users gone = [] \<and> db_players gone = [] \<and>
      status (fst (run_alone (AC_Verify \<lparr>vq_SessionTicket = ''t2'', vq_PlayerId = 2\<rparr>) back)) = 200"
  by code_simp

end
