(* ===== verification/Login_Chain.thy ===== *)
theory Login_Chain
  imports Login Auth_Server_Properties
begin

text \<open>
  The chain of a login over both servers: the request of the game server, the verification by the
  authentication server among all its other requests, the response, and the player that the
  session becomes.  What connects them is JSON over HTTP, so the two JSON libraries are
  parameters; \<open>binds_verify\<close> and \<open>carries\<close> say what their documentation says.
\<close>

section \<open>What travels between the servers\<close>

text \<open>
  The binding of the request body: property names in any case, and a number that does not fit a
  \<open>long\<close> is refused by the framework.
\<close>

definition binds_verify :: "(string \<Rightarrow> VerifyRequestDto option) \<Rightarrow> (json \<Rightarrow> string) \<Rightarrow> bool" where
  "binds_verify bind dump \<longleftrightarrow> (\<forall>t k. bind (dump (JObject [(''PlayerId'', JUint k), (''SessionTicket'', JString t)])) =
     (if uint k < 2 ^ 63 then Some \<lparr>vq_SessionTicket = t, vq_PlayerId = uint k\<rparr> else None))"

text \<open>A response as the parser of the game server reads it: camel case, and unsigned if not negative.\<close>

definition json_number :: "int \<Rightarrow> json" where
  "json_number k = (if 0 \<le> k then JUint (word_of_int k) else JInt (word_of_int k))"

definition carries_info :: "json option \<Rightarrow> PlayerInfoDto option \<Rightarrow> bool" where
  "carries_info j info \<longleftrightarrow> (case info of
      None \<Rightarrow> j = Some JNull
    | Some i \<Rightarrow> (\<exists>members. j = Some (JObject members) \<and> map_of members ''playerId'' = Some (json_number (pi_PlayerId i)) \<and>
        map_of members ''name'' = Some (JString (pi_Name i)) \<and> map_of members ''hp'' = Some (json_number (pi_Hp i)) \<and>
        map_of members ''maxHp'' = Some (json_number (pi_MaxHp i))))"

definition carries :: "(string \<Rightarrow> parsed) \<Rightarrow> http_response \<Rightarrow> response \<Rightarrow> bool" where
  "carries parse res resp \<longleftrightarrow> res_status res = status resp \<and> (case resp of
      VerifyResponse _ success info message \<Rightarrow> (\<exists>members. parse (res_body res) = Json (JObject members) \<and>
        map_of members ''success'' = Some (JBool success) \<and> map_of members ''message'' = Some (JString message) \<and>
        carries_info (map_of members ''playerInfo'') info)
    | _ \<Rightarrow> True)"

lemma carries_playerId:
  assumes "carries parse res (VerifyResponse 200 True (Some i) m)" "\<And>msg. ec \<noteq> ReadError msg"
    "pi_PlayerId i = uint (k :: uint64)"
  shows "vr_playerId (OnRead parse ec res) = k"
  using assms
  by (auto simp: carries_def carries_info_def json_number_def OnRead_def read_verdict_def read_player_info_def bool_member_def
      unsigned_member_def json_member_def or_keep_def Let_def split: read_error.split option.splits json.splits)

section \<open>The property\<close>

text \<open>
  C11: nobody plays a character without the password of its owner.  When the answer to a login
  changes the player of a session, the session belongs to that login and becomes the character
  that its client asked for; the authentication server knew that character as one of a user,
  the only one that it ever belonged to; and the ticket of the login was drawn by a login with
  that user's name and password, or by the registration that created the user.  This holds
  however the requests to the authentication server interleave and fail.
\<close>

theorem login_end_to_end:
  assumes run: "auth_run en st0 H st ps" "redis st0 = []" "rows_ok {Seen st0} st0"
    and link: "binds_verify bind dump" "bind (rq_body (Run dump host (lr_ticket q) (lr_playerId q))) = Some v"
      "(Post_verify v, Reply resp) \<in> set ps" "carries parse res resp"
    and game: "login_answer enc peer alive q (OnRead parse ec res) net = Returned net'"
      "s_playerId (store net' b) \<noteq> s_playerId (store net b)"
  shows "b = lr_session q \<and> s_playerId (store net' b) = lr_playerId q \<and>
    (\<exists>u c d call. u \<in> known_users H \<and> c \<in> known_players H \<and> p_PlayerId c = uint (lr_playerId q) \<and>
      (\<forall>c' \<in> known_players H. p_PlayerId c' = uint (lr_playerId q) \<longrightarrow> p_UserId c' = u_Id u) \<and>
      Came d call \<in> H \<and> dr_guid d = lr_ticket q \<and> proves en d call u)"
proof -
  let ?r = "OnRead parse ec res"
  have yes: "vr_success ?r" "b = lr_session q" "s_playerId (store net' b) = vr_playerId ?r"
    using game by (auto simp: login_answer_def log_endpoint_def SendLoginFailure_def upd_session_def SetPlayerId_def Send_def Let_def
        split: if_splits option.splits)
  then have ec: "ec \<noteq> ReadError msg" and conf: "confirmed parse res" for msg using OnRead_success by blast+
  have v: "v = \<lparr>vq_SessionTicket = lr_ticket q, vq_PlayerId = uint (lr_playerId q)\<rparr>"
    using link(1,2) by (auto simp: binds_verify_def Run_def split: if_splits)
  have "vouched en H (Post_verify v) resp"
    using tickets.run_good [OF run(1) _ link(3)] run(2) by (simp add: tickets_ok_def)
  moreover have "status resp = 200" using link(4) conf by (simp add: carries_def confirmed_def)
  ultimately obtain i c m where resp: "resp = VerifyResponse 200 True (Some (to_PlayerInfoDto c)) m" "issued en H (lr_ticket q) i"
    "c \<in> known_players H" "p_PlayerId c = uint (lr_playerId q)" "p_UserId c = i"
    by (cases "(en, H, Post_verify v, resp)" rule: vouched.cases) (auto simp: v)
  have "vr_playerId ?r = lr_playerId q"
    using carries_playerId [OF link(4) [unfolded resp(1)] ec] resp(4) by (simp add: to_PlayerInfoDto_def)
  moreover have "inj_on p_PlayerId (known_players H)" using rows.run_ok [OF run(1,3)] by (simp add: rows_ok_def)
  then have "p_UserId c' = i" if "c' \<in> known_players H" "p_PlayerId c' = uint (lr_playerId q)" for c'
    using that resp(3-5) by (metis inj_onD)
  ultimately show ?thesis using yes resp(2-4) unfolding issued_def by metis
qed

text \<open>A login over both servers: a codec for the request, the account of before, its ticket and its character.\<close>

definition demo_dump :: "json \<Rightarrow> string" where
  "demo_dump j = (case j of JObject [(_, JUint k), (_, JString t)] \<Rightarrow> to_string (unat k) @ CHR '' '' # t | _ \<Rightarrow> [])"

definition demo_bind :: "string \<Rightarrow> VerifyRequestDto option" where
  "demo_bind s = (let ds = takeWhile is_digit s in if digits_value ds < 2 ^ 63
     then Some \<lparr>vq_SessionTicket = drop (length ds + 1) s, vq_PlayerId = int (digits_value ds)\<rparr> else None)"

lemma demo_binds: "binds_verify demo_bind demo_dump"
proof -
  have "\<not> is_digit (CHR '' '')" by (simp add: is_digit_def)
  then have "takeWhile is_digit (to_string n @ CHR '' '' # t) = to_string n" for n t by (intro takeWhile_digits) simp
  moreover have "unat k < 2 ^ 63 \<longleftrightarrow> uint k < 2 ^ 63" for k :: uint64
    using of_nat_less_iff [of "unat k" "2 ^ 63", where ?'a = int] by simp
  ultimately show ?thesis unfolding binds_verify_def
    by (simp add: demo_bind_def demo_dump_def digits_value_to_string Let_def)
qed

definition demo_verified :: response where
  "demo_verified = fst (run_alone (serve demo_engine (demo_draws []) (Post_verify \<lparr>vq_SessionTicket = ''t1'', vq_PlayerId = 1\<rparr>)) demo_accounts)"

definition chain_parse :: "string \<Rightarrow> parsed" where
  "chain_parse s = Json (JObject [(''success'', JBool True), (''playerInfo'', JObject [(''playerId'', JUint 1), (''name'', JString ''Ann''),
     (''hp'', JUint 100), (''maxHp'', JUint 100)]), (''message'', JString ''Session and player verification successful.'')])"

definition chain_login :: login_request where
  "chain_login = \<lparr>lr_session = 0, lr_commandId = 3, lr_ticket = ''t1'', lr_playerId = 1\<rparr>"

lemma demo_chain_run:
  "\<exists>H st ps. auth_run demo_engine empty_Store H st ps \<and> (Post_verify \<lparr>vq_SessionTicket = ''t1'', vq_PlayerId = 1\<rparr>, Reply demo_verified) \<in> set ps"
proof -
  obtain H ps where "auth_run demo_engine empty_Store H demo_registered ps" using demo_registered_run by blast
  from serve_alone_is_run [OF this] obtain H' ps' where "auth_run demo_engine empty_Store H' demo_accounts ps'"
    unfolding demo_accounts_def by blast
  from serve_alone_is_run [OF this] show ?thesis unfolding demo_verified_def by (meson in_set_conv_decomp)
qed

theorem login_end_to_end_witness:
  "\<exists>net'. login_answer (\<lambda>_. [2]) (\<lambda>_. None) True chain_login
      (OnRead chain_parse NoError \<lparr>res_status = 200, res_reason = ''OK'', res_body = ''v''\<rparr>) one_session = Returned net' \<and>
    s_playerId (store net' 0) = 1 \<and> (\<exists>d call u. dr_guid d = ''t1'' \<and> proves demo_engine d call u)"
proof -
  let ?res = "\<lparr>res_status = 200, res_reason = ''OK'', res_body = ''v''\<rparr>"
  let ?v = "\<lparr>vq_SessionTicket = ''t1'', vq_PlayerId = 1\<rparr>" and ?r = "OnRead chain_parse NoError ?res"
  obtain H st ps where run: "auth_run demo_engine empty_Store H st ps" "(Post_verify ?v, Reply demo_verified) \<in> set ps"
    using demo_chain_run by blast
  have start: "redis empty_Store = []" "rows_ok {Seen empty_Store} empty_Store"
    by (simp_all add: empty_Store_def rows_ok_def known_users_def known_players_def)
  have d: "demo_verified = VerifyResponse 200 True (Some \<lparr>pi_PlayerId = 1, pi_Name = ''Ann'', pi_PosX = Fin 0, pi_PosY = Fin 0,
      pi_Hp = 100, pi_MaxHp = 100\<rparr>) ''Session and player verification successful.''" by code_simp
  have res: "carries chain_parse ?res demo_verified"
    unfolding d by (simp add: carries_def carries_info_def chain_parse_def json_number_def)
  have bind: "demo_bind (rq_body (Run demo_dump ''h'' (lr_ticket chain_login) (lr_playerId chain_login))) = Some ?v"
    using demo_binds by (simp add: binds_verify_def Run_def chain_login_def)
  have s: "store one_session 0 = mk_Session 0" by (simp add: one_session_def new_session_def empty_Net_def)
  have r: "vr_success ?r" "vr_playerId ?r = 1" by code_simp+
  obtain net' where n: "login_answer (\<lambda>_. [2]) (\<lambda>_. None) True chain_login ?r one_session = Returned net'" "s_playerId (store net' 0) = 1"
    using r s by (auto simp: login_answer_def chain_login_def IsConnected_def mk_Session_def Let_def upd_session_def SetPlayerId_def Send_def)
  have "\<exists>d call u. dr_guid d = ''t1'' \<and> proves demo_engine d call u"
    using login_end_to_end [OF run(1) start demo_binds bind run(2) res n(1), of 0] n(2) s
    by (auto simp: mk_Session_def chain_login_def)
  then show ?thesis using n by blast
qed

end
