(* ===== verification/Write_Loop.thy ===== *)
theory Write_Loop
  imports Sessions "HOL-Library.Sublist"
begin

text \<open>
  \<open>Session::WriteLoop\<close> of \<open>src/Network/Session.cpp\<close> against the threads that send and
  disconnect.  \<open>Send\<close> and \<open>SendBatch\<close> put a buffer into the queue and then call
  \<open>m_timer.cancel_one()\<close>; the loop tests the socket, tries the queue, and waits for the timer
  when it is empty; \<open>Disconnect\<close> cancels the timer, closes the socket and drains the queue.  These
  are separate steps of different threads.

  The expiry of \<open>m_timer\<close> is never set.  What a wait on such a timer does is up to \<open>asio\<close>, whose
  documentation asks for the expiry to be set first, so it is a parameter: \<open>expired\<close> says that
  the wait completes at once.
\<close>

section \<open>The loop\<close>

text \<open>
  Where the loop is: before the test of \<open>is_open\<close>, before \<open>try_dequeue\<close>, in \<open>async_write\<close>, between
  the empty queue and the start of the wait, in the wait, or gone.  A write that starts on a
  socket that has been closed in the meantime transfers nothing.
\<close>

datatype writer = Checking | Looking | Sending bool "byte list" | Deciding | Waiting | Left

record wstate =
  w_session :: Session
  w_writer :: writer
  w_sent :: "byte list" \<comment> \<open>what the socket has taken\<close>
  w_signals :: nat \<comment> \<open>senders between \<open>enqueue\<close> and \<open>cancel_one\<close>\<close>
  w_packets :: "byte list list" \<comment> \<open>the packets that were ever queued\<close>

definition fresh_writer :: "uint64 \<Rightarrow> wstate" where
  "fresh_writer i = \<lparr>w_session = mk_Session i, w_writer = Checking, w_sent = [], w_signals = 0, w_packets = []\<rparr>"

abbreviation w_open :: "wstate \<Rightarrow> bool" where "w_open s \<equiv> IsConnected (w_session s)"
abbreviation w_queue :: "wstate \<Rightarrow> byte list list" where "w_queue s \<equiv> m_writeQueue (w_session s)"

inductive loop_step :: "bool \<Rightarrow> wstate \<Rightarrow> wstate \<Rightarrow> bool" for expired where
  goes_in: "w_writer s = Checking \<Longrightarrow> w_open s \<Longrightarrow> loop_step expired s (s\<lparr>w_writer := Looking\<rparr>)"
| leaves: "w_writer s = Checking \<Longrightarrow> \<not> w_open s \<Longrightarrow> loop_step expired s (s\<lparr>w_writer := Left\<rparr>)"
| takes: "w_writer s = Looking \<Longrightarrow> w_queue s = b # q \<Longrightarrow>
    loop_step expired s (s\<lparr>w_writer := Sending (w_open s) b, w_session := (w_session s)\<lparr>m_writeQueue := q\<rparr>\<rparr>)"
| finds_nothing: "w_writer s = Looking \<Longrightarrow> w_queue s = [] \<Longrightarrow> loop_step expired s (s\<lparr>w_writer := Deciding\<rparr>)"
| wrote: "w_writer s = Sending True b \<Longrightarrow> loop_step expired s (s\<lparr>w_writer := Checking, w_sent := w_sent s @ b\<rparr>)"
| waits: "w_writer s = Deciding \<Longrightarrow> loop_step expired s (s\<lparr>w_writer := Waiting\<rparr>)"
| expires: "w_writer s = Waiting \<Longrightarrow> expired \<Longrightarrow> loop_step expired s (s\<lparr>w_writer := Checking\<rparr>)"

text \<open>\<open>cancel_one\<close> and \<open>cancel\<close> wake a wait that has begun, and nothing else.\<close>

definition wake :: "writer \<Rightarrow> writer" where
  "wake w = (if w = Waiting then Checking else w)"

text \<open>
  The others: a sender enqueues a packet or a batch, unless the batch is dropped, and later it
  signals; \<open>Disconnect\<close> cancels the timer, closes the socket and drains the queue; a write fails,
  after the socket has taken some of the bytes, and its handler disconnects.
\<close>

definition closed_socket :: "Session \<Rightarrow> Session" where
  "closed_socket s = s\<lparr>s_open := False\<rparr>"

inductive other_step :: "wstate \<Rightarrow> wstate \<Rightarrow> bool" where
  sends: "other_step s (s\<lparr>w_session := Send (w_session s) d, w_packets := w_packets s @ [d], w_signals := w_signals s + 1\<rparr>)"
| sends_batch: "SendBatch (w_session s) ds \<noteq> w_session s \<Longrightarrow>
    other_step s (s\<lparr>w_session := SendBatch (w_session s) ds, w_packets := w_packets s @ ds, w_signals := w_signals s + 1\<rparr>)"
| signals: "0 < w_signals s \<Longrightarrow> other_step s (s\<lparr>w_signals := w_signals s - 1, w_writer := wake (w_writer s)\<rparr>)"
| cancels: "other_step s (s\<lparr>w_writer := wake (w_writer s)\<rparr>)"
| closes: "other_step s (s\<lparr>w_session := closed_socket (w_session s)\<rparr>)"
| drains: "\<not> w_open s \<Longrightarrow> other_step s (s\<lparr>w_session := (w_session s)\<lparr>m_writeQueue := tl (w_queue s)\<rparr>\<rparr>)"
| write_fails: "w_writer s = Sending began b \<Longrightarrow>
    other_step s (s\<lparr>w_session := closed_socket (w_session s), w_writer := Left, w_sent := w_sent s @ (if began then take k b else [])\<rparr>)"

inductive_cases loop_stepE: "loop_step expired s s'"
inductive_cases other_stepE: "other_step s s'"

abbreviation writer_run :: "bool \<Rightarrow> wstate \<Rightarrow> wstate \<Rightarrow> bool" where
  "writer_run expired \<equiv> (\<lambda>s s'. loop_step expired s s' \<or> other_step s s')\<^sup>*\<^sup>*"

section \<open>What the peer receives\<close>

fun in_flight :: "writer \<Rightarrow> byte list" where
  "in_flight (Sending began b) = (if began then b else [])"
| "in_flight _ = []"

text \<open>
  While the socket is open, every byte is sent, in flight or in the queue; afterwards what has
  been sent is a prefix.
\<close>

definition wire :: "byte list list \<Rightarrow> byte list" where
  "wire packets = concat (map frame packets)"

definition writer_ok :: "wstate \<Rightarrow> bool" where
  "writer_ok s \<longleftrightarrow> prefix (w_sent s @ in_flight (w_writer s)) (wire (w_packets s)) \<and>
     (w_open s \<longrightarrow> wire (w_packets s) = w_sent s @ in_flight (w_writer s) @ concat (w_queue s) \<and> (\<nexists>b. w_writer s = Sending False b))"

lemma wake_simps [simp]: "in_flight (wake w) = in_flight w" "wake w = Sending began b \<longleftrightarrow> w = Sending began b" "wake w = Left \<longleftrightarrow> w = Left"
  by (cases w; simp add: wake_def)+

lemma closed_socket_simps [simp]: "IsConnected (closed_socket s) = False" "m_writeQueue (closed_socket s) = m_writeQueue s"
  by (simp_all add: closed_socket_def IsConnected_def)

lemma queue_update [simp]: "IsConnected (s\<lparr>m_writeQueue := q\<rparr>) = IsConnected s" "IsConnected (Send s d) = IsConnected s"
  by (simp_all add: IsConnected_def Send_def)

lemma wire_append [simp]: "wire (ps @ qs) = wire ps @ wire qs"
  by (simp add: wire_def)

lemma SendBatch_accepted:
  "SendBatch s ds \<noteq> s \<Longrightarrow> SendBatch s ds = s\<lparr>m_writeQueue := m_writeQueue s @ [wire ds]\<rparr>"
  by (simp add: SendBatch_def wire_def split: if_splits option.splits)

lemma loop_step_ok: "loop_step expired s s' \<Longrightarrow> writer_ok s \<Longrightarrow> writer_ok s'"
  by (induction rule: loop_step.induct) (auto simp: writer_ok_def)

lemma other_step_ok: "other_step s s' \<Longrightarrow> writer_ok s \<Longrightarrow> writer_ok s'"
proof (induction rule: other_step.induct)
  case (sends s d)
  then show ?case by (simp add: writer_ok_def Send_def wire_def IsConnected_def prefix_append)
next
  case (sends_batch s ds)
  then show ?case unfolding SendBatch_accepted [OF sends_batch(1)] by (simp add: writer_ok_def prefix_append)
next
  case (write_fails s began b k)
  have "prefix (w_sent s @ (if began then take k b else [])) (w_sent s @ in_flight (w_writer s))"
    using write_fails(1) by (simp add: take_is_prefix)
  then have "prefix (w_sent s @ (if began then take k b else [])) (wire (w_packets s))"
    using write_fails(2) unfolding writer_ok_def by (blast intro: prefix_order.trans)
  then show ?case by (simp add: writer_ok_def)
qed (auto simp: writer_ok_def)

lemma writer_run_ok: "writer_run expired s s' \<Longrightarrow> writer_ok s \<Longrightarrow> writer_ok s'"
  by (induction rule: rtranclp_induct) (auto intro: loop_step_ok other_step_ok)

lemma fresh_writer_ok: "writer_ok (fresh_writer i)"
  by (simp add: writer_ok_def fresh_writer_def mk_Session_def wire_def)

section \<open>Properties\<close>

text \<open>A stream that is cut anywhere still parses to the first packets.\<close>

lemma ReadLoop_cut:
  assumes "list_all body_ok ps" "prefix w (wire ps)"
  shows "prefix (fst (ReadLoop w)) ps"
proof -
  obtain rest where w: "list_all body_ok (fst (ReadLoop w))" "w = wire (fst (ReadLoop w)) @ rest"
    using ReadLoop_sound unfolding wire_def by blast
  obtain tail where "wire ps = w @ tail" using assms(2) by (auto simp: prefix_def)
  then have all: "wire ps = wire (fst (ReadLoop w)) @ rest @ tail" using w(2) by (metis append_assoc)
  have "ps = fst (ReadLoop (wire ps))"
    using ReadLoop_frames [OF assms(1), of "[]"] by (simp add: wire_def ReadLoop.simps [of "[]"])
  also have "\<dots> = fst (ReadLoop w) @ fst (ReadLoop (rest @ tail))"
    unfolding all using ReadLoop_frames [OF w(1)] by (simp add: wire_def)
  finally show ?thesis by (metis prefixI)
qed


text \<open>A sender queues a batch of three packets, the loop takes it and the write breaks after the first two, eleven bytes.\<close>

definition cut_write :: wstate where
  "cut_write = \<lparr>w_session = closed_socket (mk_Session 4), w_writer = Left, w_sent = frame [7] @ frame [8, 9], w_signals = 1,
     w_packets = [[7], [8, 9], [10]]\<rparr>"

lemma cut_write_run: "writer_run expired (fresh_writer 4) cut_write"
proof -
  let ?ds = "[[7], [8, 9], [10]] :: byte list list"
  define s1 where "s1 = (fresh_writer 4)\<lparr>w_session := (mk_Session 4)\<lparr>m_writeQueue := [wire ?ds]\<rparr>, w_packets := ?ds, w_signals := 1\<rparr>"
  define s2 where "s2 = s1\<lparr>w_writer := Looking\<rparr>"
  define s3 where "s3 = s1\<lparr>w_writer := Sending True (wire ?ds), w_session := mk_Session 4\<rparr>"
  have batch: "SendBatch (mk_Session 4) ?ds = (mk_Session 4)\<lparr>m_writeQueue := [wire ?ds]\<rparr>" by code_simp
  have "SendBatch (mk_Session 4) ?ds \<noteq> mk_Session 4" unfolding batch by (simp add: mk_Session_def)
  then have "other_step (fresh_writer 4) s1" using sends_batch [of "fresh_writer 4" ?ds] by (simp add: s1_def fresh_writer_def batch)
  moreover have "loop_step expired s1 s2" using goes_in [of s1 expired]
    by (simp add: s1_def s2_def fresh_writer_def IsConnected_def mk_Session_def)
  moreover have "loop_step expired s2 s3" using takes [of s2 "wire ?ds" "[]" expired]
    by (simp add: s1_def s2_def s3_def fresh_writer_def IsConnected_def mk_Session_def)
  moreover have "other_step s3 cut_write"
    using write_fails [of s3 True "wire ?ds" 11] by (simp add: s1_def s3_def fresh_writer_def cut_write_def wire_def frame_def)
  ultimately show ?thesis
    by (intro converse_rtranclp_into_rtranclp [of _ "fresh_writer 4" s1] converse_rtranclp_into_rtranclp [of _ s1 s2]
        converse_rtranclp_into_rtranclp [of _ s2 s3] r_into_rtranclp) blast+
qed


text \<open>How far the loop is from having sent everything.\<close>

fun writer_rank :: "writer \<Rightarrow> nat" where
  "writer_rank (Sending _ _) = 2"
| "writer_rank Deciding = 3"
| "writer_rank Waiting = 2"
| "writer_rank Checking = 1"
| "writer_rank _ = 0"

definition unsent :: "wstate \<Rightarrow> nat" where
  "unsent s = (if w_queue s = [] \<and> in_flight (w_writer s) = [] then 0 else 3 * length (w_queue s) + writer_rank (w_writer s) - 1)"

lemma loop_step_unsent: "loop_step expired s s' \<Longrightarrow> w_open s \<Longrightarrow> unsent s' \<le> unsent s - 1"
  by (induction rule: loop_step.induct) (auto simp: unsent_def)

lemma loop_step_keeps: "loop_step expired s s' \<Longrightarrow> w_open s \<Longrightarrow>
    w_open s' \<and> w_packets s' = w_packets s \<and> (w_writer s \<noteq> Left \<longrightarrow> w_writer s' \<noteq> Left)"
  by (induction rule: loop_step.induct) auto

lemma loop_steps:
  "(loop_step expired ^^ n) s s' \<Longrightarrow> w_open s \<Longrightarrow> writer_ok s \<Longrightarrow>
   w_open s' \<and> writer_ok s' \<and> w_packets s' = w_packets s \<and> unsent s' \<le> unsent s - n"
proof (induction n arbitrary: s')
  case (Suc n)
  then obtain s1 where "(loop_step expired ^^ n) s s1" "loop_step expired s1 s'" by auto
  then show ?case using Suc.IH [of s1] Suc.prems loop_step_keeps [of expired s1 s'] loop_step_unsent [of expired s1 s'] loop_step_ok by fastforce
qed simp

lemma loop_never_stuck: "w_open s \<Longrightarrow> writer_ok s \<Longrightarrow> w_writer s \<noteq> Left \<Longrightarrow> \<exists>s'. loop_step True s s'"
  by (cases "w_writer s"; cases "w_queue s") (auto simp: writer_ok_def intro: loop_step.intros)

text \<open>
  C31: if a wait on the timer completes at once, everything that is queued on an open session is
  sent: the loop can always go on, and after at most three steps per queued buffer and two more,
  the socket has taken the frames of all packets that were ever queued.
\<close>

theorem writer_drains:
  assumes "writer_run True (fresh_writer i) s" "w_open s" "w_writer s \<noteq> Left"
  shows "(\<exists>s'. (loop_step True ^^ n) s s') \<and>
    (\<forall>s'. (loop_step True ^^ n) s s' \<and> 3 * length (w_queue s) + 2 \<le> n \<longrightarrow> w_sent s' = concat (map frame (w_packets s)))"
proof (intro conjI allI impI)
  note ok = writer_run_ok [OF assms(1) fresh_writer_ok]
  have "\<exists>s'. (loop_step True ^^ n) s s' \<and> w_open s' \<and> writer_ok s' \<and> w_writer s' \<noteq> Left"
  proof (induction n)
    case (Suc n)
    then obtain s1 where "(loop_step True ^^ n) s s1" "w_open s1" "writer_ok s1" "w_writer s1 \<noteq> Left" by blast
    then show ?case using loop_never_stuck [of s1] loop_step_keeps [of True s1] loop_step_ok [of True s1] by auto
  qed (use assms ok in simp)
  then show "\<exists>s'. (loop_step True ^^ n) s s'" by blast
  fix s'
  assume n: "(loop_step True ^^ n) s s' \<and> 3 * length (w_queue s) + 2 \<le> n"
  note l = loop_steps [OF conjunct1 [OF n] assms(2) ok]
  have "writer_rank (w_writer s) \<le> 3" by (cases "w_writer s") simp_all
  then have "unsent s' = 0" using l n by (auto simp: unsent_def split: if_splits)
  then have "w_queue s' = [] \<and> in_flight (w_writer s') = []"
    by (cases "w_writer s'"; cases "w_queue s'") (auto simp: unsent_def split: if_splits)
  then show "w_sent s' = concat (map frame (w_packets s))" using l by (auto simp: writer_ok_def wire_def)
qed

theorem writer_drains_witness:
  "\<exists>s'. (loop_step True ^^ 5) ((fresh_writer 4)\<lparr>w_session := Send (mk_Session 4) [1], w_packets := [[1]], w_signals := 1\<rparr>) s' \<and>
     w_sent s' = [1, 0, 0, 0, 1]"
proof -
  let ?s = "(fresh_writer 4)\<lparr>w_session := Send (mk_Session 4) [1], w_packets := [[1]], w_signals := 1\<rparr>"
  have "other_step (fresh_writer 4) ?s" using sends [of "fresh_writer 4" "[1]"] by (simp add: fresh_writer_def)
  then have "writer_run True (fresh_writer 4) ?s" by blast
  moreover have "frame [1] = [1, 0, 0, 0, 1]" by code_simp
  ultimately show ?thesis using writer_drains [of 4 ?s 5]
    by (auto simp: fresh_writer_def IsConnected_def Send_def mk_Session_def simp del: relpowp.simps)
qed

text \<open>
  If the wait does not complete at once, a wake-up can be lost: a sender that enqueues and
  signals between the loop's look into the queue and the start of its wait leaves the loop
  waiting with a packet in the queue, and no step of the loop is possible until somebody sends
  again.
\<close>

lemma lost_wakeup:
  "\<exists>s. writer_run False (fresh_writer i) s \<and> w_open s \<and> w_queue s = [frame d] \<and> w_signals s = 0 \<and> (\<nexists>s'. loop_step False s s')"
proof -
  define s0 where "s0 = (fresh_writer i)\<lparr>w_writer := Looking\<rparr>"
  define s1 where "s1 = (fresh_writer i)\<lparr>w_writer := Deciding\<rparr>"
  define s2 where "s2 = s1\<lparr>w_session := Send (mk_Session i) d, w_packets := [d], w_signals := 1\<rparr>"
  define s3 where "s3 = s2\<lparr>w_signals := 0\<rparr>"
  define s4 where "s4 = s3\<lparr>w_writer := Waiting\<rparr>"
  note defs = s0_def s1_def s2_def s3_def s4_def fresh_writer_def mk_Session_def IsConnected_def wake_def Send_def
  have "loop_step False (fresh_writer i) s0" using goes_in [of "fresh_writer i" False] by (simp add: defs)
  moreover have "loop_step False s0 s1" using finds_nothing [of s0 False] by (simp add: defs)
  moreover have "other_step s1 s2" using sends [of s1 d] by (simp add: defs)
  moreover have "other_step s2 s3" using signals [of s2] by (simp add: defs)
  moreover have "loop_step False s3 s4" using waits [of s3 False] by (simp add: defs)
  ultimately have "writer_run False (fresh_writer i) s4"
    by (intro converse_rtranclp_into_rtranclp [of _ "fresh_writer i" s0] converse_rtranclp_into_rtranclp [of _ s0 s1]
        converse_rtranclp_into_rtranclp [of _ s1 s2] converse_rtranclp_into_rtranclp [of _ s2 s3] r_into_rtranclp) blast+
  moreover have "\<nexists>s'. loop_step False s4 s'" by (auto elim: loop_stepE simp: defs)
  ultimately show ?thesis by (intro exI [of _ s4]) (simp add: defs)
qed

end
