(* ===== verification/Logging.thy ===== *)
theory Logging
  imports Main_Program
begin

text \<open>
  \<open>src/Utils/Logger.h\<close>: the static logger, its levels and sinks, and the logging macros, which
  dereference the logger unchecked; \<open>Session::HandleError\<close>, which only chooses a level; and
  \<open>main\<close> from its first statement.  What spdlog does inside (formatting, queues, files) is left
  out; that a message passes a logger and a sink when its level is not below theirs is spdlog's
  contract.
\<close>

section \<open>Levels\<close>

datatype log_level = L_trace | L_debug | L_info | L_warn | L_err | L_critical | L_off

fun level_rank :: "log_level \<Rightarrow> nat" where
  "level_rank L_trace = 0"
| "level_rank L_debug = 1"
| "level_rank L_info = 2"
| "level_rank L_warn = 3"
| "level_rank L_err = 4"
| "level_rank L_critical = 5"
| "level_rank L_off = 6"

lemma level_rank_inj: "level_rank a = level_rank b \<Longrightarrow> a = b"
  by (cases a; cases b) simp_all

instantiation log_level :: linorder
begin

definition less_eq_log_level :: "log_level \<Rightarrow> log_level \<Rightarrow> bool" where
  "less_eq_log_level a b \<longleftrightarrow> level_rank a \<le> level_rank b"

definition less_log_level :: "log_level \<Rightarrow> log_level \<Rightarrow> bool" where
  "less_log_level a b \<longleftrightarrow> level_rank a < level_rank b"

instance
  by standard (auto simp: less_eq_log_level_def less_log_level_def intro: level_rank_inj)

end

section \<open>The logger\<close>

datatype log_sink = Console | Daily_file

record logger =
  lg_level :: log_level
  lg_sinks :: "(log_sink \<times> log_level) list"

text \<open>\<open>Logger::s_logger\<close>; null until \<open>Init\<close> has run.\<close>

type_synonym Logger = "logger option"

text \<open>
  How the calls into spdlog end: no exception; a \<open>spdlog_ex\<close> before \<open>s_logger\<close> is assigned (the
  thread pool or the log file) or after it (the registration); any other exception, which
  \<open>Init\<close> does not catch and which nothing around it catches either.
\<close>

datatype init_event = Init_fine | Init_fails_early | Init_fails_late | Init_other_exception

definition server_logger :: logger where
  "server_logger = \<lparr>lg_level = L_warn, lg_sinks = [(Console, L_warn), (Daily_file, L_debug)]\<rparr>"

definition Logger_Init :: "init_event \<Rightarrow> Logger \<Rightarrow> Logger outcome" where
  "Logger_Init ev s_logger = (case s_logger of
      Some lg \<Rightarrow> Returned (Some lg)
    | None \<Rightarrow> (case ev of
          Init_fine \<Rightarrow> Returned (Some server_logger)
        | Init_fails_early \<Rightarrow> Returned None
        | Init_fails_late \<Rightarrow> Returned (Some server_logger)
        | Init_other_exception \<Rightarrow> Crashed))"

definition logging_threads :: "nat \<Rightarrow> nat" where
  "logging_threads hardware_concurrency = (if 4 < hardware_concurrency then 2 else 1)"

text \<open>The macros: \<open>Get()->level(...)\<close>.  The result says which sinks get the message.\<close>

definition sinks_of :: "logger \<Rightarrow> log_level \<Rightarrow> log_sink list" where
  "sinks_of lg l = (if lg_level lg \<le> l then map fst (filter (\<lambda>(_, least). least \<le> l) (lg_sinks lg)) else [])"

definition LOG :: "Logger \<Rightarrow> log_level \<Rightarrow> log_sink list outcome" where
  "LOG s_logger l = (case s_logger of None \<Rightarrow> Crashed | Some lg \<Rightarrow> Returned (sinks_of lg l))"

section \<open>Errors of a session\<close>

datatype socket_error = Sock_eof | Sock_operation_aborted | Sock_bad_descriptor | Sock_other int

definition HandleError :: "Logger \<Rightarrow> socket_error \<Rightarrow> log_sink list outcome" where
  "HandleError s_logger ec =
     (if ec = Sock_eof \<or> ec = Sock_operation_aborted then LOG s_logger L_info
      else if ec = Sock_bad_descriptor then LOG s_logger L_warn
      else LOG s_logger L_err)"

section \<open>The whole of main\<close>

text \<open>\<open>Logger::Init()\<close>, the first message, and everything after it.\<close>

definition program_main :: "init_event \<Rightarrow> main_env \<Rightarrow> boot" where
  "program_main ev me = (case Logger_Init ev None of
      Returned s_logger \<Rightarrow> (case LOG s_logger L_info of Crashed \<Rightarrow> Trapped | _ \<Rightarrow> main_start me)
    | _ \<Rightarrow> Trapped)"

section \<open>Properties\<close>



end
