(* ===== verification/Tick_Interleaving.thy ===== *)
theory Tick_Interleaving
  imports Game_Properties Jobs
begin

text \<open>
  A tick is not atomic: while \<open>GameManager::GameLoop\<close> collects and processes its commands, the
  workers and the network threads go on pushing into the game queue.  Here the pushes are
  explicit, before each pop, before each processed command and later, and a tick with them is
  shown to be an atomic tick between two groups of pushes.  Also: commands of a session that is
  gone have no effect, in whatever order the queue hands them out.
\<close>

section \<open>A tick with pushes in between\<close>

definition push_list :: "GameCommand list \<Rightarrow> GameCommand shut_queue \<Rightarrow> GameCommand shut_queue" where
  "push_list cs q = fold (\<lambda>c q. PushGameCommand q c) cs q"

definition push_commands :: "GameCommand list \<Rightarrow> Net \<Rightarrow> Net" where
  "push_commands cs net = net\<lparr>gameLogicQueue := push_list cs (gameLogicQueue net)\<rparr>"

text \<open>\<open>arr i\<close> is what the other threads push before pop \<open>i\<close>.\<close>

function collect_during ::
  "(nat \<Rightarrow> GameCommand list) \<Rightarrow> (nat \<Rightarrow> bool) \<Rightarrow> (nat \<Rightarrow> bool) \<Rightarrow> nat \<Rightarrow> GameCommand list \<Rightarrow> GameCommand shut_queue
   \<Rightarrow> GameCommand list \<times> GameCommand shut_queue" where
  "collect_during arr expired running limit commandBatch q =
     (if length commandBatch < limit then
        if expired (length commandBatch) then (commandBatch, q)
        else (case TryPopGameCommand (push_list (arr (length commandBatch)) q) of
            (None, q') \<Rightarrow> (commandBatch, q')
          | (Some c, q') \<Rightarrow> if \<not> running (length commandBatch) then (commandBatch, q')
              else collect_during arr expired running limit (commandBatch @ [c]) q')
      else (commandBatch, q))"
  by pat_completeness auto
termination
  by (relation "measure (\<lambda>(a, e, r, limit, commandBatch, q). limit - length commandBatch)") auto

declare collect_during.simps [simp del]

text \<open>\<open>mid i\<close> is what they push before command \<open>i\<close> of the batch is processed, \<open>late\<close> what they push afterwards.\<close>

definition process_during ::
  "(UnifiedPacket \<Rightarrow> byte list) \<Rightarrow> tick_env \<Rightarrow> (nat \<Rightarrow> GameCommand list) \<Rightarrow> GameCommand list \<Rightarrow> GameManager \<times> Net \<Rightarrow> GameManager \<times> Net" where
  "process_during enc te mid batch = fold (\<lambda>(i, command) (gm, net).
     ProcessGameCommand enc (te_cmd te i) gm (push_commands (mid i) net) command) (enumerate 0 batch)"

definition count_commands :: "GameCommand list \<Rightarrow> GameManager \<Rightarrow> GameManager" where
  "count_commands batch gm = (if batch = [] then gm else gm\<lparr>m_performanceStats := (m_performanceStats gm)
     \<lparr>totalCommandsProcessed := totalCommandsProcessed (m_performanceStats gm) + of_nat (length batch)\<rparr>\<rparr>)"

definition tick_during ::
  "(UnifiedPacket \<Rightarrow> byte list) \<Rightarrow> tick_env \<Rightarrow> (nat \<Rightarrow> GameCommand list) \<Rightarrow> (nat \<Rightarrow> GameCommand list) \<Rightarrow> GameCommand list
   \<Rightarrow> time_point \<Rightarrow> GameManager \<Rightarrow> Net \<Rightarrow> time_point \<times> GameManager \<times> Net" where
  "tick_during enc te arr mid late lastTickTime gm net =
     (let deltaTime = duration_cast ns_per_ms (te_now te - lastTickTime) in
      if deltaTime < m_tickDuration gm \<or> m_commandBatchSize gm < 0 then (lastTickTime, gm, push_commands late net)
      else case collect_during arr (te_expired te) (te_running te) (nat (m_commandBatchSize gm)) [] (gameLogicQueue net) of
        (batch, q) \<Rightarrow> (case process_during enc te mid batch (gm, net\<lparr>gameLogicQueue := q\<rparr>) of
          (gm, net) \<Rightarrow>
            let gm = SendWorldSnapshots enc (te_server te) (UpdateWorld (delta_seconds deltaTime) (count_commands batch gm))
            in (case FlushAllBatches gm (push_commands late net) of (gm, net) \<Rightarrow>
                (te_now te, report_if_due (add_times te gm), net))))"

section \<open>Pushing commutes with the rest of a tick\<close>

lemma push_list_eq: "push_list cs q = (if m_shuttingDown q then q else q\<lparr>q_items := q_items q @ cs\<rparr>)"
proof (induction cs arbitrary: q)
  case Nil
  then show ?case by (simp add: push_list_def)
next
  case (Cons c cs)
  then show ?case by (simp add: push_list_def PushGameCommand_def)
qed

lemma push_list_append: "push_list (cs @ ds) q = push_list ds (push_list cs q)"
  by (simp add: push_list_def)

lemma push_commands_append: "push_commands (cs @ ds) net = push_commands ds (push_commands cs net)"
  by (simp add: push_commands_def push_list_append)

lemma push_commands_Nil [simp]: "push_commands [] net = net"
  by (simp add: push_commands_def push_list_def)

named_theorems queue_free \<open>operations that neither read nor change the game queue\<close>

lemma queue_free_upd [queue_free]: "upd_session (push_commands cs net) a f = push_commands cs (upd_session net a f)"
  by (simp add: upd_session_def push_commands_def)

lemma queue_free_reads [queue_free]: "store (push_commands cs net) = store net" "GetSession (push_commands cs net) = GetSession net"
  by (simp_all add: push_commands_def GetSession_def fun_eq_iff)

lemma queue_free_send [queue_free]: "send_to (push_commands cs net) sid bytes = push_commands cs (send_to net sid bytes)"
  by (simp add: send_to_def queue_free split: option.split)

lemma queue_free_fold:
  "(\<And>x net. f x (push_commands cs net) = push_commands cs (f x net)) \<Longrightarrow> fold f xs (push_commands cs net) = push_commands cs (fold f xs net)"
  by (induction xs arbitrary: net) simp_all

lemma queue_free_broadcast [queue_free]:
  "BroadcastPlayerJoined enc gm (push_commands cs net) k = push_commands cs (BroadcastPlayerJoined enc gm net k)"
  "BroadcastPlayerLeft enc gm (push_commands cs net) k = push_commands cs (BroadcastPlayerLeft enc gm net k)"
  by (auto simp: BroadcastPlayerJoined_def BroadcastPlayerLeft_def Let_def queue_free intro!: queue_free_fold split: option.split)

lemma queue_free_response:
  "SendEnterZoneResponse enc gm (push_commands cs net) k s = map_prod id (push_commands cs) (SendEnterZoneResponse enc gm net k s)"
  by (simp add: SendEnterZoneResponse_def queue_free Let_def split: option.split prod.split)

lemma queue_free_enter:
  "HandleEnterZone enc env gm (push_commands cs net) d s = map_prod id (push_commands cs) (HandleEnterZone enc env gm net d s)"
  by (simp add: HandleEnterZone_def queue_free_response queue_free Let_def split: option.split prod.split)

lemma queue_free_command:
  "ProcessGameCommand enc env gm (push_commands cs net) c = map_prod id (push_commands cs) (ProcessGameCommand enc env gm net c)"
  by (simp add: ProcessGameCommand_def HandlePlayerDisconnect_def queue_free_enter queue_free Let_def
      split: option.split GameCommandPayload.split)

lemma queue_free_flush: "FlushAllBatches gm (push_commands cs net) = map_prod id (push_commands cs) (FlushAllBatches gm net)"
  by (auto simp: FlushAllBatches_def flush_batch_def queue_free intro!: queue_free_fold split: option.split)

lemma process_commands_push:
  "fold (\<lambda>(i, c) (gm, net). ProcessGameCommand enc (te_cmd te i) gm (push_commands (mid i) net) c) xs (gm, push_commands cs net) =
   map_prod id (push_commands (cs @ concat (map (mid \<circ> fst) xs)))
     (fold (\<lambda>(i, c) (gm, net). ProcessGameCommand enc (te_cmd te i) gm net c) xs (gm, net))"
proof (induction xs arbitrary: gm net cs)
  case (Cons x xs)
  obtain i c where x: "x = (i, c)" by fastforce
  obtain gm1 net1 where p: "ProcessGameCommand enc (te_cmd te i) gm net c = (gm1, net1)" by fastforce
  have "ProcessGameCommand enc (te_cmd te i) gm (push_commands (mid i) (push_commands cs net)) c = (gm1, push_commands (cs @ mid i) net1)"
    using queue_free_command [of enc "te_cmd te i" gm "cs @ mid i" net c] p by (simp add: push_commands_append)
  then show ?case using Cons.IH [of gm1 "cs @ mid i" net1] p by (simp add: x)
qed simp

lemma process_during_push:
  "process_during enc te mid batch (gm, net) = map_prod id (push_commands (concat (map mid [0..<length batch])))
     (fold (\<lambda>(i, c) (gm, net). ProcessGameCommand enc (te_cmd te i) gm net c) (enumerate 0 batch) (gm, net))"
proof -
  have "map (mid \<circ> fst) (enumerate 0 batch) = map mid [0..<length batch]"
    by (simp flip: map_map add: map_fst_enumerate)
  then show ?thesis using process_commands_push [of enc te mid "enumerate 0 batch" gm "[]" net] by (simp add: process_during_def)
qed

text \<open>A pop from a queue that is not empty commutes with a push.\<close>

lemma pop_push: "TryPopGameCommand q = (Some c, q') \<Longrightarrow> TryPopGameCommand (push_list cs q) = (Some c, push_list cs q')"
  by (auto simp: TryPopGameCommand_def try_dequeue_def push_list_eq split: list.splits)

lemma collect_during_atomic:
  "\<exists>n \<ge> length batch. collect_during arr expired running limit batch q =
     collect_commands expired running limit batch (push_list (concat (map arr [length batch..<n])) q)"
proof (induction arr expired running limit batch q rule: collect_during.induct)
  case (1 arr expired running limit batch q)
  let ?k = "length batch"
  show ?case
  proof (cases "?k < limit \<and> \<not> expired ?k")
    case False
    then show ?thesis
      by (intro exI [of _ ?k]) (auto simp: collect_during.simps [of arr] collect_commands.simps [of expired] push_list_def)
  next
    case go: True
    obtain r q' where pop: "TryPopGameCommand (push_list (arr ?k) q) = (r, q')" by fastforce
    show ?thesis
    proof (cases "r = None \<or> \<not> running ?k")
      case True
      then show ?thesis using go pop
        by (intro exI [of _ "Suc ?k"]) (auto simp: collect_during.simps [of arr] collect_commands.simps [of expired] split: option.split)
    next
      case False
      then obtain c where c: "r = Some c" "running ?k" by auto
      have "\<exists>n \<ge> length (batch @ [c]). collect_during arr expired running limit (batch @ [c]) q' =
          collect_commands expired running limit (batch @ [c]) (push_list (concat (map arr [length (batch @ [c])..<n])) q')"
        using go c pop by (intro "1.IH" [OF _ _ pop [unfolded c(1), symmetric] refl]) simp_all
      then obtain n where n: "Suc ?k \<le> n" "collect_during arr expired running limit (batch @ [c]) q' =
          collect_commands expired running limit (batch @ [c]) (push_list (concat (map arr [Suc ?k..<n])) q')" by auto
      have "TryPopGameCommand (push_list (concat (map arr [?k..<n])) q) = (Some c, push_list (concat (map arr [Suc ?k..<n])) q')"
        using pop_push [OF pop [unfolded c(1)]] n(1) by (simp add: upt_conv_Cons push_list_append)
      then show ?thesis using go c n pop
        by (intro exI [of _ n]) (simp add: collect_during.simps [of arr _ _ _ batch] collect_commands.simps [of expired running limit batch])
    qed
  qed
qed

section \<open>Properties\<close>

text \<open>
  C12: a tick during which other threads push commands at any point is an atomic tick.  Some of
  the commands that came while the batch was collected are as if they had been in the queue
  before the tick began, all the others as if they came after it had ended; the game, every
  session and the queue are exactly as after that.
\<close>

theorem tick_linearises:
  "\<exists>n k. tick_during enc te arr mid late t gm net =
     (case GameLoop_iteration enc te t gm (push_commands (concat (map arr [0..<n])) net) of
        (t', gm', net') \<Rightarrow> (t', gm', push_commands (concat (map mid [0..<k]) @ late) net'))"
proof -
  let ?dt = "duration_cast ns_per_ms (te_now te - t)"
  let ?step = "\<lambda>(i, c) (gm, net). ProcessGameCommand enc (te_cmd te i) gm net c"
  show ?thesis
  proof (cases "?dt < m_tickDuration gm \<or> m_commandBatchSize gm < 0")
    case True
    then have "tick_during enc te arr mid late t gm net =
        (case GameLoop_iteration enc te t gm (push_commands (concat (map arr [0..<0])) net) of
          (t', gm', net') \<Rightarrow> (t', gm', push_commands (concat (map mid [0..<0]) @ late) net'))"
      by (auto simp: tick_during_def GameLoop_iteration_def ProcessPendingCommands_def Let_def)
    then show ?thesis by blast
  next
    case False
    obtain n batch q where n: "collect_during arr (te_expired te) (te_running te) (nat (m_commandBatchSize gm)) [] (gameLogicQueue net) = (batch, q)"
      "collect_commands (te_expired te) (te_running te) (nat (m_commandBatchSize gm)) [] (push_list (concat (map arr [0..<n])) (gameLogicQueue net)) = (batch, q)"
      using collect_during_atomic [of "[]" arr "te_expired te" "te_running te" "nat (m_commandBatchSize gm)" "gameLogicQueue net"]
      by (metis list.size(3) prod.exhaust)
    obtain gm1 net1 where f: "fold ?step (enumerate 0 batch) (gm, net\<lparr>gameLogicQueue := q\<rparr>) = (gm1, net1)" by fastforce
    let ?early = "concat (map arr [0..<n])" and ?mid = "concat (map mid [0..<length batch])"
    have p: "ProcessPendingCommands enc te gm (push_commands ?early net) = Some (count_commands batch gm1, net1)"
      using False n(2) f by (simp add: ProcessPendingCommands_def push_commands_def count_commands_def)
    have "tick_during enc te arr mid late t gm net = (case GameLoop_iteration enc te t gm (push_commands ?early net) of
        (t', gm', net') \<Rightarrow> (t', gm', push_commands (?mid @ late) net'))"
      using False n(1) f unfolding tick_during_def GameLoop_iteration_def p
      by (simp add: process_during_push Let_def split_beta queue_free_flush flip: push_commands_append)
    then show ?thesis by blast
  qed
qed

text \<open>
  C19: nothing that a session sent has an effect once the session is gone.  The queue orders only
  the commands of one producing thread, so the notice that a session has ended can overtake
  commands of that session; but the session has left the table before the notice is pushed, and
  processing any mixture of such commands with notices is processing the notices alone.
\<close>

theorem stale_commands_void:
  assumes "\<forall>c \<in> snd ` set xs. (\<exists>d. payload c = PlayerDisconnectPayload d) \<or> GetSession net (senderSessionId c) = None"
  shows "fold (\<lambda>(i, c) (gm, net). ProcessGameCommand enc (te_cmd te i) gm net c) xs (gm, net) =
    fold (\<lambda>(i, c) (gm, net). ProcessGameCommand enc (te_cmd te i) gm net c)
      (filter (\<lambda>(i, c). case payload c of PlayerDisconnectPayload d \<Rightarrow> True | _ \<Rightarrow> False) xs) (gm, net)"
  using assms
proof (induction xs arbitrary: gm net)
  case (Cons x xs)
  obtain i c where x: "x = (i, c)" by fastforce
  show ?case
  proof (cases "\<exists>d. payload c = PlayerDisconnectPayload d")
    case True
    then obtain d where d: "payload c = PlayerDisconnectPayload d" by blast
    obtain gm1 net1 where p: "ProcessGameCommand enc (te_cmd te i) gm net c = (gm1, net1)" by fastforce
    have "GetSession (BroadcastPlayerLeft enc g net k) = GetSession net" for g k
      unfolding BroadcastPlayerLeft_def Let_def by (rule fold_keeps [where P = "\<lambda>n. GetSession n = GetSession net"]) auto
    then have "GetSession net1 = GetSession net"
      using p d by (auto simp: ProcessGameCommand_def HandlePlayerDisconnect_def Let_def split: if_splits option.splits)
    then show ?thesis using Cons.IH [of net1 gm1] Cons.prems p d by (simp add: x)
  next
    case False
    then have "GetSession net (senderSessionId c) = None" using Cons.prems x by auto
    then have "ProcessGameCommand enc (te_cmd te i) gm net c = (gm, net)"
      using False by (auto simp: ProcessGameCommand_def split: GameCommandPayload.split)
    then show ?thesis using False Cons by (simp add: x split: GameCommandPayload.split)
  qed
qed simp

definition leave_command :: "uint64 \<Rightarrow> uint64 \<Rightarrow> GameCommand" where
  "leave_command pid sid = \<lparr>commandId = 0, payload = PlayerDisconnectPayload \<lparr>pd_playerId = pid\<rparr>, senderSessionId = sid, timestamp = 0\<rparr>"

theorem stale_commands_void_witness:
  "fold (\<lambda>(i, c) (gm, net). ProcessGameCommand demo_enc (te_cmd (demo_tick 0) i) gm net c)
     [(0, leave_command 7 5), (1, enter_zone_command 7 5)] (demo_gm, demo_net) =
   ProcessGameCommand demo_enc (te_cmd (demo_tick 0) 0) demo_gm demo_net (leave_command 7 5)"
proof -
  have "GetSession demo_net 5 = None" by code_simp
  then show ?thesis
    using stale_commands_void [of "[(0, leave_command 7 5), (1, enter_zone_command 7 5)]" demo_net demo_enc "demo_tick 0" demo_gm]
    by (simp add: leave_command_def enter_zone_command_def)
qed

end
