(* ===== verification/Wire_Types.thy ===== *)
theory Wire_Types
  imports Program_Properties
begin

text \<open>
  The types of what goes over the wire.  A \<open>UnifiedPacket\<close> carries its kind twice, as the packet
  id and as the type of the union, and neither FlatBuffers nor the compiler makes them agree.
  Here: whatever the server queues for a client is a sequence of framed packets whose id and
  type agree and that are packets from the server to the client.
\<close>

section \<open>Well-typed packets\<close>

fun server_packet :: "UnifiedPacket \<Rightarrow> bool" where
  "server_packet \<lparr>up_id = i, up_data = Some (Packet_S_LoginSuccess _ _)\<rparr> \<longleftrightarrow> i = PacketId_S_LoginSuccess"
| "server_packet \<lparr>up_id = i, up_data = Some (Packet_S_LoginFailure _ _ _)\<rparr> \<longleftrightarrow> i = PacketId_S_LoginFailure"
| "server_packet \<lparr>up_id = i, up_data = Some (Packet_S_Chat _ _ _)\<rparr> \<longleftrightarrow> i = PacketId_S_Chat"
| "server_packet \<lparr>up_id = i, up_data = Some (Packet_S_WorldSnapshot _)\<rparr> \<longleftrightarrow> i = PacketId_S_WorldSnapshot"
| "server_packet \<lparr>up_id = i, up_data = Some (Packet_S_ZoneEntered _ _ _)\<rparr> \<longleftrightarrow> i = PacketId_S_ZoneEntered"
| "server_packet \<lparr>up_id = i, up_data = Some (Packet_S_PlayerJoined _)\<rparr> \<longleftrightarrow> i = PacketId_S_PlayerJoined"
| "server_packet \<lparr>up_id = i, up_data = Some (Packet_S_PlayerLeft _)\<rparr> \<longleftrightarrow> i = PacketId_S_PlayerLeft"
| "server_packet _ \<longleftrightarrow> False"

text \<open>A buffer of the write queue, the packets of a batch, all sessions.\<close>

definition typed_buffer :: "(UnifiedPacket \<Rightarrow> byte list) \<Rightarrow> byte list \<Rightarrow> bool" where
  "typed_buffer enc b \<longleftrightarrow> (\<exists>ps. ps \<noteq> [] \<and> list_all server_packet ps \<and> b = concat (map (\<lambda>p. frame (enc p)) ps))"

definition typed_bytes :: "(UnifiedPacket \<Rightarrow> byte list) \<Rightarrow> byte list \<Rightarrow> bool" where
  "typed_bytes enc d \<longleftrightarrow> (\<exists>p. server_packet p \<and> d = enc p)"

definition typed_net :: "(UnifiedPacket \<Rightarrow> byte list) \<Rightarrow> Net \<Rightarrow> bool" where
  "typed_net enc net \<longleftrightarrow> (\<forall>a. list_all (typed_buffer enc) (m_writeQueue (store net a)))"

definition typed_batches :: "(UnifiedPacket \<Rightarrow> byte list) \<Rightarrow> GameManager \<Rightarrow> bool" where
  "typed_batches enc gm \<longleftrightarrow> (\<forall>(k, ds) \<in> set (m_playerBatches gm). list_all (typed_bytes enc) ds)"

lemma typed_frame: "typed_bytes enc d \<Longrightarrow> typed_buffer enc (frame d)"
  by (auto simp: typed_bytes_def typed_buffer_def intro: exI [of _ "[p]" for p])

lemma typed_frames:
  assumes "list_all (typed_bytes enc) ds" "ds \<noteq> []"
  shows "typed_buffer enc (concat (map frame ds))"
proof -
  have "\<exists>ps. list_all server_packet ps \<and> ds = map enc ps"
    using assms(1)
  proof (induction ds)
    case (Cons d ds)
    then obtain p ps where "server_packet p" "d = enc p" "list_all server_packet ps" "ds = map enc ps" by (auto simp: typed_bytes_def)
    then show ?case by (intro exI [of _ "p # ps"]) simp
  qed simp
  then show ?thesis using assms(2) by (auto simp: typed_buffer_def comp_def)
qed

section \<open>Every component keeps them\<close>

named_theorems typed \<open>operations that queue well-typed packets only\<close>

lemma typed_upd: "(\<And>s. list_all (typed_buffer enc) (m_writeQueue s) \<Longrightarrow> list_all (typed_buffer enc) (m_writeQueue (f s))) \<Longrightarrow>
  typed_net enc net \<Longrightarrow> typed_net enc (upd_session net a f)"
  by (simp add: typed_net_def upd_session_def)

lemma typed_Send [typed]: "typed_bytes enc d \<Longrightarrow> typed_net enc net \<Longrightarrow> typed_net enc (upd_session net a (\<lambda>s. Send s d))"
  by (rule typed_upd) (simp_all add: Send_def typed_frame)

lemma typed_SendBatch [typed]:
  "list_all (typed_bytes enc) ds \<Longrightarrow> typed_net enc net \<Longrightarrow> typed_net enc (upd_session net a (\<lambda>s. SendBatch s ds))"
  by (rule typed_upd) (auto simp: SendBatch_def typed_frames split: option.split)

lemma typed_same_queues:
  "(\<And>a. m_writeQueue (store net' a) = m_writeQueue (store net a) \<or> m_writeQueue (store net' a) = []) \<Longrightarrow> typed_net enc net \<Longrightarrow> typed_net enc net'"
  unfolding typed_net_def by (metis list_all_iff empty_iff list.set(1))

lemma typed_SetPlayerId [typed]: "typed_net enc net \<Longrightarrow> typed_net enc (upd_session net a (\<lambda>s. SetPlayerId s k))"
  by (rule typed_upd) (simp_all add: SetPlayerId_def)

lemma typed_queue [typed]: "typed_net enc net \<Longrightarrow> typed_net enc (net\<lparr>gameLogicQueue := q\<rparr>)" "typed_net enc net \<Longrightarrow> typed_net enc (push_command net c)"
  by (simp_all add: typed_net_def push_command_def)

lemma typed_fold: "(\<And>x n. x \<in> set xs \<Longrightarrow> typed_net enc n \<Longrightarrow> typed_net enc (f x n)) \<Longrightarrow> typed_net enc net \<Longrightarrow> typed_net enc (fold f xs net)"
  by (rule fold_keeps)

lemma typed_send_to [typed]: "typed_bytes enc d \<Longrightarrow> typed_net enc net \<Longrightarrow> typed_net enc (send_to net sid d)"
  by (simp add: send_to_def typed split: option.split)

lemma typed_packets [typed]:
  "typed_bytes enc (enc (login_failure c m i))" "typed_bytes enc (enc (login_success r i))"
  "typed_bytes enc (enc (CreateUnifiedPacket PacketId_S_Chat (Packet_S_Chat i' msg j)))"
  "typed_bytes enc (enc (snapshot_packet gm visible t))"
  "typed_bytes enc (enc (CreateUnifiedPacket PacketId_S_ZoneEntered (Packet_S_ZoneEntered z info infos)))"
  "typed_bytes enc (enc (CreateUnifiedPacket PacketId_S_PlayerJoined (Packet_S_PlayerJoined info)))"
  "typed_bytes enc (enc (CreateUnifiedPacket PacketId_S_PlayerLeft (Packet_S_PlayerLeft k)))"
  unfolding typed_bytes_def login_failure_def login_success_def snapshot_packet_def CreateUnifiedPacket_def
  by (intro exI conjI; (rule refl | simp))+

lemma typed_broadcast [typed]:
  "typed_net enc net \<Longrightarrow> typed_net enc (BroadcastPlayerJoined enc gm net k)"
  "typed_net enc net \<Longrightarrow> typed_net enc (BroadcastPlayerLeft enc gm net k)"
  by (auto simp: BroadcastPlayerJoined_def BroadcastPlayerLeft_def typed Let_def intro!: typed_fold split: option.split)

lemma typed_response [typed]: "typed_net enc net \<Longrightarrow> typed_net enc (snd (SendEnterZoneResponse enc gm net k s))"
  by (simp add: SendEnterZoneResponse_def typed Let_def split_beta split: option.split)

lemma typed_command [typed]: "typed_net enc net \<Longrightarrow> typed_net enc (snd (ProcessGameCommand enc env gm net c))"
  by (simp add: ProcessGameCommand_def HandlePlayerDisconnect_def HandleEnterZone_def typed Let_def split_beta
      split: GameCommandPayload.split option.split)

lemma um_set_entries: "set (um_set m k v) \<subseteq> insert (k, v) (set m)"
  unfolding um_set_def by (induction m) auto

lemma typed_cached: "m_playerBatches (snd (GetCachedPlayersInAOI gm k pos)) = m_playerBatches gm"
  by (simp add: GetCachedPlayersInAOI_def UpdateAOICache_def count_executed_def count_skipped_def Let_def split_beta split: option.split)

lemma typed_snapshot: "typed_batches enc gm \<Longrightarrow> typed_batches enc (AddSnapshotToPlayerBatch enc gm k visible t)"
proof -
  assume t: "typed_batches enc gm"
  obtain m ds where i: "um_index [] (m_playerBatches gm) k = (m, ds)" by fastforce
  have "set m \<subseteq> insert (k, []) (set (m_playerBatches gm))" "ds = [] \<or> (k, ds) \<in> set (m_playerBatches gm)"
    using i um_set_entries [of "m_playerBatches gm" k "[]"]
    by (auto simp: um_index_def um_find_def split: option.splits dest: map_of_SomeD)
  then have "\<forall>(j, es) \<in> set m. list_all (typed_bytes enc) es" "list_all (typed_bytes enc) (ds @ [enc (snapshot_packet gm visible t)])"
    using t by (auto simp: typed_batches_def typed)
  then have "\<forall>(j, es) \<in> set (um_set m k (ds @ [enc (snapshot_packet gm visible t)])). list_all (typed_bytes enc) es"
    using um_set_entries [of m k "ds @ [enc (snapshot_packet gm visible t)]"] by blast
  then show ?thesis by (simp add: AddSnapshotToPlayerBatch_def AddToPlayerBatch_def i typed_batches_def)
qed

lemma typed_snapshots: "typed_batches enc gm \<Longrightarrow> typed_batches enc (SendWorldSnapshots enc now gm)"
  unfolding SendWorldSnapshots_def Let_def
proof (rule fold_keeps [where P = "typed_batches enc"])
  fix kp g
  assume "typed_batches enc g"
  then have "typed_batches enc (snd (GetCachedPlayersInAOI g k pos))" for k pos by (simp add: typed_batches_def typed_cached)
  then show "typed_batches enc ((\<lambda>(k, p) g. if m_isActive p then
      (case GetCachedPlayersInAOI g k (m_position p) of (visible, g) \<Rightarrow> AddSnapshotToPlayerBatch enc g k visible (GetCurrentTimestamp now)) else g) kp g)"
    using \<open>typed_batches enc g\<close> by (simp add: split_beta typed_snapshot)
qed (simp add: typed_batches_def)

lemma typed_update: "m_playerBatches (UpdateWorld dt gm) = m_playerBatches gm"
proof -
  have "m_playerBatches (fold (\<lambda>(k, p) g. if m_isActive p then
      let newPos = vec3_add (m_position p) (vec3_scale (m_velocity p) dt);
          p = (if IsValidPosition g newPos then SetPosition p newPos else p)
      in g\<lparr>m_world := UpdatePlayer (m_world g) k p, m_quadTree := QT_Update (m_quadTree g) k (m_position p)\<rparr> else g) w g) = m_playerBatches g" for w g
    by (rule fold_keeps [where P = "\<lambda>h. m_playerBatches h = m_playerBatches g"]) (auto simp: Let_def)
  then show ?thesis by (simp add: UpdateWorld_def Let_def)
qed

lemma typed_handlers: "m_playerBatches (fst (ProcessGameCommand enc env gm net c)) = m_playerBatches gm"
  by (simp add: ProcessGameCommand_def HandlePlayerDisconnect_def HandleEnterZone_def HandlePlayerInput_def SendEnterZoneResponse_def
      Let_def split_beta split: GameCommandPayload.split option.split)

lemma typed_pending:
  assumes "ProcessPendingCommands enc te gm net = Some (gm', net')" "typed_net enc net"
  shows "typed_net enc net' \<and> m_playerBatches gm' = m_playerBatches gm"
proof -
  obtain batch q where c: "collect_commands (te_expired te) (te_running te) (nat (m_commandBatchSize gm)) [] (gameLogicQueue net) = (batch, q)"
    by fastforce
  let ?P = "\<lambda>s. typed_net enc (snd s) \<and> m_playerBatches (fst s) = m_playerBatches gm"
  have "?P (fold (\<lambda>(i, c) (gm, net). ProcessGameCommand enc (te_cmd te i) gm net c) (enumerate 0 batch) (gm, net\<lparr>gameLogicQueue := q\<rparr>))"
    by (rule fold_keeps [where P = ?P]) (auto simp: typed typed_handlers assms(2) split: prod.splits)
  then show ?thesis using assms(1) c by (auto simp: ProcessPendingCommands_def split_beta split: if_splits)
qed

lemma typed_flush: "typed_batches enc gm \<Longrightarrow> typed_net enc net \<Longrightarrow> typed_net enc (snd (FlushAllBatches gm net))"
  by (auto simp: FlushAllBatches_def flush_batch_def typed_batches_def typed intro!: typed_fold split: option.split)

lemma typed_loop:
  assumes "typed_batches enc gm" "typed_net enc net"
  shows "typed_net enc (snd (snd (GameLoop_iteration enc te t gm net)))"
proof (cases "ProcessPendingCommands enc te gm net")
  case (Some r)
  obtain g n where r: "r = (g, n)" by fastforce
  have "typed_net enc n" "typed_batches enc (UpdateWorld dt g)" for dt
    using typed_pending [OF Some [unfolded r] assms(2)] assms(1) by (simp_all add: typed_batches_def typed_update)
  then show ?thesis using typed_flush [OF typed_snapshots] assms(2) by (simp add: GameLoop_iteration_def Some r Let_def split_beta)
qed (simp add: GameLoop_iteration_def assms(2) Let_def)

lemma typed_answer:
  assumes "login_answer enc peer alive q r net \<in> {Returned net', Thrown net'}" "typed_net enc net"
  shows "typed_net enc net'"
  using assms by (auto simp: login_answer_def log_endpoint_def SendLoginFailure_def typed Let_def split: if_splits option.splits)

lemma typed_chat: "typed_net enc net \<Longrightarrow> typed_net enc (HandleRedisChatMessage enc ch m cm net)"
  by (auto simp: HandleRedisChatMessage_def chat_broadcast_def typed Let_def intro!: typed_fold split: option.split sum.split)

lemma typed_job:
  assumes "register_handlers enc peer up = Returned pm" "WorkerLoop_job fb jp pm job (net, cm, lg) = Next (net', cm', lg')" "typed_net enc net"
  shows "typed_net enc net'"
proof -
  have h: "typed_net enc net'"
    if "login_handler enc peer True s packet (net, cm, lg) \<in> {Returned (net', cm', lg'), Thrown (net', cm', lg')} \<or>
      chat_handler peer up s packet (net, cm, lg) \<in> {Returned (net', cm', lg'), Thrown (net', cm', lg')}" for s packet
    using that assms(3) by (auto simp: login_handler_def LoginPacketHandler_def log_endpoint_def chat_handler_def SendLoginFailure_def typed Let_def
        split: option.splits outcome.splits if_splits)
  have d: "typed_net enc net'" if "DispatchPacket pm i s packet (net, cm, lg) \<in> {Returned (net', cm', lg'), Thrown (net', cm', lg')}" for i s packet
    using that h [of s packet] assms(3) by (auto simp: DispatchPacket_def registered(1) [OF assms(1)] split: option.splits if_splits)
  have "net' = net \<or> ProcessJobPacket fb jp pm job (fb_root fb (packetBuffer job)) (net, cm, lg) \<in> {Returned (net', cm', lg'), Thrown (net', cm', lg')}"
    using assms(2) by (auto simp: WorkerLoop_job_def split: if_splits outcome.splits)
  then show ?thesis using d assms(3) by (auto simp: ProcessJobPacket_def typed Let_def split: option.splits if_splits)
qed

section \<open>The property\<close>

definition typed_program :: "(UnifiedPacket \<Rightarrow> byte list) \<Rightarrow> Program \<Rightarrow> bool" where
  "typed_program enc p \<longleftrightarrow> typed_net enc (sv_net (pr_server p))"

lemma typed_gone: "typed_net enc (sv_net sv) \<Longrightarrow> typed_net enc (sv_net (gone now a sv))"
  by (rule typed_same_queues [of _ "sv_net sv"]) (auto simp: gone_def upd_session_def close_session_def)

lemma gone_server: "sv_sessionManager (gone now a sv) = sv_sessionManager sv" "sv_onDisconnected (gone now a sv) = sv_onDisconnected sv"
  by (simp_all add: gone_def)

lemma typed_accept: "typed_net enc (sv_net sv) \<Longrightarrow> typed_net enc (sv_net (accept_begin ev sv))"
  "typed_net enc (sv_net sv) \<Longrightarrow> typed_net enc (sv_net (accept_finish peer sv))"
  by (rule typed_same_queues [of _ "sv_net sv"];
      auto simp: accept_begin_def accept_finish_def new_session_def mk_Session_def AddSession_def Let_def
        split: option.splits accept_event.splits outcome.splits)+

lemma typed_tick:
  "program_ok p \<Longrightarrow> typed_program enc p \<Longrightarrow> typed_program enc (snd (tick enc te t p))"
proof -
  assume ok: "program_ok p" "typed_program enc p"
  have "typed_batches enc (pr_game p)" using ok by (auto simp: program_ok_def batches_empty_def typed_batches_def)
  then show ?thesis using typed_loop [of enc "pr_game p" "sv_net (pr_server p)" te t] ok by (simp add: typed_program_def tick_def split_beta)
qed

lemma typed_stop: "typed_program enc p \<Longrightarrow> typed_program enc (main_stop p)"
  by (auto simp: typed_program_def main_stop_def GM_Stop_def typed split: prod.splits if_splits)

lemma typed_step: "program_step enc fb p p' \<Longrightarrow> program_ok p \<Longrightarrow> typed_program enc p \<Longrightarrow> typed_program enc p'"
proof (induction rule: program_step.induct)
  case (works peer up pm p p')
  then obtain job jq net cm lg where j: "WorkerLoop_job fb (pr_jobProcessor p) pm job (sv_net (pr_server p), sv_chat (pr_server p), pr_logins p) = Next (net, cm, lg)"
    "p' = p\<lparr>pr_jobQueue := jq, pr_server := (pr_server p)\<lparr>sv_net := net, sv_chat := cm\<rparr>, pr_logins := lg\<rparr>"
    by (auto simp: work_def split: option.splits prod.splits worker_result.splits)
  then show ?case using typed_job [OF works(1) j(1)] works by (simp add: typed_program_def)
next
  case (last_tick p te t)
  then show ?case by (blast intro: typed_stop typed_tick)
next
  case (ticks p te t)
  then show ?case by (blast intro: typed_tick)
next
  case (read_ends a p now now' peer)
  then show ?case by (simp add: typed_program_def program_ok_def server_ok_def leave_eq typed_gone)
next
  case (write_ends a p now peer)
  then show ?case by (simp add: typed_program_def program_ok_def server_ok_def leave_eq typed_gone)
next
  case (answers q p peer alive r net)
  then show ?case using typed_answer by (simp add: typed_program_def with_net_def)
next
  case (stops p)
  then show ?case by (blast intro: typed_stop)
qed (simp_all add: typed_program_def receive_def with_net_def typed_accept typed_chat)

text \<open>
  C13: in every state that the running program can reach, every buffer that waits to be written to
  a client is a sequence of framed packets of a kind that the server sends, each with the packet
  id that belongs to the type of its data: nothing goes out under a wrong id, without
  data, or of a kind that only clients send.
\<close>

theorem wire_well_typed:
  assumes "main_start me = Started p0" "good_config True (me_cache me) (me_game_config me)" "(program_step enc fb)\<^sup>*\<^sup>* p0 p"
    and "b \<in> set (m_writeQueue (store (sv_net (pr_server p)) a))"
  shows "\<exists>ps. ps \<noteq> [] \<and> list_all server_packet ps \<and> b = concat (map (\<lambda>p. frame (enc p)) ps)"
proof -
  have "typed_program enc p0"
    using assms(1) by (rule main_start_parts) (auto simp: typed_program_def typed_net_def mk_Session_def empty_Net_def dest!: main_start_server(5))
  then have "typed_program enc p \<and> program_ok p"
    using main_start_ok [OF assms(1,2)]
    by (induction rule: rtranclp_induct [OF assms(3)]) (auto intro: typed_step program_step_ok)
  then show ?thesis using assms(4) by (auto simp: typed_program_def typed_net_def list_all_iff typed_buffer_def)
qed

text \<open>A connection is accepted and a chat line arrives from Redis.\<close>

theorem wire_well_typed_witness:
  "\<exists>p0 (p :: Program) b. main_start demo_main = Started p0 \<and> b \<in> set (m_writeQueue (store (sv_net (pr_server p)) 0)) \<and>
     (\<exists>ps. ps \<noteq> [] \<and> list_all server_packet ps \<and> b = concat (map (\<lambda>p. frame (demo_enc p)) ps))"
proof -
  obtain p0 where p0: "main_start demo_main = Started p0" using demo_main_starts by blast
  define p1 where "p1 = p0\<lparr>pr_server := accept_begin Connected (pr_server p0)\<rparr>"
  define p2 where "p2 = p1\<lparr>pr_server := accept_finish (\<lambda>_. None) (pr_server p1)\<rparr>"
  define p3 where "p3 = with_net p2 (HandleRedisChatMessage demo_enc [] (chat_line 1 ''hi'') (sv_chat (pr_server p2)) (sv_net (pr_server p2)))"
  have steps: "program_step demo_enc demo_codec p0 p1" "program_step demo_enc demo_codec p1 p2" "program_step demo_enc demo_codec p2 p3"
    unfolding p3_def p2_def p1_def by (rule program_step.accepts program_step.adds program_step.hears)+
  have run: "(program_step demo_enc demo_codec)\<^sup>*\<^sup>* p0 p3"
    using steps by (meson rtranclp.rtrancl_into_rtrancl rtranclp.rtrancl_refl)
  have server: "sv_accepting (pr_server p0)" "sv_net (pr_server p0) = empty_Net" "sv_pending (pr_server p0) = None"
    "sv_onConnected (pr_server p0)" "m_connectedSessions (sv_chat (pr_server p0)) = []"
    using p0 by (rule main_start_parts; auto simp: Tcp_Start_def SetOnSessionDisconnected_def SetOnSessionConnected_def mk_TcpServer_def
        dest!: main_start_server(5) split: if_splits)+
  then have "m_writeQueue (store (sv_net (pr_server p3)) 0) \<noteq> []"
    by (simp add: p3_def with_net_def parse_chat_line chat_broadcast_def p2_def p1_def accept_begin_def accept_finish_def at_limit_def
        GetActiveSessionCount_def empty_Net_def new_session_def MAX_CONCURRENT_CONNECTIONS_def AddSession_def OnSessionConnected_def
        log_endpoint_def GetRemoteEndpoint_def mk_Session_def upd_session_def Send_def Let_def)
  then obtain b where b: "b \<in> set (m_writeQueue (store (sv_net (pr_server p3)) 0))" by (metis last_in_set)
  have "good_config True (me_cache demo_main) (me_game_config demo_main)" using demo_good by (simp add: demo_main_def)
  note ps = wire_well_typed [OF p0 this run b]
  show ?thesis by (rule exI [of _ p0], rule exI [of _ p3], rule exI [of _ b], intro conjI p0 b ps)
qed

end
