(* ===== verification/Presence.thy ===== *)
theory Presence
  imports Program_Properties
begin

text \<open>
  Players and connections.  The world keeps a player active from its entry until the notice that
  its session has ended is processed; the session table, the command queue and the world change
  on different threads.  Here it is shown that they stay together: no player is left active
  without a session and without a notice.
\<close>

section \<open>Who is in the world\<close>

text \<open>The session of an active player.\<close>

definition seat :: "World \<Rightarrow> uint64 \<Rightarrow> uint64 option" where
  "seat w k = (case GetPlayer w k of Some p \<Rightarrow> if m_isActive p then Some (m_sessionId p) else None | None \<Rightarrow> None)"

lemma seat_input: "seat (m_world (HandlePlayerInput env gm d)) = seat (m_world gm)"
  by (auto simp: HandlePlayerInput_def seat_def fun_eq_iff player_setters Let_def split: option.split)

lemma seat_disconnect:
  "seat (m_world (fst (HandlePlayerDisconnect enc env gm net d))) = (seat (m_world gm))(pd_playerId d := None)"
  by (auto simp: HandlePlayerDisconnect_def seat_def fun_eq_iff player_setters Let_def split: option.split)

lemma seat_enter:
  "seat (m_world (fst (HandleEnterZone enc env gm net d s))) =
     (if seat (m_world gm) (ez_playerId d) = None then (seat (m_world gm))(ez_playerId d \<mapsto> ez_sessionId d) else seat (m_world gm))"
  by (auto simp: HandleEnterZone_def seat_def fun_eq_iff player_setters mk_Player_def AddPlayer_UpdatePlayer Let_def split_beta split: option.split)

lemma seat_update: "gm_ok gm \<Longrightarrow> seat (m_world (UpdateWorld dt gm)) = seat (m_world gm)"
  by (auto simp: seat_def fun_eq_iff UpdateWorld_ok(2) moved_def SetPosition_def Let_def split: option.split)

section \<open>The invariant\<close>

definition notice :: "uint64 \<Rightarrow> GameCommand \<Rightarrow> bool" where
  "notice k c \<longleftrightarrow> payload c = PlayerDisconnectPayload \<lparr>pd_playerId = k\<rparr>"

definition present :: "Net \<Rightarrow> World \<Rightarrow> GameCommand list \<Rightarrow> bool" where
  "present net w cs \<longleftrightarrow> (\<forall>k sid. k \<noteq> 0 \<and> seat w k = Some sid \<longrightarrow>
     (\<exists>a. GetSession net sid = Some a \<and> s_playerId (store net a) = k) \<or> (\<exists>c \<in> set cs. notice k c))"

text \<open>A request to enter still speaks for the player of the session that sent it.\<close>

definition enter_ok :: "Net \<Rightarrow> GameCommand \<Rightarrow> bool" where
  "enter_ok net c \<longleftrightarrow> (\<forall>d. payload c = EnterZonePayload d \<longrightarrow> ez_sessionId d = senderSessionId c \<and>
     (ez_playerId d = 0 \<or> (\<exists>a < next_addr net. s_sessionId (store net a) = ez_sessionId d \<and> s_playerId (store net a) = ez_playerId d)))"

definition ids_ok :: "Net \<Rightarrow> bool" where
  "ids_ok net \<longleftrightarrow> (\<forall>a < next_addr net. s_sessionId (store net a) < s_nextSessionId net) \<and>
     (\<forall>a < next_addr net. \<forall>b < next_addr net. s_sessionId (store net a) = s_sessionId (store net b) \<longrightarrow> a = b)"

definition net_ok :: "Net \<Rightarrow> bool" where
  "net_ok net \<longleftrightarrow> sm_gameLogicQueue net \<and> ids_ok net \<and> (\<forall>c \<in> set (q_items (gameLogicQueue net)). enter_ok net c) \<and>
     (\<forall>i a. GetSession net i = Some a \<longrightarrow> s_sessionId (store net a) = i \<and> a < next_addr net)"

definition held_ok :: "Net \<Rightarrow> Job list \<Rightarrow> login_request list \<Rightarrow> bool" where
  "held_ok net jobs logins \<longleftrightarrow> (\<forall>j \<in> set jobs. \<forall>a. job_session j = Some a \<longrightarrow> a < next_addr net) \<and>
     (\<forall>q \<in> set logins. lr_session q < next_addr net)"

abbreviation net_of :: "Program \<Rightarrow> Net" where "net_of p \<equiv> sv_net (pr_server p)"

definition linked :: "Net \<Rightarrow> World \<Rightarrow> bool" where
  "linked net w \<longleftrightarrow> m_shuttingDown (gameLogicQueue net) \<or> present net w (q_items (gameLogicQueue net))"

definition presence :: "Program \<Rightarrow> bool" where
  "presence p \<longleftrightarrow> gm_sessionManager (pr_game p) \<and> net_ok (net_of p) \<and> held_ok (net_of p) (q_items (pr_jobQueue p)) (pr_logins p) \<and> linked (net_of p) (m_world (pr_game p))"

text \<open>
  A step in which no session that has a player logs in as another one, and in which the
  counter of session ids does not wrap around.
\<close>

definition steady :: "Net \<Rightarrow> Net \<Rightarrow> bool" where
  "steady net net' \<longleftrightarrow> s_nextSessionId net \<le> s_nextSessionId net' \<and>
     (\<forall>a. s_playerId (store net a) \<noteq> 0 \<longrightarrow> s_playerId (store net' a) = s_playerId (store net a))"

section \<open>What keeps it\<close>

text \<open>Everything that keeps the table and does not change players keeps the invariant of the network.\<close>

lemma enter_ok_mono:
  assumes "enter_ok net c" "next_addr net \<le> next_addr net'"
    and "\<And>a. a < next_addr net \<Longrightarrow> s_sessionId (store net' a) = s_sessionId (store net a) \<and>
      (s_playerId (store net a) \<noteq> 0 \<longrightarrow> s_playerId (store net' a) = s_playerId (store net a))"
  shows "enter_ok net' c"
  unfolding enter_ok_def
proof (intro allI impI)
  fix d
  assume d: "payload c = EnterZonePayload d"
  then have "ez_sessionId d = senderSessionId c" and
    e: "ez_playerId d = 0 \<or> (\<exists>a < next_addr net. s_sessionId (store net a) = ez_sessionId d \<and> s_playerId (store net a) = ez_playerId d)"
    using assms(1) by (auto simp: enter_ok_def)
  moreover have "\<exists>a < next_addr net'. s_sessionId (store net' a) = ez_sessionId d \<and> s_playerId (store net' a) = ez_playerId d"
    if n: "ez_playerId d \<noteq> 0"
  proof -
    obtain a where "a < next_addr net" "s_sessionId (store net a) = ez_sessionId d" "s_playerId (store net a) = ez_playerId d"
      using e n by blast
    then show ?thesis using assms(2,3) n by (intro exI [of _ a]) auto
  qed
  ultimately show "ez_sessionId d = senderSessionId c \<and>
      (ez_playerId d = 0 \<or> (\<exists>a < next_addr net'. s_sessionId (store net' a) = ez_sessionId d \<and> s_playerId (store net' a) = ez_playerId d))"
    by blast
qed

lemma net_ok_same:
  assumes "net_ok net" "same_sessions net net'" "steady net net'" "sm_gameLogicQueue net'"
    and "\<forall>c \<in> set (q_items (gameLogicQueue net')). c \<in> set (q_items (gameLogicQueue net)) \<or> enter_ok net c"
  shows "net_ok net'"
proof -
  have "enter_ok net' c" if "enter_ok net c" for c
    by (rule enter_ok_mono [OF that]) (use assms(2,3) in \<open>simp_all add: same_sessions_def steady_def\<close>)
  moreover have "\<forall>c \<in> set (q_items (gameLogicQueue net')). enter_ok net c" using assms(1,5) unfolding net_ok_def by blast
  moreover have "ids_ok net'" "\<And>i a. GetSession net' i = Some a \<Longrightarrow> s_sessionId (store net' a) = i \<and> a < next_addr net'"
    using assms(1,2) by (simp_all add: net_ok_def same_sessions_def ids_ok_def GetSession_def)
  ultimately show ?thesis using assms(4) by (simp add: net_ok_def)
qed

lemma held_ok_same: "held_ok net jobs logins \<Longrightarrow> same_sessions net net' \<Longrightarrow> held_ok net' jobs logins"
  by (simp add: held_ok_def same_sessions_def)

lemma present_same:
  assumes "present net w cs" "same_sessions net net'" "steady net net'" "set cs \<subseteq> set cs'"
  shows "present net' w cs'"
  using assms unfolding present_def same_sessions_def steady_def GetSession_def by (metis subsetD)

lemma quiet_steady: "quiet net net' \<Longrightarrow> steady net net'"
  by (simp add: quiet_def same_sessions_def steady_def)

lemma linked_same:
  assumes "linked net w" "same_sessions net net'" "steady net net'"
    and "m_shuttingDown (gameLogicQueue net) \<longrightarrow> m_shuttingDown (gameLogicQueue net')"
    and "set (q_items (gameLogicQueue net)) \<subseteq> set (q_items (gameLogicQueue net'))"
  shows "linked net' w"
  using assms present_same unfolding linked_def by blast

lemma net_ok_quiet:
  assumes "quiet net net'"
  shows "enter_ok net c \<Longrightarrow> enter_ok net' c" "net_ok net \<Longrightarrow> net_ok net'"
proof -
  show "enter_ok net' c" if "enter_ok net c"
    by (rule enter_ok_mono [OF that]) (use assms in \<open>simp_all add: quiet_def same_sessions_def\<close>)
  show "net_ok net'" if "net_ok net"
    by (rule net_ok_same [OF that quiet_same [OF assms] quiet_steady [OF assms]]) (use assms that in \<open>simp_all add: quiet_def net_ok_def\<close>)
qed

lemma presence_quiet:
  assumes "presence p" "quiet (net_of p) net"
  shows "presence (with_net p net)"
proof -
  note q = quiet_same [OF assms(2)] quiet_steady [OF assms(2)]
  have "gameLogicQueue net = gameLogicQueue (net_of p)" "sm_gameLogicQueue net"
    using assms by (simp_all add: quiet_def presence_def net_ok_def)
  then show ?thesis using assms(1) net_ok_same [OF _ q] held_ok_same [OF _ q(1)] linked_same [OF _ q]
    by (simp add: presence_def with_net_def)
qed

lemma linked_mono:
  assumes "linked net w" "m_shuttingDown (gameLogicQueue net) \<longrightarrow> m_shuttingDown (gameLogicQueue net')"
    and "set (q_items (gameLogicQueue net)) \<subseteq> set (q_items (gameLogicQueue net'))"
    and "\<And>i a. GetSession net i = Some a \<Longrightarrow> s_playerId (store net a) \<noteq> 0 \<Longrightarrow> \<not> m_shuttingDown (gameLogicQueue net') \<Longrightarrow>
      (\<exists>b. GetSession net' i = Some b \<and> s_playerId (store net' b) = s_playerId (store net a)) \<or>
      (\<exists>c \<in> set (q_items (gameLogicQueue net')). notice (s_playerId (store net a)) c)"
  shows "linked net' w"
  unfolding linked_def [of net'] present_def [of net']
proof (rule disj_imp [THEN iffD2], intro allI impI)
  fix k sid
  assume open_queue: "\<not> m_shuttingDown (gameLogicQueue net')" and k: "k \<noteq> 0 \<and> seat w k = Some sid"
  then have "(\<exists>a. GetSession net sid = Some a \<and> s_playerId (store net a) = k) \<or> (\<exists>c \<in> set (q_items (gameLogicQueue net)). notice k c)"
    using assms(1,2) by (simp add: linked_def present_def)
  then show "(\<exists>a. GetSession net' sid = Some a \<and> s_playerId (store net' a) = k) \<or> (\<exists>c \<in> set (q_items (gameLogicQueue net')). notice k c)"
    using assms(3) assms(4) [of sid] open_queue k by blast
qed

text \<open>New sessions, and the table.\<close>

lemma presence_grow:
  assumes "net_ok net" "ids_ok net'" "m_activeSessions net' = m_activeSessions net" "gameLogicQueue net' = gameLogicQueue net"
    and "sm_gameLogicQueue net'" "next_addr net \<le> next_addr net'" "\<And>a. a < next_addr net \<Longrightarrow> store net' a = store net a"
  shows "net_ok net'" "linked net w \<Longrightarrow> linked net' w" "held_ok net jobs logins \<Longrightarrow> held_ok net' jobs logins"
proof -
  have get: "GetSession net' i = GetSession net i" for i using assms(3) by (simp add: GetSession_def)
  have "enter_ok net' c" if "enter_ok net c" for c by (rule enter_ok_mono [OF that assms(6)]) (simp add: assms(7))
  moreover have "s_sessionId (store net' a) = i \<and> a < next_addr net'" if "GetSession net' i = Some a" for i a
    using that assms(1,6,7) unfolding get net_ok_def by (metis order_less_le_trans)
  ultimately show "net_ok net'" using assms by (simp add: net_ok_def)
  have "store net' a = store net a" if "GetSession net i = Some a" for i a using that assms(1,7) by (simp add: net_ok_def)
  then show "linked net' w" if "linked net w" using that by (rule_tac linked_mono [of net]) (auto simp: get assms(4))
  show "held_ok net' jobs logins" if "held_ok net jobs logins" using that assms(6) by (auto simp: held_ok_def)
qed

lemma accept_begin_presence:
  assumes "presence p" "steady (net_of p) (sv_net (accept_begin ev (pr_server p)))"
  shows "presence (p\<lparr>pr_server := accept_begin ev (pr_server p)\<rparr>)"
proof -
  let ?net = "net_of p" and ?net' = "sv_net (accept_begin ev (pr_server p))"
  have ok: "net_ok ?net" using assms(1) by (simp add: presence_def)
  have "?net' = ?net \<or> ?net' = ?net\<lparr>s_nextSessionId := s_nextSessionId ?net + 1\<rparr> \<or> ?net' = snd (new_session ?net)"
    by (cases ev) (simp_all add: accept_begin_def split_beta)
  then consider "?net' = ?net" | "?net' = ?net\<lparr>s_nextSessionId := s_nextSessionId ?net + 1\<rparr>" | "?net' = snd (new_session ?net)" by blast
  then have "net_ok ?net' \<and> linked ?net' (m_world (pr_game p)) \<and> held_ok ?net' (q_items (pr_jobQueue p)) (pr_logins p)"
  proof cases
    case 1
    then show ?thesis using assms(1) by (simp add: presence_def)
  next
    case 2
    then have "s_nextSessionId ?net \<le> s_nextSessionId ?net + 1" using assms(2) by (simp add: steady_def)
    then have "ids_ok ?net'" using ok 2 by (auto simp: net_ok_def ids_ok_def)
    then show ?thesis using presence_grow [OF ok, of ?net'] ok assms(1) by (simp add: 2 presence_def net_ok_def)
  next
    case 3
    then have "s_nextSessionId ?net \<le> s_nextSessionId ?net + 1" using assms(2) by (simp add: steady_def new_session_def)
    then have "s_nextSessionId ?net < s_nextSessionId ?net + 1" by (simp add: order_less_le)
    then have "ids_ok ?net'" using ok 3 by (auto simp: net_ok_def ids_ok_def new_session_def mk_Session_def less_Suc_eq)
    then show ?thesis using presence_grow [OF ok, of ?net'] ok assms(1) by (simp add: 3 presence_def net_ok_def new_session_def)
  qed
  then show ?thesis using assms(1) by (simp add: presence_def)
qed

lemma add_presence:
  assumes "net_ok net" "a < next_addr net"
  shows "net_ok (AddSession net a)" "linked net w \<Longrightarrow> linked (AddSession net a) w" "held_ok (AddSession net a) jobs logins = held_ok net jobs logins"
proof -
  let ?i = "s_sessionId (store net a)"
  have get: "GetSession (AddSession net a) i = (if i = ?i then Some a else GetSession net i)" for i
    by (simp add: GetSession_def AddSession_def)
  have same: "GetSession net ?i \<in> {None, Some a}"
    using assms unfolding net_ok_def ids_ok_def by (cases "GetSession net ?i") auto
  have "enter_ok (AddSession net a) c = enter_ok net c" for c by (simp add: enter_ok_def AddSession_def)
  then show "net_ok (AddSession net a)" using assms get by (auto simp: net_ok_def ids_ok_def AddSession_def)
  have "GetSession (AddSession net a) i = Some b" if "GetSession net i = Some b" for i b using that same get by auto
  moreover have "store (AddSession net a) = store net" "gameLogicQueue (AddSession net a) = gameLogicQueue net"
    by (simp_all add: AddSession_def)
  ultimately show "linked (AddSession net a) w" if "linked net w"
    using that unfolding linked_def present_def by metis
  show "held_ok (AddSession net a) jobs logins = held_ok net jobs logins" by (simp add: held_ok_def AddSession_def)
qed

lemma accept_finish_presence:
  assumes "presence p" "server_ok (pr_server p)"
  shows "presence (p\<lparr>pr_server := accept_finish peer (pr_server p)\<rparr>)"
proof (cases "sv_pending (pr_server p)")
  case (Some a)
  have "sv_net (accept_finish peer (pr_server p)) = AddSession (net_of p) a"
    using Some assms(2) by (simp add: accept_finish_def OnSessionConnected_def log_endpoint_def server_ok_def Let_def split: option.split)
  moreover have "a < next_addr (net_of p)" using Some assms(2) by (simp add: server_ok_def)
  ultimately show ?thesis using add_presence [of "net_of p" a] assms(1) by (simp add: presence_def)
qed (use assms in \<open>simp add: accept_finish_def\<close>)

text \<open>The end of a session: it leaves the table, and its player is noted.\<close>

lemma gone_net:
  fixes sv now a
  defines "net \<equiv> sv_net sv" and "net' \<equiv> sv_net (gone now a sv)" and "i \<equiv> s_sessionId (store (sv_net sv) a)"
  shows "GetSession net' j = (if j = i then None else GetSession net j)"
    "next_addr net' = next_addr net" "s_nextSessionId net' = s_nextSessionId net" "sm_gameLogicQueue net' = sm_gameLogicQueue net"
    "s_sessionId (store net' b) = s_sessionId (store net b)" "s_playerId (store net' b) = s_playerId (store net b)"
    "m_shuttingDown (gameLogicQueue net') = m_shuttingDown (gameLogicQueue net)"
    "\<exists>cs. q_items (gameLogicQueue net') = q_items (gameLogicQueue net) @ cs \<and> (\<forall>c \<in> set cs. \<exists>k. notice k c)"
    "GetSession net i = Some b \<Longrightarrow> s_playerId (store net b) \<noteq> 0 \<Longrightarrow> sm_gameLogicQueue net \<Longrightarrow> \<not> m_shuttingDown (gameLogicQueue net) \<Longrightarrow>
      \<exists>c \<in> set (q_items (gameLogicQueue net')). notice (s_playerId (store net b)) c"
  unfolding assms
  by (auto simp: gone_def upd_session_def close_session_def RemoveSession_def OnSessionDisconnected_def PushGameCommand_def
      GetSession_def notice_def Let_def split: option.splits)

lemma gone_presence:
  assumes "presence p" "a < next_addr (net_of p)"
  shows "presence (p\<lparr>pr_server := gone now a (pr_server p)\<rparr>)"
proof -
  let ?sv = "pr_server p"
  let ?net = "sv_net ?sv" and ?net' = "sv_net (gone now a ?sv)"
  note g = gone_net [where now = now and a = a and sv = "pr_server p"]
  have ok: "net_ok ?net" "linked ?net (m_world (pr_game p))" using assms(1) by (simp_all add: presence_def)
  have "enter_ok ?net' c" if c: "c \<in> set (q_items (gameLogicQueue ?net'))" for c
  proof (cases "c \<in> set (q_items (gameLogicQueue ?net))")
    case True
    then have "enter_ok ?net c" using ok(1) by (simp add: net_ok_def)
    then show ?thesis by (rule enter_ok_mono) (simp_all add: g(2,5,6))
  next
    case False
    then obtain k where "notice k c" using c g(8) by fastforce
    then show ?thesis by (simp add: enter_ok_def notice_def)
  qed
  moreover have "ids_ok ?net'" "sm_gameLogicQueue ?net'" using ok(1) by (simp_all add: net_ok_def ids_ok_def g(2-5))
  moreover have "s_sessionId (store ?net' b) = i \<and> b < next_addr ?net'" if "GetSession ?net' i = Some b" for i b
    using that ok(1) by (simp add: net_ok_def g(1,2,5) split: if_splits)
  ultimately have "net_ok ?net'" by (simp add: net_ok_def)
  moreover have "linked ?net' (m_world (pr_game p))"
  proof (rule linked_mono [OF ok(2)])
    fix i b
    assume b: "GetSession ?net i = Some b" "s_playerId (store ?net b) \<noteq> 0" "\<not> m_shuttingDown (gameLogicQueue ?net')"
    then have "\<exists>c \<in> set (q_items (gameLogicQueue ?net')). notice (s_playerId (store ?net b)) c" if "i = s_sessionId (store ?net a)"
      using g(9) [of b] ok(1) that by (simp add: net_ok_def g(7))
    then show "(\<exists>b'. GetSession ?net' i = Some b' \<and> s_playerId (store ?net' b') = s_playerId (store ?net b)) \<or>
        (\<exists>c \<in> set (q_items (gameLogicQueue ?net')). notice (s_playerId (store ?net b)) c)"
      using b by (auto simp: g(1,6))
  next
    show "set (q_items (gameLogicQueue ?net)) \<subseteq> set (q_items (gameLogicQueue ?net'))" using g(8) by fastforce
  qed (simp add: g(7))
  moreover have "held_ok ?net' (q_items (pr_jobQueue p)) (pr_logins p)" using assms(1) by (simp add: presence_def held_ok_def g(2))
  ultimately show ?thesis using assms(1) by (simp add: presence_def)
qed

text \<open>A command of the batch.\<close>

lemma command_present:
  assumes ok: "net_ok net" "gm_sessionManager gm" "enter_ok net c" and pr: "present net (m_world gm) (c # cs)"
  shows "present net (m_world (fst (ProcessGameCommand enc env gm net c))) cs"
proof -
  let ?w = "m_world gm" and ?w' = "m_world (fst (ProcessGameCommand enc env gm net c))"
  have keep: "present net ?w' cs" if "\<And>k. \<not> notice k c" "seat ?w' = seat ?w"
    using pr that by (simp add: present_def)
  show ?thesis
  proof (cases "payload c")
    case (PlayerDisconnectPayload d)
    then have "seat ?w' = (seat ?w)(pd_playerId d := None)" using ok(2) by (simp add: ProcessGameCommand_def seat_disconnect)
    moreover have "notice k c \<longleftrightarrow> k = pd_playerId d" for k by (cases d) (auto simp: notice_def PlayerDisconnectPayload)
    ultimately show ?thesis using pr by (auto simp: present_def)
  next
    case (EnterZonePayload d)
    then have n: "\<not> notice k c" for k by (simp add: notice_def)
    show ?thesis
    proof (cases "GetSession net (senderSessionId c) = None \<or> seat ?w (ez_playerId d) \<noteq> None")
      case True
      then have "seat ?w' = seat ?w" using ok(2) EnterZonePayload by (auto simp: ProcessGameCommand_def seat_enter split: option.split)
      then show ?thesis using keep n by blast
    next
      case False
      then obtain a where a: "GetSession net (senderSessionId c) = Some a" by auto
      have "seat ?w' = (seat ?w)(ez_playerId d \<mapsto> ez_sessionId d)" using False a ok(2) EnterZonePayload by (simp add: ProcessGameCommand_def seat_enter)
      moreover have "GetSession net (ez_sessionId d) = Some a" using a ok(3) EnterZonePayload by (simp add: enter_ok_def)
      moreover have "ez_playerId d = 0 \<or> s_playerId (store net a) = ez_playerId d"
        using a ok(1,3) EnterZonePayload unfolding enter_ok_def net_ok_def ids_ok_def by metis
      ultimately show ?thesis using pr n by (auto simp: present_def)
    qed
  qed (rule keep; use ok(2) in \<open>simp add: ProcessGameCommand_def notice_def seat_input split: option.split\<close>)+
qed

lemma tick_flags:
  "gm_sessionManager (fst (ProcessGameCommand enc env gm net c)) = gm_sessionManager gm"
  "m_running (fst (ProcessGameCommand enc env gm net c)) = m_running gm"
  by (simp_all add: ProcessGameCommand_def HandlePlayerInput_def HandleEnterZone_def HandlePlayerDisconnect_def SendEnterZoneResponse_def
      Let_def split_beta split: GameCommandPayload.split option.split)

lemma tick_flags_update:
  "gm_sessionManager (UpdateWorld dt gm) = gm_sessionManager gm" "m_running (UpdateWorld dt gm) = m_running gm"
  unfolding UpdateWorld_fold by (rule fold_keeps; simp add: update_player_def split: prod.split)+

lemma tick_flags_snapshots:
  "gm_sessionManager (SendWorldSnapshots enc now gm) = gm_sessionManager gm \<and> m_running (SendWorldSnapshots enc now gm) = m_running gm"
proof -
  let ?P = "\<lambda>g. gm_sessionManager g = gm_sessionManager gm \<and> m_running g = m_running gm"
  have "gm_sessionManager (snd (GetCachedPlayersInAOI g k pos)) = gm_sessionManager g \<and> m_running (snd (GetCachedPlayersInAOI g k pos)) = m_running g" for g k pos
    by (simp add: GetCachedPlayersInAOI_def UpdateAOICache_def count_executed_def count_skipped_def Let_def split_beta split: option.split)
  then have "?P (snapshot_player enc (GetCurrentTimestamp now) kp g)" if "?P g" for kp g
    using that by (simp add: snapshot_player_def AddSnapshotToPlayerBatch_def AddToPlayerBatch_def split_beta)
  then show ?thesis unfolding SendWorldSnapshots_fold by (rule_tac fold_keeps [where P = ?P]) auto
qed

lemma commands_present:
  assumes "net_ok net" "gm_sessionManager gm" "\<forall>c \<in> snd ` set xs. enter_ok net c" "present net (m_world gm) (map snd xs @ cs)"
    and "fold (\<lambda>(i, c) (gm, net). ProcessGameCommand enc (te_cmd te i) gm net c) xs (gm, net) = (gm', net')"
  shows "present net' (m_world gm') cs"
  using assms
proof (induction xs arbitrary: gm net)
  case (Cons x xs)
  obtain i c where x: "x = (i, c)" by fastforce
  obtain g n where p: "ProcessGameCommand enc (te_cmd te i) gm net c = (g, n)" by fastforce
  have q: "quiet net n" using quiet_command [of net enc "te_cmd te i" gm c] p by simp
  have "net_ok n" by (rule net_ok_quiet(2) [OF q Cons.prems(1)])
  moreover have "gm_sessionManager g" using Cons.prems(2) p tick_flags(1) [of enc "te_cmd te i" gm net c] by simp
  moreover have "\<forall>c \<in> snd ` set xs. enter_ok n c"
    using Cons.prems(3) net_ok_quiet(1) [OF q] by (simp add: x)
  moreover have "present net (m_world g) (map snd xs @ cs)"
    using command_present [OF Cons.prems(1,2), of c "map snd xs @ cs" enc "te_cmd te i"] Cons.prems(3,4) p by (simp add: x)
  then have "present n (m_world g) (map snd xs @ cs)" by (rule present_same [OF _ quiet_same [OF q] quiet_steady [OF q]]) simp
  ultimately show ?case using Cons.IH [of n g] Cons.prems(5) p by (simp add: x)
qed simp

lemma pending_presence:
  assumes "net_ok net" "gm_sessionManager gm" "ProcessPendingCommands enc te gm net = Some (gm', net')"
  shows "net_ok net' \<and> same_sessions net net' \<and> gm_sessionManager gm' \<and> m_running gm' = m_running gm \<and>
    ((\<forall>i. te_running te i) \<longrightarrow> linked net (m_world gm) \<longrightarrow> linked net' (m_world gm'))"
proof -
  let ?step = "\<lambda>(i, c) (gm, net). ProcessGameCommand enc (te_cmd te i) gm net c"
  obtain batch q where c: "collect_commands (te_expired te) (te_running te) (nat (m_commandBatchSize gm)) [] (gameLogicQueue net) = (batch, q)"
    by fastforce
  obtain n d where n: "batch = take n (q_items (gameLogicQueue net))" "q = (gameLogicQueue net)\<lparr>q_items := drop (n + d) (q_items (gameLogicQueue net))\<rparr>"
    "d = 0 \<or> \<not> te_running te (length batch)"
    using collect_commands_prefix [OF c, simplified] by blast
  let ?mid = "net\<lparr>gameLogicQueue := q\<rparr>"
  obtain g n' where f': "fold ?step (enumerate 0 batch) (gm, ?mid) = (g, n')" by fastforce
  then have f: "fold ?step (enumerate 0 batch) (gm, ?mid) = (g, net')" and g: "m_world gm' = m_world g"
    "gm_sessionManager gm' = gm_sessionManager g" "m_running gm' = m_running g"
    using assms(3) c by (auto simp: ProcessPendingCommands_def split: if_splits)
  have "gm_sessionManager (fst (fold ?step xs s)) = gm_sessionManager (fst s) \<and> m_running (fst (fold ?step xs s)) = m_running (fst s)" for xs s
    by (rule fold_keeps [where P = "\<lambda>t. gm_sessionManager (fst t) = gm_sessionManager (fst s) \<and> m_running (fst t) = m_running (fst s)"])
      (auto simp: tick_flags split: prod.splits)
  then have flags: "gm_sessionManager g" "m_running g = m_running gm" using f assms(2) by (metis fst_conv)+
  have mid: "net_ok ?mid" "\<forall>c \<in> set batch. enter_ok ?mid c"
    using assms(1) n(1,2) by (auto simp: net_ok_def ids_ok_def GetSession_def enter_ok_def dest!: in_set_takeD in_set_dropD)
  have quiet: "quiet ?mid net'" by (rule pending_net [OF assms(3) c])
  have "linked net' (m_world gm')" if run: "\<forall>i. te_running te i" and l: "linked net (m_world gm)"
  proof (cases "m_shuttingDown (gameLogicQueue net)")
    case True
    then show ?thesis using quiet n(2) by (simp add: linked_def quiet_def)
  next
    case False
    have items: "q_items (gameLogicQueue net) = batch @ q_items q" using n run by simp
    then have "present ?mid (m_world gm) (map snd (enumerate 0 batch) @ q_items q)"
      using l False by (simp add: linked_def present_def GetSession_def)
    then have "present net' (m_world g) (q_items q)"
      using mid assms(2) f by (intro commands_present [of ?mid gm "enumerate 0 batch" "q_items q"]) (auto simp: in_set_enumerate_eq)
    then show ?thesis using quiet by (simp add: linked_def g(1) quiet_def)
  qed
  then show ?thesis using net_ok_quiet(2) [OF quiet mid(1)] same_sessions_trans [OF same_sessions_queue(1) quiet_same [OF quiet]] flags g by auto
qed

lemma tick_presence:
  assumes "presence p" "program_ok p" "\<And>i. env_ok (te_cmd te i)"
  shows "gm_sessionManager (pr_game (snd (tick enc te t p))) \<and> m_running (pr_game (snd (tick enc te t p))) = m_running (pr_game p) \<and>
    net_ok (net_of (snd (tick enc te t p))) \<and> held_ok (net_of (snd (tick enc te t p))) (q_items (pr_jobQueue p)) (pr_logins p) \<and>
    ((\<forall>i. te_running te i) \<longrightarrow> linked (net_of (snd (tick enc te t p))) (m_world (pr_game (snd (tick enc te t p)))))"
proof (cases "ProcessPendingCommands enc te (pr_game p) (net_of p) = None \<or> duration_cast ns_per_ms (te_now te - t) < m_tickDuration (pr_game p)")
  case True
  then have "snd (tick enc te t p) = p" by (auto simp: tick_def GameLoop_iteration_def Let_def split: option.splits)
  then show ?thesis using assms(1) by (simp add: presence_def)
next
  case False
  then obtain g n where p: "ProcessPendingCommands enc te (pr_game p) (net_of p) = Some (g, n)" by auto
  define u where "u = UpdateWorld (delta_seconds (duration_cast ns_per_ms (te_now te - t))) g"
  define gs where "gs = SendWorldSnapshots enc (te_server te) u"
  define net where "net = snd (FlushAllBatches gs n)"
  define gm where "gm = report_if_due (add_times te (fst (FlushAllBatches gs n)))"
  have t: "pr_game (snd (tick enc te t p)) = gm" "net_of (snd (tick enc te t p)) = net"
    using False p by (simp_all add: tick_def GameLoop_iteration_def Let_def split_beta u_def gs_def net_def gm_def)
  have ok: "gm_ok g" "gm_ok u" "gm_ok gs" "gm_ok (fst (FlushAllBatches gs n))"
    using ProcessPendingCommands_ok [OF _ _ assms(3) p] assms(2) UpdateWorld_ok(1) SendWorldSnapshots_frame(1) FlushAllBatches_ok
    by (simp_all add: program_ok_def u_def gs_def)
  have "m_world gm = m_world u"
    using SendWorldSnapshots_frame(2) [OF ok(2)] FlushAllBatches_ok [OF ok(3)] tick_end_ok [OF ok(4)] by (simp add: same_sim_def gm_def gs_def)
  then have seat: "seat (m_world gm) = seat (m_world g)" using seat_update [OF ok(1)] by (simp add: u_def)
  have flags: "gm_sessionManager gm = gm_sessionManager g" "m_running gm = m_running g"
    by (simp_all add: gm_def gs_def u_def report_if_due_def add_times_def ReportPerformanceStats_def FlushAllBatches_def tick_flags_snapshots
        tick_flags_update Let_def)
  have q: "quiet n net" unfolding net_def by (rule quiet_flush)
  have pend: "net_ok n" "same_sessions (net_of p) n" "gm_sessionManager g" "m_running g = m_running (pr_game p)"
    "(\<forall>i. te_running te i) \<longrightarrow> linked n (m_world g)"
    using pending_presence [OF _ _ p] assms(1) by (auto simp: presence_def)
  have "linked net (m_world gm)" if "linked n (m_world g)"
    using linked_same [OF that quiet_same [OF q] quiet_steady [OF q]] q seat by (simp add: quiet_def linked_def present_def)
  then show ?thesis unfolding t
    using pend flags net_ok_quiet(2) [OF q] held_ok_same [OF _ same_sessions_trans [OF pend(2) quiet_same [OF q]]] assms(1) by (simp add: presence_def)
qed

text \<open>A job: at most one command, for the player of its session, and at most one new login.\<close>

definition speaks_for :: "Net \<Rightarrow> nat option \<Rightarrow> GameCommand \<Rightarrow> bool" where
  "speaks_for net session c \<longleftrightarrow> (\<forall>d. payload c = EnterZonePayload d \<longrightarrow> (\<exists>a. session = Some a \<and>
     ez_playerId d = s_playerId (store net a) \<and> ez_sessionId d = s_sessionId (store net a) \<and> senderSessionId c = s_sessionId (store net a)))"

definition job_effect :: "Net \<Rightarrow> nat option \<Rightarrow> login_request list \<Rightarrow> Net \<Rightarrow> login_request list \<Rightarrow> bool" where
  "job_effect net session lg net' lg' \<longleftrightarrow> (quiet net net' \<or> (\<exists>c. net' = push_command net c \<and> speaks_for net session c)) \<and>
     (\<forall>q \<in> set lg'. q \<in> set lg \<or> session = Some (lr_session q))"

lemma job_effect_refl [simp]: "job_effect net session lg net lg"
  by (simp add: job_effect_def)

lemma job_effect_push: "speaks_for net session c \<Longrightarrow> job_effect net session lg (push_command net c) lg"
  by (auto simp: job_effect_def)

lemma handler_effect:
  "login_handler enc peer auth s packet (net, cm, lg) \<in> {Returned (net', cm', lg'), Thrown (net', cm', lg')} \<Longrightarrow> job_effect net s lg net' lg'"
  "chat_handler peer up s packet (net, cm, lg) \<in> {Returned (net', cm', lg'), Thrown (net', cm', lg')} \<Longrightarrow> job_effect net s lg net' lg'"
  by (auto simp: job_effect_def login_handler_def LoginPacketHandler_def log_endpoint_def chat_handler_def quiet Let_def
      split: option.splits outcome.splits if_splits)

lemma worker_effect:
  assumes "register_handlers enc peer up = Returned pm" "WorkerLoop_job fb jp pm job (net, cm, lg) = Next (net', cm', lg')"
  shows "job_effect net (job_session job) lg net' lg'"
proof -
  have d: "job_effect net s lg net' lg'" if "DispatchPacket pm i s packet (net, cm, lg) \<in> {Returned (net', cm', lg'), Thrown (net', cm', lg')}" for i s packet
  proof (cases "um_find (m_handlers pm) i")
    case None
    then show ?thesis using that by (simp add: DispatchPacket_def job_effect_def)
  next
    case (Some h)
    then have "h = login_handler enc peer True \<or> h = chat_handler peer up" by (auto simp: registered(1) [OF assms(1)] split: if_splits)
    moreover have "h s packet (net, cm, lg) \<in> {Returned (net', cm', lg'), Thrown (net', cm', lg')}" using that Some by (simp add: DispatchPacket_def)
    ultimately show ?thesis
      using handler_effect(1) [of enc peer True s packet net cm lg net' cm' lg'] handler_effect(2) [of peer up s packet net cm lg net' cm' lg'] by auto
  qed
  have "net' = net \<and> lg' = lg \<or> ProcessJobPacket fb jp pm job (fb_root fb (packetBuffer job)) (net, cm, lg) \<in> {Returned (net', cm', lg'), Thrown (net', cm', lg')}"
    using assms(2) by (auto simp: WorkerLoop_job_def split: if_splits outcome.splits)
  then show ?thesis
  proof
    assume "net' = net \<and> lg' = lg"
    then show ?thesis by (simp add: job_effect_def)
  next
    assume p: "ProcessJobPacket fb jp pm job (fb_root fb (packetBuffer job)) (net, cm, lg) \<in> {Returned (net', cm', lg'), Thrown (net', cm', lg')}"
    show ?thesis
    proof (cases "isNonGamePacket (up_id (fb_root fb (packetBuffer job))) \<and> jp_packetManager jp")
      case True
      then show ?thesis using p d by (auto simp: ProcessJobPacket_def split: option.splits)
    next
      case False
      then show ?thesis using p
        by (auto simp: ProcessJobPacket_def speaks_for_def Let_def split: option.splits if_splits intro!: job_effect_push)
    qed
  qed
qed

lemma pop_subset:
  "PopJob q = Some (job, q') \<Longrightarrow> (job \<in> set (q_items q) \<or> job = default_Job) \<and> set (q_items q') \<subseteq> set (q_items q)"
  by (auto simp: PopJob_def blocking_pop_def try_dequeue_def Let_def split: list.splits if_splits)

lemma work_presence:
  assumes "presence p" "register_handlers enc peer up = Returned pm" "work fb pm p = Some p'"
  shows "presence p'"
proof -
  obtain job jq net cm lg where j: "PopJob (pr_jobQueue p) = Some (job, jq)"
    "WorkerLoop_job fb (pr_jobProcessor p) pm job (net_of p, sv_chat (pr_server p), pr_logins p) = Next (net, cm, lg)"
    "p' = p\<lparr>pr_jobQueue := jq, pr_server := (pr_server p)\<lparr>sv_net := net, sv_chat := cm\<rparr>, pr_logins := lg\<rparr>"
    using assms(3) by (auto simp: work_def split: option.splits prod.splits worker_result.splits)
  have pr: "net_ok (net_of p)" "held_ok (net_of p) (q_items (pr_jobQueue p)) (pr_logins p)" "linked (net_of p) (m_world (pr_game p))"
    using assms(1) by (simp_all add: presence_def)
  have eff: "job_effect (net_of p) (job_session job) (pr_logins p) net lg" by (rule worker_effect [OF assms(2) j(2)])
  have a: "a < next_addr (net_of p)" if "job_session job = Some a" for a
    using that pop_subset [OF j(1)] pr(2) by (auto simp: held_ok_def default_Job_def)
  have held: "held_ok (net_of p) (q_items jq) lg"
    using pr(2) a eff pop_subset [OF j(1)] unfolding held_ok_def job_effect_def by (meson subsetD)
  have "net_ok net \<and> linked net (m_world (pr_game p)) \<and> same_sessions (net_of p) net"
  proof (cases "quiet (net_of p) net")
    case True
    then show ?thesis using net_ok_quiet(2) [OF True pr(1)] linked_same [OF pr(3) quiet_same [OF True] quiet_steady [OF True]]
      by (simp add: quiet_def)
  next
    case False
    then obtain c where c: "net = push_command (net_of p) c" "speaks_for (net_of p) (job_session job) c" using eff by (auto simp: job_effect_def)
    have "enter_ok (net_of p) c" using c(2) a unfolding enter_ok_def speaks_for_def by metis
    moreover have "steady (net_of p) net" "same_sessions (net_of p) net" by (simp_all add: c(1) push_command_def steady_def same_sessions_def)
    ultimately show ?thesis using net_ok_same [OF pr(1), of net] linked_same [OF pr(3), of net] pr(1)
      by (auto simp: c(1) push_command_def PushGameCommand_def net_ok_def split: if_splits)
  qed
  then show ?thesis using held held_ok_same assms(1) by (auto simp: presence_def j(3))
qed

lemma answer_presence:
  assumes "presence p" "login_answer enc peer alive q r (net_of p) \<in> {Returned net, Thrown net}" "steady (net_of p) net"
  shows "presence ((with_net p net)\<lparr>pr_logins := remove1 q (pr_logins p)\<rparr>)"
proof -
  have same: "same_sessions (net_of p) net" by (rule same_sessions_answer [OF assms(2)])
  have "gameLogicQueue net = gameLogicQueue (net_of p)" "sm_gameLogicQueue net = sm_gameLogicQueue (net_of p)"
    using assms(2) by (auto simp: login_answer_def log_endpoint_def SendLoginFailure_def upd_session_def Let_def split: if_splits option.splits)
  then have "net_ok net" "linked net (m_world (pr_game p))"
    using assms(1) net_ok_same [OF _ same assms(3)] linked_same [OF _ same assms(3)] by (simp_all add: presence_def net_ok_def [of "net_of p"])
  moreover have "held_ok net (q_items (pr_jobQueue p)) (remove1 q (pr_logins p))"
    using held_ok_same [OF _ same] assms(1) set_remove1_subset [of q "pr_logins p"] by (auto simp: presence_def held_ok_def)
  ultimately show ?thesis using assms(1) by (simp add: presence_def with_net_def)
qed

lemma push_jobs: "set (q_items (fold (\<lambda>j q. PushJob q j) js q)) \<subseteq> set (q_items q) \<union> set js"
proof (induction js arbitrary: q)
  case (Cons j js)
  have "set (q_items (PushJob q j)) \<subseteq> insert j (set (q_items q))" by (auto simp: PushJob_def)
  then show ?case using Cons.IH [of "PushJob q j"] by auto
qed simp

lemma stop_presence:
  assumes "gm_sessionManager (pr_game p)" "net_ok (net_of p)" "held_ok (net_of p) (q_items (pr_jobQueue p)) (pr_logins p)"
    and "m_running (pr_game p) \<or> linked (net_of p) (m_world (pr_game p))"
  shows "presence (main_stop p)"
proof -
  obtain gm net where s: "GM_Stop (pr_game p) (net_of p) = (gm, net)" by fastforce
  have "set (q_items (JP_Stop_signal (pr_jobProcessor p) (pr_jobQueue p))) \<subseteq> insert shutdown_job (set (q_items (pr_jobQueue p)))"
    using push_jobs [of "replicate (jp_workers (pr_jobProcessor p)) shutdown_job" "pr_jobQueue p"] by (auto simp: JP_Stop_signal_def)
  then have "held_ok net (q_items (JP_Stop_signal (pr_jobProcessor p) (pr_jobQueue p))) (pr_logins p)"
    using assms(3) s by (auto simp: held_ok_def GM_Stop_def shutdown_job_def default_Job_def split: if_splits)
  moreover have "net_ok ((net_of p)\<lparr>gameLogicQueue := GLQ_Shutdown (gameLogicQueue (net_of p))\<rparr>)"
    by (rule net_ok_same [OF assms(2)]) (use assms(2) in \<open>simp_all add: same_sessions_def steady_def GLQ_Shutdown_def net_ok_def\<close>)
  then have "net_ok net" using assms(2) s by (auto simp: GM_Stop_def split: if_splits)
  moreover have "linked net (m_world gm)" using assms(4) s by (auto simp: GM_Stop_def linked_def GLQ_Shutdown_def split: if_splits)
  moreover have "gm_sessionManager gm" using assms(1) s by (auto simp: GM_Stop_def split: if_splits)
  ultimately show ?thesis by (simp add: main_stop_def s presence_def)
qed

lemma program_step_presence:
  "program_step enc fb p p' \<Longrightarrow> program_ok p \<Longrightarrow> presence p \<Longrightarrow> steady (net_of p) (net_of p') \<Longrightarrow> presence p'"
proof (induction rule: program_step.induct)
  case (reads peer up pm a p stream)
  have "(\<lambda>body q. HandlePacket pm q a body) = (\<lambda>j q. PushJob q j) \<circ> mk_Job a"
    using registered(2) [OF reads(1)] by (simp add: HandlePacket_def fun_eq_iff)
  then have "set (q_items (pr_jobQueue (receive pm a stream p))) \<subseteq> set (q_items (pr_jobQueue p)) \<union> mk_Job a ` set (fst (ReadLoop stream))"
    using push_jobs [of "map (mk_Job a) (fst (ReadLoop stream))" "pr_jobQueue p"] by (simp add: receive_def fold_map)
  moreover have "held_ok (net_of p) (q_items (pr_jobQueue p)) (pr_logins p)" using reads by (simp add: presence_def)
  ultimately have "held_ok (net_of p) (q_items (pr_jobQueue (receive pm a stream p))) (pr_logins p)"
    using reads(2) unfolding held_ok_def by (fastforce simp: mk_Job_def)
  then show ?case using reads by (simp add: presence_def receive_def)
next
  case (works peer up pm p p')
  then show ?case by (blast intro: work_presence)
next
  case (ticks p te t)
  then show ?case using tick_presence [OF ticks(5,4,2), of enc t] by (simp add: presence_def tick_def split_beta)
next
  case (last_tick p te t)
  show ?case using tick_presence [OF last_tick(4,3,2), of enc t] last_tick(1)
    by (intro stop_presence) (simp_all add: tick_def split_beta)
next
  case (accepts p ev)
  then show ?case using accept_begin_presence by simp
next
  case (adds p peer)
  then show ?case using accept_finish_presence by (simp add: program_ok_def)
next
  case (read_ends a p now now' peer)
  have "presence (p\<lparr>pr_server := gone now' a (gone now a (pr_server p))\<rparr>)"
    using gone_presence [OF gone_presence [OF read_ends(3,1)], of a now now'] read_ends(1) gone_net(2) [where sv = "pr_server p"] by simp
  then show ?case using read_ends(2) by (simp add: program_ok_def server_ok_def leave_eq)
next
  case (write_ends a p now peer)
  then show ?case using gone_presence by (simp add: program_ok_def server_ok_def leave_eq)
next
  case (answers q p peer alive r net)
  then show ?case using answer_presence by (simp add: with_net_def)
next
  case (hears p ch m)
  then show ?case using presence_quiet [OF _ quiet_chat] by blast
next
  case (stops p)
  then show ?case by (intro stop_presence) (simp_all add: presence_def)
qed

text \<open>The invariant holds from the start.\<close>

lemma new_game:
  assumes "mk_GameManager sm cache file = Some gm"
  shows "gm_sessionManager gm = sm \<and> m_world gm = []"
proof -
  obtain g r where g: "LoadGameConfig file (initial_GameManager sm cache) = (g, r)" by fastforce
  then have "gm_sessionManager g = sm"
    by (auto simp: LoadGameConfig_def initial_GameManager_def Let_def split: config_file.splits option.splits if_splits)
  then show ?thesis using assms g by (auto simp: mk_GameManager_def split: if_splits option.splits)
qed

lemma start_state:
  assumes "main_start me = Started p"
  shows "gm_sessionManager (pr_game p) \<and> m_world (pr_game p) = [] \<and> net_of p = empty_Net \<and> pr_jobQueue p = empty_queue \<and> pr_logins p = []"
  using assms
proof (rule main_start_parts)
  fix opts gm cm sv
  assume gm: "mk_GameManager True (me_cache me) (me_game_config me) = Some gm" and cm: "m_connectedSessions cm = []"
    "Tcp_Start (me_listen_ok me) (opt_io_threads opts)
      ((SetOnSessionDisconnected (SetOnSessionConnected (mk_TcpServer empty_Net True mk_ChatManager)))\<lparr>sv_chat := cm\<rparr>) = (True, sv)"
    and p: "p = \<lparr>pr_jobQueue = empty_queue, pr_jobProcessor = JP_Start (mk_JobProcessor True True) (opt_logic_threads opts),
      pr_game = fst (GM_Start gm), pr_server = sv, pr_logins = [], pr_auth = load_server_config (me_server_config me)\<rparr>"
  show ?thesis using new_game [OF gm] main_start_server(5) [OF cm] by (simp add: p GM_Start_def)
qed

lemma start_presence: "main_start me = Started p \<Longrightarrow> presence p"
  by (drule start_state) (simp add: presence_def net_ok_def ids_ok_def held_ok_def linked_def present_def seat_def empty_Net_def empty_queue_def
      GetSession_def GetPlayer_def)

section \<open>Steady steps\<close>

definition steady_step :: "(UnifiedPacket \<Rightarrow> byte list) \<Rightarrow> codec \<Rightarrow> Program \<Rightarrow> Program \<Rightarrow> bool" where
  "steady_step enc fb p p' \<longleftrightarrow> program_step enc fb p p' \<and> steady (net_of p) (net_of p')"

lemma work_steady:
  assumes "register_handlers enc peer up = Returned pm" "work fb pm p = Some p'"
  shows "steady (net_of p) (net_of p')"
proof -
  obtain job jq net cm lg where j:
    "WorkerLoop_job fb (pr_jobProcessor p) pm job (net_of p, sv_chat (pr_server p), pr_logins p) = Next (net, cm, lg)"
    "p' = p\<lparr>pr_jobQueue := jq, pr_server := (pr_server p)\<lparr>sv_net := net, sv_chat := cm\<rparr>, pr_logins := lg\<rparr>"
    using assms(2) by (auto simp: work_def split: option.splits prod.splits worker_result.splits)
  show ?thesis using worker_effect [OF assms(1) j(1)] quiet_steady by (auto simp: j(2) job_effect_def push_command_def steady_def)
qed

lemma tick_steady: "steady (net_of p) (net_of (snd (tick enc te t p)))"
proof (cases "ProcessPendingCommands enc te (pr_game p) (net_of p)")
  case (Some r)
  obtain g n where r: "r = (g, n)" by fastforce
  obtain batch q where "collect_commands (te_expired te) (te_running te) (nat (m_commandBatchSize (pr_game p))) [] (gameLogicQueue (net_of p)) = (batch, q)"
    by fastforce
  then have "quiet ((net_of p)\<lparr>gameLogicQueue := q\<rparr>) (snd (FlushAllBatches g' n))" for g'
    using quiet_trans [OF pending_net quiet_flush] Some r by blast
  then have "steady (net_of p) (snd (FlushAllBatches g' n))" for g' using quiet_steady by (fastforce simp: steady_def)
  moreover have "steady (net_of p) (net_of p)" by (simp add: steady_def)
  ultimately show ?thesis by (simp add: tick_def GameLoop_iteration_def Some r Let_def split_beta)
qed (simp add: tick_def GameLoop_iteration_def steady_def Let_def)

lemma accept_finish_steady: "steady (sv_net sv) (sv_net (accept_finish peer sv))"
  by (simp add: accept_finish_def AddSession_def steady_def Let_def split: option.split outcome.split)

lemma answer_steady:
  "login_answer enc peer alive q r net = Returned net' \<Longrightarrow> s_playerId (store net (lr_session q)) = 0 \<Longrightarrow> steady net net'"
  by (auto simp: login_answer_def log_endpoint_def SendLoginFailure_def upd_session_def SetPlayerId_def Send_def steady_def Let_def
      split: if_splits option.splits)

end
