(* ===== verification/Presence_Properties.thy ===== *)
theory Presence_Properties
  imports Presence
begin

text \<open>
  The property of \<open>Presence\<close>, a run that shows it at work, and the two ways in which players and
  connections do come apart.
\<close>


text \<open>A client connects, logs in as player 7 and enters.\<close>

definition visit_codec :: codec where
  "visit_codec = \<lparr>fb_verify = (\<lambda>bs. True),
     fb_root = (\<lambda>bs. if hd bs = 1
       then \<lparr>up_id = PacketId_C_Login, up_data = Some (Packet_C_Login \<lparr>login_session_ticket = Some ''t'', login_player_id = 7, login_command_id = 0\<rparr>)\<rparr>
       else \<lparr>up_id = PacketId_C_EnterZone, up_data = Some (Packet_C_EnterZone 1 0)\<rparr>),
     fb_as_input = fb_as_input demo_codec,
     fb_as_zone = (\<lambda>_. 1)\<rparr>"

definition visit_peer :: "uint64 \<Rightarrow> string option" where
  "visit_peer _ = Some ''peer''"

definition visit_pm :: "Services PacketManager" where
  "visit_pm = (case register_handlers demo_enc visit_peer True of Returned pm \<Rightarrow> pm)"

lemma visit_pm: "register_handlers demo_enc visit_peer True = Returned visit_pm"
  by (simp add: visit_pm_def register_handlers_def RegisterHandler_def)

definition booted_program :: Program where
  "booted_program = (case main_start demo_main of Started p \<Rightarrow> p)"

definition accepted_program :: Program where
  "accepted_program = booted_program\<lparr>pr_server := accept_begin Connected (pr_server booted_program)\<rparr>"

definition connected_program :: Program where
  "connected_program = accepted_program\<lparr>pr_server := accept_finish visit_peer (pr_server accepted_program)\<rparr>"

definition delivered :: "byte \<Rightarrow> Program \<Rightarrow> Program" where
  "delivered b p = the (work visit_codec visit_pm (receive visit_pm 0 (frame [b]) p))"

definition answered :: "uint64 \<Rightarrow> Program \<Rightarrow> Program" where
  "answered k p = (let q = hd (pr_logins p) in
     (with_net p (case login_answer demo_enc visit_peer True q (default_response\<lparr>vr_success := True, vr_playerId := k\<rparr>) (net_of p) of
        Returned net \<Rightarrow> net))\<lparr>pr_logins := remove1 q (pr_logins p)\<rparr>)"

definition entered_program :: Program where
  "entered_program = snd (tick demo_enc (demo_tick 100000000) 0 (delivered 2 (answered 7 (delivered 1 connected_program))))"

definition relogged_program :: Program where
  "relogged_program = answered 8 (delivered 1 entered_program)"

definition left_program :: Program where
  "left_program = relogged_program\<lparr>pr_server := leave_ReadLoop 0 0 visit_peer 0 (pr_server relogged_program)\<rparr>"

text \<open>What the steps need of their states.\<close>

definition delivers :: "byte \<Rightarrow> Program \<Rightarrow> bool" where
  "delivers b p \<longleftrightarrow> 0 < next_addr (net_of p) \<and> (case work visit_codec visit_pm (receive visit_pm 0 (frame [b]) p) of None \<Rightarrow> False | Some _ \<Rightarrow> True)"

definition answers_login :: "uint64 \<Rightarrow> Program \<Rightarrow> bool" where
  "answers_login k p \<longleftrightarrow> pr_logins p \<noteq> [] \<and> lr_session (hd (pr_logins p)) = 0 \<and>
     (case login_answer demo_enc visit_peer True (hd (pr_logins p)) (default_response\<lparr>vr_success := True, vr_playerId := k\<rparr>) (net_of p) of
        Returned net \<Rightarrow> True | _ \<Rightarrow> False)"

lemma delivered_steps: "delivers b p \<Longrightarrow> (steady_step demo_enc visit_codec)\<^sup>*\<^sup>* p (delivered b p)"
proof -
  assume d: "delivers b p"
  let ?r = "receive visit_pm 0 (frame [b]) p"
  have w: "work visit_codec visit_pm ?r = Some (delivered b p)" using d by (auto simp: delivers_def delivered_def split: option.splits)
  have "steady_step demo_enc visit_codec p ?r" using program_step.reads [OF visit_pm, of 0 p] d by (simp add: steady_step_def delivers_def receive_def steady_def)
  moreover have "steady_step demo_enc visit_codec ?r (delivered b p)" using program_step.works [OF visit_pm w] work_steady [OF visit_pm w] by (simp add: steady_step_def)
  ultimately show ?thesis by (meson rtranclp.rtrancl_into_rtrancl r_into_rtranclp)
qed

lemma answered_step:
  assumes "answers_login k p"
  shows "program_step demo_enc visit_codec p (answered k p)" "s_playerId (store (net_of p) 0) = 0 \<Longrightarrow> steady_step demo_enc visit_codec p (answered k p)"
proof -
  let ?q = "hd (pr_logins p)" and ?r = "default_response\<lparr>vr_success := True, vr_playerId := k\<rparr>"
  obtain net where a: "login_answer demo_enc visit_peer True ?q ?r (net_of p) = Returned net" "?q \<in> set (pr_logins p)" "lr_session ?q = 0"
    using assms by (auto simp: answers_login_def split: outcome.splits)
  have e: "answered k p = (with_net p net)\<lparr>pr_logins := remove1 ?q (pr_logins p)\<rparr>" by (simp add: answered_def a(1) Let_def)
  show s: "program_step demo_enc visit_codec p (answered k p)"
    unfolding e using a(1,2) by (intro program_step.answers [where peer = visit_peer and alive = True and r = ?r]) simp_all
  show "steady_step demo_enc visit_codec p (answered k p)" if "s_playerId (store (net_of p) 0) = 0"
    using s answer_steady [OF a(1)] that a(3) by (simp add: steady_step_def e with_net_def)
qed

lemma visit_start: "main_start demo_main = Started booted_program"
  using demo_main_starts by (auto simp: booted_program_def)

lemma visit_run: "(steady_step demo_enc visit_codec)\<^sup>*\<^sup>* booted_program entered_program"
proof -
  let ?p2 = "delivered 1 connected_program"
  let ?p3 = "answered 7 ?p2"
  let ?p4 = "delivered 2 ?p3"
  have "net_of booted_program = empty_Net" using start_state [OF visit_start] by blast
  then have "steady (net_of booted_program) (net_of accepted_program)"
    by (simp add: accepted_program_def accept_begin_def new_session_def steady_def empty_Net_def mk_Session_def split_beta)
  then have 1: "steady_step demo_enc visit_codec booted_program accepted_program"
    unfolding accepted_program_def steady_step_def using program_step.accepts by blast
  have 2: "steady_step demo_enc visit_codec accepted_program connected_program"
    unfolding connected_program_def steady_step_def using program_step.adds accept_finish_steady by simp
  have facts: "delivers 1 connected_program" "answers_login 7 ?p2" "s_playerId (store (net_of ?p2) 0) = 0" "delivers 2 ?p3" "m_running (pr_game ?p4)"
    by code_simp+
  have "program_step demo_enc visit_codec ?p4 entered_program"
    unfolding entered_program_def by (rule program_step.ticks [OF facts(5)]) (simp_all add: demo_tick_def demo_env)
  then have 3: "steady_step demo_enc visit_codec ?p4 entered_program" using tick_steady by (simp add: steady_step_def entered_program_def)
  have "(steady_step demo_enc visit_codec)\<^sup>*\<^sup>* connected_program ?p4"
    using delivered_steps [OF facts(1)] answered_step(2) [OF facts(2,3)] delivered_steps [OF facts(4)]
    by (meson rtranclp.rtrancl_into_rtrancl rtranclp_trans)
  then show ?thesis using 1 2 3 by (meson converse_rtranclp_into_rtranclp rtranclp.rtrancl_into_rtrancl)
qed


text \<open>
  The proviso is needed.  When the same client logs in again as player 8 and then leaves, player 7
  stays active: its session is gone, and the only notice in the queue is for player 8.
\<close>

lemma relogin_leaves_ghost:
  "(program_step demo_enc visit_codec)\<^sup>*\<^sup>* booted_program left_program \<and> seat (m_world (pr_game left_program)) 7 = Some 0 \<and>
   GetSession (net_of left_program) 0 = None \<and> \<not> m_shuttingDown (gameLogicQueue (net_of left_program)) \<and>
   map payload (q_items (gameLogicQueue (net_of left_program))) = [PlayerDisconnectPayload \<lparr>pd_playerId = 8\<rparr>]"
proof -
  let ?d = "delivered 1 entered_program"
  have facts: "delivers 1 entered_program" "answers_login 8 ?d" "0 < next_addr (net_of relogged_program)" by code_simp+
  have steps: "(program_step demo_enc visit_codec)\<^sup>*\<^sup>* p p'" if "(steady_step demo_enc visit_codec)\<^sup>*\<^sup>* p p'" for p p'
    using that by (rule rtranclp_mono [THEN predicate2D, rotated]) (auto simp: steady_step_def)
  have "program_step demo_enc visit_codec ?d relogged_program" unfolding relogged_program_def by (rule answered_step(1) [OF facts(2)])
  moreover have "program_step demo_enc visit_codec relogged_program left_program"
    unfolding left_program_def by (rule program_step.read_ends [OF facts(3)])
  ultimately have "(program_step demo_enc visit_codec)\<^sup>*\<^sup>* booted_program left_program"
    using steps [OF visit_run] steps [OF delivered_steps [OF facts(1)]] by (meson rtranclp.rtrancl_into_rtrancl rtranclp_trans)
  moreover have "seat (m_world (pr_game left_program)) 7 = Some 0" "GetSession (net_of left_program) 0 = None"
    "\<not> m_shuttingDown (gameLogicQueue (net_of left_program))"
    "map payload (q_items (gameLogicQueue (net_of left_program))) = [PlayerDisconnectPayload \<lparr>pd_playerId = 8\<rparr>]" by code_simp+
  ultimately show ?thesis by blast
qed

text \<open>
  A notice speaks for the player, not for the session: when two sessions are logged in as the
  same player, the end of either makes the player inactive, although the other is still there.
\<close>

lemma other_session_kicks:
  assumes "gm_sessionManager gm" "payload c = PlayerDisconnectPayload \<lparr>pd_playerId = k\<rparr>"
    and "seat (m_world gm) k = Some sid" "senderSessionId c \<noteq> sid" "GetSession net sid = Some a" "s_playerId (store net a) = k"
  shows "seat (m_world (fst (ProcessGameCommand enc env gm net c))) k = None \<and>
    GetSession (snd (ProcessGameCommand enc env gm net c)) sid = Some a"
  using assms quiet_command [of net enc env gm c]
  by (simp add: ProcessGameCommand_def seat_disconnect quiet_def same_sessions_def GetSession_def)

end
