(* ===== verification/Queue_Wait.thy ===== *)
theory Queue_Wait
  imports Queues
begin

text \<open>
  \<open>src/Utils/JobQueue.cpp\<close> (and \<open>src/Game/GameLogicQueue.cpp\<close>, which has the same code) statement
  by statement: the mutex, the condition variable and the atomic flag, with any number of
  workers that pop, threads that push, and threads that shut the queue down.

  \<open>PushJob\<close> enqueues without the mutex and takes it only to notify; \<open>PopJob\<close> holds it from its
  first statement to its return, except while it waits.  In \<open>Queues\<close> a pop is one step; here is
  shown that nothing is lost by this: a wait never misses a push.

  What is assumed of the third-party queue is less than \<open>Queues\<close> assumes: a dequeue takes any
  element that is there, and it can fail only if every element there belongs to a push that has
  not come to its mutex yet.
\<close>

section \<open>State\<close>

text \<open>
  Where a worker is: outside \<open>PopJob\<close>; waiting for the mutex, at the beginning or after it was
  woken; about to try the queue; after a failed try; after it has seen the flag clear; in the
  wait set of the condition variable; behind the wait with a value in its variable; about to
  try the queue again because of the shutdown.
\<close>

datatype 'a pc = Outside | At_lock | Testing | Failed | Going | Asleep | Behind 'a | Second

record 'a monitor =
  mo_queue :: "'a shut_queue"
  mo_workers :: "'a pc list"
  mo_checked :: "'a list" \<comment> \<open>pushes that have found the flag clear and not yet enqueued\<close>
  mo_notifying :: nat \<comment> \<open>pushes between \<open>enqueue\<close> and \<open>notify_one\<close>\<close>
  mo_closing :: nat \<comment> \<open>shutdowns between the flag and \<open>notify_all\<close>\<close>
  mo_returned :: "'a list" \<comment> \<open>what the pops have returned so far\<close>
  mo_pushed :: "'a list" \<comment> \<open>what was ever enqueued\<close>

definition new_monitor :: "nat \<Rightarrow> 'a monitor" where
  "new_monitor n = \<lparr>mo_queue = empty_queue, mo_workers = replicate n Outside, mo_checked = [], mo_notifying = 0,
     mo_closing = 0, mo_returned = [], mo_pushed = []\<rparr>"

text \<open>The mutex is held by the worker that is between its acquisition and its release.\<close>

fun holds :: "'a pc \<Rightarrow> bool" where
  "holds Testing = True"
| "holds Failed = True"
| "holds Going = True"
| "holds (Behind _) = True"
| "holds Second = True"
| "holds _ = False"

definition mutex_free :: "'a monitor \<Rightarrow> bool" where
  "mutex_free s \<longleftrightarrow> list_all (\<lambda>w. \<not> holds w) (mo_workers s)"

definition set_worker :: "'a monitor \<Rightarrow> nat \<Rightarrow> 'a pc \<Rightarrow> 'a monitor" where
  "set_worker s i w = s\<lparr>mo_workers := (mo_workers s)[i := w]\<rparr>"

definition worker_at :: "'a monitor \<Rightarrow> nat \<Rightarrow> 'a pc \<Rightarrow> bool" where
  "worker_at s i w \<longleftrightarrow> i < length (mo_workers s) \<and> mo_workers s ! i = w"

abbreviation items :: "'a monitor \<Rightarrow> 'a list" where "items s \<equiv> q_items (mo_queue s)"
abbreviation shut :: "'a monitor \<Rightarrow> bool" where "shut s \<equiv> m_shuttingDown (mo_queue s)"

text \<open>What \<open>notify_all\<close> does to a worker.\<close>

fun wakes :: "'a pc \<Rightarrow> 'a pc" where
  "wakes Asleep = At_lock"
| "wakes w = w"

section \<open>Steps\<close>

text \<open>
  The code of the queue, once it is called.  \<open>dflt\<close> is the default-constructed job, which a pop
  returns when it finds nothing after a shutdown.
\<close>

inductive queue_step :: "'a \<Rightarrow> 'a monitor \<Rightarrow> 'a monitor \<Rightarrow> bool" for dflt where
  locks: "worker_at s i At_lock \<Longrightarrow> mutex_free s \<Longrightarrow> queue_step dflt s (set_worker s i Testing)"
| dequeues: "worker_at s i Testing \<Longrightarrow> items s = xs @ x # ys \<Longrightarrow>
    queue_step dflt s ((set_worker s i (Behind x))\<lparr>mo_queue := (mo_queue s)\<lparr>q_items := xs @ ys\<rparr>\<rparr>)"
| finds_nothing: "worker_at s i Testing \<Longrightarrow> length (items s) \<le> mo_notifying s \<Longrightarrow> queue_step dflt s (set_worker s i Failed)"
| sees_shutdown: "worker_at s i Failed \<Longrightarrow> shut s \<Longrightarrow> queue_step dflt s (set_worker s i (Behind dflt))"
| sees_open: "worker_at s i Failed \<Longrightarrow> \<not> shut s \<Longrightarrow> queue_step dflt s (set_worker s i Going)"
| sleeps: "worker_at s i Going \<Longrightarrow> queue_step dflt s (set_worker s i Asleep)"
| returns: "worker_at s i (Behind x) \<Longrightarrow> \<not> shut s \<Longrightarrow>
    queue_step dflt s ((set_worker s i Outside)\<lparr>mo_returned := mo_returned s @ [x]\<rparr>)"
| tries_again: "worker_at s i (Behind x) \<Longrightarrow> shut s \<Longrightarrow> queue_step dflt s (set_worker s i Second)"
| takes_second: "worker_at s i Second \<Longrightarrow> items s = xs @ x # ys \<Longrightarrow> queue_step dflt s
    ((set_worker s i Outside)\<lparr>mo_queue := (mo_queue s)\<lparr>q_items := xs @ ys\<rparr>, mo_returned := mo_returned s @ [x]\<rparr>)"
| gives_up: "worker_at s i Second \<Longrightarrow> length (items s) \<le> mo_notifying s \<Longrightarrow>
    queue_step dflt s ((set_worker s i Outside)\<lparr>mo_returned := mo_returned s @ [dflt]\<rparr>)"
| enqueues: "x \<in> set (mo_checked s) \<Longrightarrow> queue_step dflt s (s\<lparr>mo_queue := (mo_queue s)\<lparr>q_items := items s @ [x]\<rparr>,
    mo_checked := remove1 x (mo_checked s), mo_notifying := mo_notifying s + 1, mo_pushed := mo_pushed s @ [x]\<rparr>)"
| notifies: "0 < mo_notifying s \<Longrightarrow> mutex_free s \<Longrightarrow> worker_at s i Asleep \<Longrightarrow>
    queue_step dflt s ((set_worker s i At_lock)\<lparr>mo_notifying := mo_notifying s - 1\<rparr>)"
| notifies_nobody: "0 < mo_notifying s \<Longrightarrow> mutex_free s \<Longrightarrow> Asleep \<notin> set (mo_workers s) \<Longrightarrow>
    queue_step dflt s (s\<lparr>mo_notifying := mo_notifying s - 1\<rparr>)"
| notifies_all: "0 < mo_closing s \<Longrightarrow> mutex_free s \<Longrightarrow>
    queue_step dflt s (s\<lparr>mo_closing := mo_closing s - 1, mo_workers := map wakes (mo_workers s)\<rparr>)"

text \<open>The callers, and the spurious wake-ups that the standard allows.\<close>

inductive caller_step :: "'a monitor \<Rightarrow> 'a monitor \<Rightarrow> bool" where
  calls_pop: "worker_at s i Outside \<Longrightarrow> caller_step s (set_worker s i At_lock)"
| calls_push: "\<not> shut s \<Longrightarrow> caller_step s (s\<lparr>mo_checked := x # mo_checked s\<rparr>)"
| calls_shutdown: "caller_step s (s\<lparr>mo_queue := (mo_queue s)\<lparr>m_shuttingDown := True\<rparr>, mo_closing := mo_closing s + 1\<rparr>)"
| wakes_by_itself: "worker_at s i Asleep \<Longrightarrow> caller_step s (set_worker s i At_lock)"

abbreviation monitor_run :: "'a \<Rightarrow> 'a monitor \<Rightarrow> 'a monitor \<Rightarrow> bool" where
  "monitor_run dflt \<equiv> (\<lambda>s s'. queue_step dflt s s' \<or> caller_step s s')\<^sup>*\<^sup>*"

section \<open>Sums over the workers\<close>

text \<open>
  The invariants count workers, add up the steps they have left, or collect the jobs they
  carry: each is a sum over the workers.
\<close>

definition tally :: "('a pc \<Rightarrow> 'b::comm_monoid_add) \<Rightarrow> 'a monitor \<Rightarrow> 'b" where
  "tally f s = sum_list (map f (mo_workers s))"

lemma worker_in: "worker_at s i v \<Longrightarrow> v \<in> set (mo_workers s)"
  by (auto simp: worker_at_def)

lemma in_worker: "v \<in> set (mo_workers s) \<Longrightarrow> \<exists>i. worker_at s i v"
  by (auto simp: worker_at_def in_set_conv_nth)

lemma set_worker_others: "v \<in> set (mo_workers (set_worker s i w)) \<Longrightarrow> v = w \<or> v \<in> set (mo_workers s)"
  using set_update_subset_insert [of "mo_workers s" i w] by (auto simp: set_worker_def)

text \<open>A sum, split into the part of one worker and the part of the others.\<close>

lemma tally_split:
  assumes "worker_at s i v"
  shows "\<exists>k. tally f s = k + f v \<and> (\<forall>w. tally f (set_worker s i w) = k + f w)"
proof -
  have i: "i < length (mo_workers s)" and v: "mo_workers s ! i = v" using assms by (auto simp: worker_at_def)
  let ?k = "sum_list (map f (take i (mo_workers s))) + sum_list (map f (drop (Suc i) (mo_workers s)))"
  have "tally f s = ?k + f v"
    unfolding tally_def by (subst id_take_nth_drop [OF i]) (simp add: v ac_simps)
  moreover have "tally f (set_worker s i w) = ?k + f w" for w
    using i by (simp add: tally_def set_worker_def upd_conv_take_nth_drop ac_simps)
  ultimately show ?thesis by blast
qed

lemma tally_zero_iff: "tally f s = (0::nat) \<longleftrightarrow> (\<forall>w \<in> set (mo_workers s). f w = 0)"
  by (auto simp: tally_def)

lemma tally_none: "(\<And>w. w \<in> set (mo_workers s) \<Longrightarrow> f w = 0) \<Longrightarrow> tally f s = 0"
  unfolding tally_def by (simp add: map_cong [of _ _ f "\<lambda>_. 0"])

lemma tally_new: "f Outside = 0 \<Longrightarrow> tally f (new_monitor n) = 0"
  by (induction n) (simp_all add: tally_def new_monitor_def)

lemma tally_update [simp]:
  "tally f (s\<lparr>mo_queue := q\<rparr>) = tally f s" "tally f (s\<lparr>mo_checked := c\<rparr>) = tally f s"
  "tally f (s\<lparr>mo_notifying := k\<rparr>) = tally f s" "tally f (s\<lparr>mo_closing := k\<rparr>) = tally f s"
  "tally f (s\<lparr>mo_returned := r\<rparr>) = tally f s" "tally f (s\<lparr>mo_pushed := r\<rparr>) = tally f s"
  by (simp_all add: tally_def)

lemma set_worker_fields [simp]:
  "mo_queue (set_worker s i w) = mo_queue s" "mo_checked (set_worker s i w) = mo_checked s"
  "mo_notifying (set_worker s i w) = mo_notifying s" "mo_closing (set_worker s i w) = mo_closing s"
  "mo_returned (set_worker s i w) = mo_returned s" "mo_pushed (set_worker s i w) = mo_pushed s"
  "length (mo_workers (set_worker s i w)) = length (mo_workers s)"
  by (simp_all add: set_worker_def)

fun holding :: "'a pc \<Rightarrow> nat" where
  "holding w = of_bool (holds w)"

text \<open>Workers that will still look into the queue, and workers that have looked and may sleep.\<close>

fun alert :: "'a pc \<Rightarrow> nat" where
  "alert At_lock = 1"
| "alert Testing = 1"
| "alert _ = 0"

fun drowsy :: "'a pc \<Rightarrow> nat" where
  "drowsy Failed = 1"
| "drowsy Going = 1"
| "drowsy Asleep = 1"
| "drowsy _ = 0"

fun sleepy :: "'a pc \<Rightarrow> nat" where
  "sleepy Going = 1"
| "sleepy Asleep = 1"
| "sleepy _ = 0"

fun carried :: "'a pc \<Rightarrow> 'a multiset" where
  "carried (Behind x) = {#x#}"
| "carried _ = {#}"

fun steps_left :: "'a pc \<Rightarrow> nat" where
  "steps_left At_lock = 6"
| "steps_left Testing = 5"
| "steps_left Failed = 4"
| "steps_left (Behind _) = 2"
| "steps_left Second = 1"
| "steps_left Going = 1"
| "steps_left _ = 0"

definition steps_due :: "'a monitor \<Rightarrow> nat" where
  "steps_due s = 9 * length (mo_checked s) + 8 * mo_notifying s + (6 * length (mo_workers s) + 1) * mo_closing s + tally steps_left s"

lemma mutex_free_tally: "mutex_free s \<longleftrightarrow> tally holding s = 0"
  by (simp add: mutex_free_def tally_zero_iff list_all_iff)

lemma tally_wakes:
  "tally f (s\<lparr>mo_closing := k, mo_workers := map wakes (mo_workers s)\<rparr>) = sum_list (map (\<lambda>w. f (wakes w)) (mo_workers s))"
  by (simp add: tally_def comp_def)

lemma worker_atE:
  assumes "worker_at s i v"
  obtains h a d z k c where
    "tally holding s = h + holding v" "\<forall>w. tally holding (set_worker s i w) = h + holding w"
    "tally alert s = a + alert v" "\<forall>w. tally alert (set_worker s i w) = a + alert w"
    "tally drowsy s = d + drowsy v" "\<forall>w. tally drowsy (set_worker s i w) = d + drowsy w"
    "tally sleepy s = z + sleepy v" "\<forall>w. tally sleepy (set_worker s i w) = z + sleepy w"
    "tally steps_left s = k + steps_left v" "\<forall>w. tally steps_left (set_worker s i w) = k + steps_left w"
    "tally carried s = c + carried v" "\<forall>w. tally carried (set_worker s i w) = c + carried w"
  using tally_split [OF assms, of holding] tally_split [OF assms, of alert] tally_split [OF assms, of drowsy]
    tally_split [OF assms, of sleepy] tally_split [OF assms, of steps_left]
    tally_split [OF assms, of carried] by blast

section \<open>Invariants\<close>

text \<open>
  One worker holds the mutex; as long as a worker has found nothing, there are as many pushes
  about to notify and workers about to look as there are jobs; and as long as a worker has seen
  the flag clear that is now set, a shutdown is about to notify.
\<close>

definition guarded :: "'a monitor \<Rightarrow> bool" where
  "guarded s \<longleftrightarrow> tally holding s \<le> 1 \<and>
     (0 < tally drowsy s \<longrightarrow> length (items s) \<le> mo_notifying s + tally alert s) \<and>
     (shut s \<longrightarrow> 0 < tally sleepy s \<longrightarrow> 0 < mo_closing s)"

definition jobs_kept :: "'a monitor \<Rightarrow> bool" where
  "jobs_kept s \<longleftrightarrow> \<not> shut s \<longrightarrow> Second \<notin> set (mo_workers s) \<and> mset (mo_pushed s) = mset (mo_returned s) + tally carried s + mset (items s)"

lemma new_guarded [simp]: "guarded (new_monitor n)" and new_jobs_kept [simp]: "jobs_kept (new_monitor n)"
  by (simp_all add: guarded_def jobs_kept_def tally_new) (simp_all add: new_monitor_def empty_queue_def)

lemma resting: "\<not> holds w \<Longrightarrow> w \<noteq> Asleep \<Longrightarrow> drowsy w = 0 \<and> sleepy w = 0"
  by (cases w) simp_all

lemma wakes_cases: "holds (wakes w) = holds w" "wakes w \<noteq> Asleep" "carried (wakes w) = carried w" "Second = wakes w \<longleftrightarrow> w = Second"
  by (cases w; simp)+

lemma drowsy_awake:
  "mutex_free s \<Longrightarrow> Asleep \<notin> set (mo_workers s) \<Longrightarrow> tally drowsy s = 0 \<and> tally sleepy s = 0"
  unfolding tally_zero_iff mutex_free_def list_all_iff using resting by metis

lemma all_woken:
  "mutex_free s \<Longrightarrow> mutex_free (s\<lparr>mo_closing := k, mo_workers := map wakes (mo_workers s)\<rparr>)"
  "Asleep \<notin> set (mo_workers (s\<lparr>mo_closing := k, mo_workers := map wakes (mo_workers s)\<rparr>))"
  by (auto simp: mutex_free_def list_all_iff wakes_cases(1) image_iff wakes_cases(2) [symmetric])

lemma wakes_due:
  "sum_list (map (\<lambda>w. steps_left (wakes w)) ws) \<le> sum_list (map steps_left ws) + 6 * length ws"
proof (induction ws)
  case (Cons w ws)
  then show ?case by (cases w) auto
qed simp

lemma queue_step_guarded:
  assumes "queue_step dflt s s'" "guarded s"
  shows "guarded s'"
  using assms
proof (induction rule: queue_step.induct)
  case (notifies_nobody s)
  then show ?case using drowsy_awake [of s] by (simp add: guarded_def mutex_free_tally)
next
  case (notifies_all s)
  then show ?case
    using drowsy_awake [OF all_woken, of s "mo_closing s - 1"] all_woken(1) [of s "mo_closing s - 1"]
    by (simp add: guarded_def mutex_free_tally)
qed (auto elim!: worker_atE simp: guarded_def mutex_free_tally)

lemma caller_step_guarded:
  assumes "caller_step s s'" "guarded s"
  shows "guarded s'"
  using assms
  by (induction rule: caller_step.induct) (auto elim!: worker_atE simp: guarded_def mutex_free_tally)

lemma queue_step_jobs_kept:
  assumes "queue_step dflt s s'" "jobs_kept s"
  shows "jobs_kept s'"
  using assms
proof (induction rule: queue_step.induct)
  case (notifies_all s)
  then show ?case by (simp add: jobs_kept_def tally_wakes wakes_cases image_iff) (auto simp: tally_def)
next
  case (gives_up s i)
  then show ?case using worker_in [of s i] by (simp add: jobs_kept_def)
qed (auto elim!: worker_atE dest!: set_worker_others dest: worker_in in_set_remove1 simp: jobs_kept_def)

lemma caller_step_jobs_kept:
  assumes "caller_step s s'" "jobs_kept s"
  shows "jobs_kept s'"
  using assms
  by (induction rule: caller_step.induct) (auto elim!: worker_atE dest!: set_worker_others dest: worker_in simp: jobs_kept_def)

lemma monitor_run_invariants:
  assumes "monitor_run dflt s s'" "guarded s" "jobs_kept s"
  shows "guarded s' \<and> jobs_kept s'"
  using assms
  by (induction rule: rtranclp_induct)
    (auto intro: queue_step_guarded caller_step_guarded queue_step_jobs_kept caller_step_jobs_kept)

section \<open>Progress\<close>

lemma queue_step_due:
  assumes "queue_step dflt s s'"
  shows "steps_due s' < steps_due s"
  using assms
proof (induction rule: queue_step.induct)
  case (enqueues x s)
  then have "length (mo_checked s) = Suc (length (remove1 x (mo_checked s)))"
    using length_pos_if_in_set [of x "mo_checked s"] by (simp add: length_remove1)
  then show ?case by (simp add: steps_due_def)
next
  case (notifies_all s)
  then obtain k where "mo_closing s = Suc k" by (cases "mo_closing s") auto
  with wakes_due [of "mo_workers s"] show ?case by (simp add: steps_due_def tally_wakes) (simp add: tally_def)
qed (auto elim!: worker_atE simp: steps_due_def)

lemma queue_run_due: "(queue_step dflt ^^ k) s s' \<Longrightarrow> k + steps_due s' \<le> steps_due s"
proof (induction k arbitrary: s')
  case (Suc k)
  then obtain t where "(queue_step dflt ^^ k) s t" "queue_step dflt t s'" by auto
  with Suc.IH [of t] queue_step_due [of dflt t s'] show ?case by simp
qed simp

text \<open>A worker that holds the mutex can always go on.\<close>

lemma holder_steps:
  assumes "worker_at s i w" "holds w"
  shows "\<exists>s'. queue_step dflt s s'"
  using assms
proof (cases w)
  case Testing
  with assms show ?thesis using dequeues [of s i "[]" _ _ dflt] finds_nothing [of s i dflt] by (cases "items s") auto
next
  case Second
  with assms show ?thesis using takes_second [of s i "[]" _ _ dflt] gives_up [of s i dflt] by (cases "items s") auto
next
  case Failed
  with assms show ?thesis using sees_shutdown [of s i dflt] sees_open [of s i dflt] by blast
next
  case (Behind x)
  with assms show ?thesis using returns [of s i x dflt] tries_again [of s i x dflt] by blast
qed (use assms in \<open>auto intro: sleeps\<close>)

definition settled :: "'a monitor \<Rightarrow> bool" where
  "settled s \<longleftrightarrow> list_all (\<lambda>w. w = Outside \<or> w = Asleep) (mo_workers s) \<and> mo_checked s = [] \<and>
     (Asleep \<in> set (mo_workers s) \<longrightarrow> items s = [] \<and> \<not> shut s)"

lemma stuck_settled:
  assumes "guarded s" and stuck: "\<nexists>s'. queue_step dflt s s'"
  shows "settled s"
proof -
  have free: "mutex_free s"
    using stuck holder_steps [of s] in_worker [of _ s] unfolding mutex_free_def list_all_iff by blast
  have "w = Outside \<or> w = Asleep" if "w \<in> set (mo_workers s)" for w
    using that in_worker [OF that] stuck free locks [of s _ dflt] unfolding mutex_free_def list_all_iff
    by (cases w rule: pc.exhaust) (fastforce+)
  then have still: "\<forall>w \<in> set (mo_workers s). w = Outside \<or> w = Asleep" by blast
  have checked: "mo_checked s = []"
    using stuck enqueues [of _ s dflt] by (cases "mo_checked s") auto
  have calm: "mo_notifying s = 0" "mo_closing s = 0"
    using stuck free notifies [of s _ dflt] notifies_nobody [of s dflt] notifies_all [of s dflt]
      in_worker [of Asleep s] by blast+
  have "tally alert s = 0" using still by (auto simp: tally_zero_iff)
  moreover have "0 < tally drowsy s" "0 < tally sleepy s" if "Asleep \<in> set (mo_workers s)"
    using that tally_zero_iff [of drowsy s] tally_zero_iff [of sleepy s] by fastforce+
  ultimately show ?thesis using assms(1) still checked calm by (auto simp: settled_def guarded_def list_all_iff)
qed

section \<open>Properties\<close>

text \<open>
  A pop that is not disturbed does what the one step of \<open>Queues\<close> does: it returns the same value
  and leaves the same queue, or it goes to sleep where that step is not possible.
\<close>

lemma set_worker_twice [simp]: "set_worker (set_worker s i v) i w = set_worker s i w"
  by (simp add: set_worker_def)

lemma set_worker_at: "worker_at s i v \<Longrightarrow> worker_at (set_worker s i w) i w"
  by (simp add: worker_at_def set_worker_def)

lemma worker_at_queue [simp]: "worker_at (s\<lparr>mo_queue := q\<rparr>) i w = worker_at s i w"
  by (simp add: worker_at_def)

lemma set_worker_queue [simp]: "set_worker (s\<lparr>mo_queue := q\<rparr>) i w = (set_worker s i w)\<lparr>mo_queue := q\<rparr>"
  by (simp add: set_worker_def)

definition popping :: "'a monitor \<Rightarrow> nat \<Rightarrow> 'a pc \<Rightarrow> 'a shut_queue \<Rightarrow> 'a monitor" where
  "popping s i w q = (set_worker s i w)\<lparr>mo_queue := q\<rparr>"

lemma popping_fields [simp]:
  "set_worker (popping s i v q) i w = popping s i w q" "mo_queue (popping s i w q) = q"
  "mo_notifying (popping s i w q) = mo_notifying s" "mo_returned (popping s i w q) = mo_returned s"
  "(popping s i w q)\<lparr>mo_queue := q'\<rparr> = popping s i w q'"
  by (simp_all add: popping_def)

lemma popping_at [simp]: "worker_at s i v \<Longrightarrow> worker_at (popping s i w q) i w"
  by (simp add: popping_def set_worker_at)

lemma pop_empty:
  assumes "worker_at s i v" "q_items q = []" "m_shuttingDown q"
  shows "(queue_step dflt)\<^sup>*\<^sup>* (popping s i Testing q) ((popping s i Outside q)\<lparr>mo_returned := mo_returned s @ [dflt]\<rparr>)"
proof -
  have "queue_step dflt (popping s i Testing q) (popping s i Failed q)"
    using finds_nothing [of "popping s i Testing q" i dflt] assms by simp
  moreover have "queue_step dflt (popping s i Failed q) (popping s i (Behind dflt) q)"
    using sees_shutdown [of "popping s i Failed q" i dflt] assms by simp
  moreover have "queue_step dflt (popping s i (Behind dflt) q) (popping s i Second q)"
    using tries_again [of "popping s i (Behind dflt) q" i dflt dflt] assms by simp
  moreover have "queue_step dflt (popping s i Second q) ((popping s i Outside q)\<lparr>mo_returned := mo_returned s @ [dflt]\<rparr>)"
    using gives_up [of "popping s i Second q" i dflt] assms by simp
  ultimately show ?thesis by (meson converse_rtranclp_into_rtranclp rtranclp.rtrancl_refl)
qed

lemma pop_found:
  assumes at: "worker_at s i v" and items: "q_items q = y # ys" and pop: "blocking_pop dflt q = Some (x, q')"
  shows "(queue_step dflt)\<^sup>*\<^sup>* (popping s i Testing q) ((popping s i Outside q')\<lparr>mo_returned := mo_returned s @ [x]\<rparr>)"
proof -
  let ?q = "q\<lparr>q_items := ys\<rparr>" and ?done = "(popping s i Outside q')\<lparr>mo_returned := mo_returned s @ [x]\<rparr>"
  have took: "queue_step dflt (popping s i Testing q) (popping s i (Behind y) ?q)"
    using dequeues [of "popping s i Testing q" i "[]" y ys dflt] at items by simp
  have "(queue_step dflt)\<^sup>*\<^sup>* (popping s i (Behind y) ?q) ?done"
  proof (cases "m_shuttingDown q")
    case False
    then have "x = y" "q' = ?q" using pop items by (auto simp: blocking_pop_open)
    with False show ?thesis using returns [of "popping s i (Behind y) ?q" i y dflt] at by (simp add: r_into_rtranclp)
  next
    case True
    then have again: "queue_step dflt (popping s i (Behind y) ?q) (popping s i Second ?q)"
      using tries_again [of "popping s i (Behind y) ?q" i y dflt] at by simp
    have "queue_step dflt (popping s i Second ?q) ?done"
      using pop items True at takes_second [of "popping s i Second ?q" i "[]" _ _ dflt] gives_up [of "popping s i Second ?q" i dflt]
      by (auto simp: blocking_pop_shutdown split: list.splits)
    with again show ?thesis by (meson converse_rtranclp_into_rtranclp rtranclp.rtrancl_refl)
  qed
  with took show ?thesis by (rule converse_rtranclp_into_rtranclp)
qed

lemma pop_alone:
  assumes at: "worker_at s i At_lock" and free: "mutex_free s"
    and pop: "blocking_pop dflt (mo_queue s) = Some (x, q)"
  shows "(queue_step dflt)\<^sup>*\<^sup>* s ((popping s i Outside q)\<lparr>mo_returned := mo_returned s @ [x]\<rparr>)"
proof -
  have "queue_step dflt s (popping s i Testing (mo_queue s))"
    using locks [OF at free, of dflt] by (simp add: popping_def set_worker_def)
  moreover have "(queue_step dflt)\<^sup>*\<^sup>* (popping s i Testing (mo_queue s)) ((popping s i Outside q)\<lparr>mo_returned := mo_returned s @ [x]\<rparr>)"
  proof (cases "items s")
    case Nil
    then have "shut s \<and> x = dflt \<and> q = mo_queue s"
      using pop by (auto simp: blocking_pop_def try_dequeue_def split: if_splits)
    with Nil show ?thesis using pop_empty [OF at, of "mo_queue s" dflt] by simp
  next
    case (Cons y ys)
    then show ?thesis using pop_found [OF at _ pop] by simp
  qed
  ultimately show ?thesis by (rule converse_rtranclp_into_rtranclp)
qed

lemma pop_alone_sleeps:
  assumes at: "worker_at s i At_lock" and free: "mutex_free s" and pop: "blocking_pop dflt (mo_queue s) = None"
  shows "(queue_step dflt)\<^sup>*\<^sup>* s (popping s i Asleep (mo_queue s))"
proof -
  have none: "items s = []" "\<not> shut s"
    using pop by (auto simp: blocking_pop_def try_dequeue_def split: if_splits list.splits)
  have "queue_step dflt s (popping s i Testing (mo_queue s))"
    using locks [OF at free, of dflt] by (simp add: popping_def set_worker_def)
  moreover have "queue_step dflt (popping s i Testing (mo_queue s)) (popping s i Failed (mo_queue s))"
    using finds_nothing [of "popping s i Testing (mo_queue s)" i dflt] at none by simp
  moreover have "queue_step dflt (popping s i Failed (mo_queue s)) (popping s i Going (mo_queue s))"
    using sees_open [of "popping s i Failed (mo_queue s)" i dflt] at none by simp
  moreover have "queue_step dflt (popping s i Going (mo_queue s)) (popping s i Asleep (mo_queue s))"
    using sleeps [of "popping s i Going (mo_queue s)" i dflt] at by simp
  ultimately show ?thesis by (meson converse_rtranclp_into_rtranclp rtranclp.rtrancl_refl)
qed

text \<open>
  C10: no lost wake-up.  Whatever the callers have done before, with any number of workers, and
  whenever a push or a shutdown came in the middle of a pop: the code of the queue itself takes
  at most \<^term>\<open>steps_due s\<close> steps more, and where it can take none, every worker has left \<open>PopJob\<close> or
  sleeps in it, sleeping only if the queue is empty and not shut down, and then exactly the jobs
  that were ever enqueued have been returned.
\<close>

theorem no_lost_wakeup:
  assumes "monitor_run dflt (new_monitor n) s" "(queue_step dflt ^^ k) s s'"
  shows "k \<le> steps_due s \<and> ((\<nexists>s''. queue_step dflt s' s'') \<longrightarrow>
    settled s' \<and> (Asleep \<in> set (mo_workers s') \<longrightarrow> mset (mo_returned s') = mset (mo_pushed s')))"
proof -
  have "monitor_run dflt s s'"
    using relpowp_imp_rtranclp [OF assms(2)] by (rule mono_rtranclp [rule_format, rotated]) blast
  with assms(1) have "monitor_run dflt (new_monitor n) s'" by (rule rtranclp_trans)
  from monitor_run_invariants [OF this] have inv: "guarded s'" "jobs_kept s'" by simp_all
  have "mset (mo_returned s') = mset (mo_pushed s')" if "settled s'" "Asleep \<in> set (mo_workers s')"
  proof -
    have "carried w = {#}" if "w \<in> set (mo_workers s')" for w
      using that \<open>settled s'\<close> by (auto simp: settled_def list_all_iff)
    then have "tally carried s' = {#}" by (simp add: tally_none)
    with that inv(2) show ?thesis by (simp add: settled_def jobs_kept_def)
  qed
  with stuck_settled [OF inv(1), of dflt] queue_run_due [OF assms(2)] show ?thesis by auto
qed

text \<open>
  The push that comes between the test and the wait: the worker has found the queue empty and is
  about to sleep when the job \<open>7\<close> is enqueued.  The notification waits for the mutex, that is for
  the sleep, and the job is returned.
\<close>

definition race :: "nat pc \<Rightarrow> nat list \<Rightarrow> nat \<Rightarrow> nat list \<Rightarrow> nat monitor" where
  "race w queued k popped = \<lparr>mo_queue = empty_queue\<lparr>q_items := queued\<rparr>, mo_workers = [w], mo_checked = [], mo_notifying = k,
     mo_closing = 0, mo_returned = popped, mo_pushed = [7]\<rparr>"

lemma race_step:
  "mutex_free (race w queued k popped) = (\<not> holds w)" "worker_at (race w queued k popped) 0 w"
  "set_worker (race w queued k popped) 0 v = race v queued k popped"
  by (simp_all add: race_def mutex_free_def worker_at_def set_worker_def)

lemma race_reached: "monitor_run 0 (new_monitor 1) (race Going [7] 1 [])"
proof -
  define st :: "nat pc \<Rightarrow> nat list \<Rightarrow> nat monitor" where "st = (\<lambda>w c. (new_monitor 1)\<lparr>mo_workers := [w], mo_checked := c\<rparr>)"
  have st [simp]: "worker_at (st w c) 0 w" "set_worker (st w c) 0 v = st v c" "mutex_free (st w c) = (\<not> holds w)"
    "mo_queue (st w c) = empty_queue" "mo_checked (st w c) = c" "mo_notifying (st w c) = 0" for v w c
    by (simp_all add: st_def new_monitor_def worker_at_def set_worker_def mutex_free_def)
  have "new_monitor 1 = st Outside []" by (simp add: st_def new_monitor_def)
  moreover have "caller_step (st Outside []) (st At_lock [])" using calls_pop [of "st Outside []" 0] by simp
  moreover have "queue_step 0 (st At_lock []) (st Testing [])" using locks [of "st At_lock []" 0 0] by simp
  moreover have "queue_step 0 (st Testing []) (st Failed [])"
    using finds_nothing [of "st Testing []" 0 0] by (simp add: empty_queue_def)
  moreover have "queue_step 0 (st Failed []) (st Going [])"
    using sees_open [of "st Failed []" 0 0] by (simp add: empty_queue_def)
  moreover have "caller_step (st Going []) (st Going [7])"
    using calls_push [of "st Going []" 7] by (simp add: empty_queue_def) (simp add: st_def)
  moreover have "queue_step 0 (st Going [7]) (race Going [7] 1 [])"
    using enqueues [of 7 "st Going [7]" 0] by (simp add: st_def new_monitor_def race_def empty_queue_def)
  ultimately show ?thesis by (metis (no_types, lifting) converse_rtranclp_into_rtranclp rtranclp.rtrancl_refl)
qed

lemma race_run: "(queue_step 0 ^^ 5) (race Going [7] 1 []) (race Outside [] 0 [7])"
proof -
  have "queue_step 0 (race Going [7] 1 []) (race Asleep [7] 1 [])"
    using sleeps [of "race Going [7] 1 []" 0 0] by (simp add: race_step)
  moreover have "queue_step 0 (race Asleep [7] 1 []) (race At_lock [7] 0 [])"
    using notifies [of "race Asleep [7] 1 []" 0 0] by (simp add: race_step) (simp add: race_def)
  moreover have "queue_step 0 (race At_lock [7] 0 []) (race Testing [7] 0 [])"
    using locks [of "race At_lock [7] 0 []" 0 0] by (simp add: race_step)
  moreover have "queue_step 0 (race Testing [7] 0 []) (race (Behind 7) [] 0 [])"
    using dequeues [of "race Testing [7] 0 []" 0 "[]" 7 "[]" 0] by (simp add: race_step) (simp add: race_def)
  moreover have "queue_step 0 (race (Behind 7) [] 0 []) (race Outside [] 0 [7])"
    using returns [of "race (Behind 7) [] 0 []" 0 7 0] by (simp add: race_step) (simp add: race_def empty_queue_def)
  ultimately show ?thesis by (simp add: eval_nat_numeral) blast
qed

theorem no_lost_wakeup_witness:
  "5 \<le> steps_due (race Going [7] 1 []) \<and> settled (race Outside [] 0 [7])"
proof -
  have "\<nexists>s''. queue_step 0 (race Outside [] 0 [7]) s''"
    by (auto elim!: queue_step.cases simp: race_def worker_at_def)
  with no_lost_wakeup [OF race_reached race_run] show ?thesis by blast
qed

end
