(* ===== verification/Spec2Isabelle.thy ===== *)
theory Spec2Isabelle
  imports Spatial_Properties Handler_Properties Tick_Properties Stream_Properties Pool_Properties
    Job_Properties Chat_Properties Server_Properties Login Program_Properties
    Login_Chain Write_Loop Logging Tick_Interleaving Wire_Types
    Presence_Properties Queue_Wait
begin

text \<open>
  A verification of CppMMO, an authoritative MMO game server in C++.

  \<^bold>\<open>The program.\<close>  Clients connect over TCP and exchange length-prefixed FlatBuffers packets.
  \<open>TcpServer\<close> accepts connections; a \<open>Session\<close> reads frames and hands their bodies to
  \<open>PacketManager\<close>, which queues them as jobs.  The threads of \<open>JobProcessor\<close> verify a packet and
  either call a registered handler (login, chat) or translate it into a command for the game.
  The loop of \<open>GameManager\<close> takes a bounded batch of commands per tick, updates the world, keeps
  the \<open>QuadTree\<close> in step with it, computes who sees whom, and sends every active player one world
  snapshot.  Logins are verified by an authentication server in C#, which issues session tickets
  and keeps accounts in MySQL and tickets in Redis; chat travels through Redis.

  \<^bold>\<open>The theories\<close>, from the bottom up, with the sources (under \<open>src/src\<close>) they model:

  \<^item> \<open>Float32\<close>: binary32 and binary64 arithmetic with rounding to nearest, over rationals;
    \<open>Prelude\<close>: machine words, the clock, \<open>std::unordered_map\<close> and its interface (locale
    \<open>unordered_map\<close>); \<open>Decimal\<close>: \<open>std::to_string\<close>, \<open>std::stoll\<close>, \<open>find\<close>.
  \<^item> \<open>GameCommands\<close>: \<open>Game/GameCommand.h\<close>.  \<open>Quad_Tree\<close>: \<open>Game/Spatial/QuadTree\<close>, with the locale of a
    spatial index and its interpretation.  \<open>Players\<close>: \<open>Game/Models\<close>.  \<open>Queues\<close>:
    \<open>Game/GameLogicQueue\<close> and \<open>Utils/JobQueue\<close>, with the locale of a closable queue and one
    interpretation per kind of pop.  \<open>Protocol\<close>: the tables of \<open>Common/protocol.fbs\<close>.
    \<open>Sessions\<close>: \<open>Network/Session\<close> and \<open>Network/SessionManager\<close>.  \<open>MemoryPools\<close>: \<open>Utils/MemoryPool\<close>.
  \<^item> \<open>Game_Manager\<close>: \<open>Game/Managers/GameManager\<close>; \<open>Game_Invariant\<close> and \<open>Game_Delivery\<close> hold its lemmas.
  \<^item> \<open>Jobs\<close>: \<open>Network/PacketManager\<close> and \<open>Utils/JobProcessor\<close>.  \<open>Chat\<close>: \<open>Game/Managers/ChatManager\<close>,
    \<open>Game/PacketHandlers/ChatPacketHandler\<close>, \<open>Game/Services/RedisChatService\<close>; \<open>std::map\<close> is a
    second interpretation of the locale of maps.  \<open>Server\<close>: \<open>Network/TcpServer\<close> and the end of a
    session.  \<open>Auth\<close> and \<open>Login\<close>: \<open>Game/Services/AuthService\<close> and
    \<open>Game/PacketHandlers/LoginPacketHandler\<close>.  \<open>Main_Program\<close>: \<open>main.cpp\<close>.  \<open>Logging\<close>:
    \<open>Utils/Logger\<close>, \<open>Session::HandleError\<close> and \<open>main\<close> from its first statement.
  \<^item> \<open>Write_Loop\<close>: \<open>Session::WriteLoop\<close> against the threads that send and disconnect.
    \<open>Tick_Interleaving\<close>: a tick of \<open>GameManager::GameLoop\<close> while other threads push commands.
    \<open>Queue_Wait\<close>: \<open>Utils/JobQueue\<close> statement by statement, with its mutex, its condition variable
    and any number of threads (\<open>Game/GameLogicQueue\<close> has the same code).
  \<^item> \<open>Auth_Server\<close>: \<open>auth/Controllers\<close>, \<open>auth/Repositories\<close>, \<open>auth/Models\<close> and \<open>auth/DTOs\<close>.
    \<open>Tickets\<close> holds its invariants, as two interpretations of the locale \<open>auth_invariant\<close>, in
    which an invariant of the store that every awaited call keeps, and a promise about every
    response, are carried over all runs.

  \<^bold>\<open>State and effects.\<close>  Objects are records, shared sessions live in a store and are named by
  their address (\<open>Net\<close>), containers are lists in iteration order or maps; an operation takes the
  state and returns it.  Exceptions, undefined behaviour and blocking are values (\<open>outcome\<close>,
  \<open>option\<close>).  Concurrency is interleaving: the accept loop and the disconnects of sessions
  (\<open>server_step\<close>), the worker threads (\<open>workers_step\<close>), pushes and pops (\<open>run_queue\<close>), the game
  loop against the network (\<open>server_run\<close>), and all of them together (\<open>program_step\<close>).  Where the
  code takes a lock around an operation, or the container is lock-free, the operation is one
  step; a job and a tick are one step as well.  That a tick may be taken as one step is shown:
  with the pushes of other threads between its pops and its commands it equals an atomic tick
  (\<open>tick_linearises\<close>).  That a pop may be taken as one step is shown as well: a wait misses no push
  (\<open>no_lost_wakeup\<close>), and undisturbed it does what the one step does (\<open>pop_alone\<close>).  When the server
  is stopped in the middle of a tick, the rest of that tick is the step \<open>last_tick\<close>.  The write loop (\<open>loop_step\<close>, \<open>other_step\<close>) and the authentication server
  (\<open>auth_run\<close>) are modelled by themselves at a finer grain: the socket test, the look into the
  queue, the wait and the signal are steps of their own, and an action is a process (\<open>proc\<close>)
  whose steps are its awaited calls, each of which can fail before or after it took effect.

  A \<open>moodycamel::ConcurrentQueue\<close> keeps the order of the elements of one producing thread only.
  The list that models it is the order in which it hands its elements out; claims about the
  order of commands hold for one producer, and \<open>stale_commands_void\<close> shows that the order between
  a session's commands and the notice of its end does not matter.

  \<^bold>\<open>Parameters.\<close>  Clock readings, random draws, the FlatBuffers serialisation, verification and
  casts, the JSON library, the answers of the operating system about a peer, what Redis does with
  chat, how the HTTP exchange of a verification ends, the string comparison and the schema of
  MySQL, BCrypt, and whether a wait on a timer without an expiry completes.  Hypotheses about
  them are named in the statements (\<open>draws_in_range\<close>, a cast to the packet's own type returns the
  packet, clearing a pooled object makes it as good as new, the JSON of a response carries its
  fields, \<open>lenient\<close>).

  \<^bold>\<open>What is shown.\<close>
  \<^item> \<open>Spatial_Properties\<close>: queries are exact by the float comparison of the source, the tree refines
    a map over whole histories of calls, and it is bounded; the two ways to leave the contract.
    Exactness needs a map whose quadrants are exact in binary32 down to the maximal depth of six
    (\<open>on_grid\<close>), which the shipped 200 by 200 map satisfies.
  \<^item> \<open>Game_Properties\<close>: in every reachable state the index holds exactly the active players, all inside
    the map, and areas of interest are exact.  \<open>Handler_Properties\<close>: what entering, inputs, leaving
    and returning do to the world and to every client.  \<open>Tick_Properties\<close>: movement, cached areas,
    one snapshot per player and tick, the command batch, pacing, configuration.
  \<^item> \<open>Stream_Properties\<close>: the framing round trip, the read loop on any stream, the 64 MiB limit, the
    queues.  \<open>Pool_Properties\<close>: pooled objects and the name cache.
  \<^item> \<open>Job_Properties\<close>: packets become commands of their own session only, dispatch, and the workers
    drain the queue and end.  \<open>Chat_Properties\<close>: the round trip of a chat line.
    \<open>Server_Properties\<close>: one notification per disconnect, and how the accept loop dies.  \<open>Login\<close>: one answer per login, and none without the authentication server.
  \<^item> \<open>Program_Invariant\<close> and \<open>Program_Properties\<close>: the whole program as one transition system
    (\<open>program_step\<close>) and the invariant of the game, the limit of 600 sessions and the chat map in
    every reachable state; the start and the stop; the way of an input from the socket to the
    player's position; the one packet that can take the process down.  \<open>Presence\<close> and
    \<open>Presence_Properties\<close>: every active player has a session that is logged in as it, or the
    notice that removes it is on its way, until a session logs in twice as different players; and
    the two ways in which players and connections come apart.  \<open>Wire_Types\<close>: every buffer
    on its way to a client is a sequence of well-typed packets of the server.
  \<^item> \<open>Auth_Server_Properties\<close>: tickets are issued against a name and password only, live for an
    hour, and confirm the characters of their user only; accounts stay consistent when requests
    come in turn, and how two requests at once break them.  \<open>Login_Chain\<close> composes the two
    programs: a session becomes a character only through the credentials of its owner.
  \<^item> \<open>Write_Loop\<close>: the peer reads a prefix of what was queued, and the loop drains its queue when
    its timer does not block; the wake-up that is lost when it does.  \<open>Tick_Interleaving\<close>: ticks
    are atomic, late commands of a session are void.  \<open>Queue_Wait\<close>: no worker sleeps while there
    is a job or after a shutdown, and every job is returned once.  \<open>Logging\<close>: no logger, no server.

  All loops are total functions (\<open>ReadLoop\<close> by the length of the stream, \<open>collect_commands\<close> by the
  batch limit, the tree by its depth of at most six) or relations whose runs are shown to be
  bounded; no fuel is used.

  \<^bold>\<open>Not modelled.\<close>  The inside of the libraries (\<open>spdlog\<close>, \<open>asio\<close>, FlatBuffers, JSON, MySQL,
  Redis, BCrypt); the wiring of the authentication server (\<open>auth/Program.cs\<close>, dependency
  injection only) and the time between the evaluation of two statements of one job; memory
  reclamation; the clients.
\<close>

end
